(* ===== verification/Lock_Prelude.thy ===== *)
theory Lock_Prelude
  imports Main "HOL-Library.Word"
begin

text \<open>
  Shared vocabulary of the development: machine integers and checked arithmetic, the result of a
  call that may panic or block, the sorted association list that models the part of
  \<^verbatim>\<open>std::collections::BTreeMap\<close> the registry uses, and the fact collections the component
  theories extend.
\<close>

named_theorems outcome_simps \<open>rewriting of sequenced calls\<close>
named_theorems btree_simps \<open>rewriting of ordered-map operations\<close>

section \<open>Machine integers\<close>

type_synonym u64 = "64 word"
type_synonym u32 = "32 word"

abbreviation u64_max :: u64 where
  "u64_max \<equiv> - 1"

text \<open>Rust's \<^verbatim>\<open>u64::checked_add\<close>.\<close>

definition checked_add :: "u64 \<Rightarrow> u64 \<Rightarrow> u64 option" where
  "checked_add a b = (if uint a + uint b < 2 ^ 64 then Some (a + b) else None)"

lemma checked_add_nat:
  "checked_add a b = (if unat a + unat b < 2 ^ 64 then Some (a + b) else None)"
proof -
  have "uint a + uint b = int (unat a + unat b)" by simp
  moreover have "int n < 2 ^ 64 \<longleftrightarrow> n < 2 ^ 64" for n
    using of_nat_less_iff [of n "2 ^ 64", where 'a=int] by simp
  ultimately show ?thesis by (simp only: checked_add_def)
qed

lemma checked_add_SomeD: "checked_add a b = Some c \<Longrightarrow> unat c = unat a + unat b"
  by (auto simp: checked_add_nat unat_word_ariths split: if_splits)

lemma checked_add_1_None_iff: "checked_add a 1 = None \<longleftrightarrow> a = u64_max"
proof -
  have "unat a < 2 ^ 64" using unsigned_less [of a, where 'a=nat] by simp
  moreover have "a = u64_max \<longleftrightarrow> unat a = 2 ^ 64 - 1"
    by (simp add: word_unat_eq_iff unsigned_minus_1_eq_mask mask_eq_exp_minus_1)
  ultimately show ?thesis by (auto simp: checked_add_nat)
qed

lemma checked_add_1_Some_iff:
  "checked_add a 1 = Some b \<longleftrightarrow> a \<noteq> u64_max \<and> b = a + 1"
  using checked_add_1_None_iff [of a] by (auto simp: checked_add_def split: if_splits)

lemma succ_u64_greater: "a \<noteq> u64_max \<Longrightarrow> (a::u64) < a + 1"
  using checked_add_SomeD [of a 1 "a + 1"] checked_add_1_Some_iff [of a "a + 1"]
  by (simp add: word_less_nat_alt)

section \<open>Calls that return, panic or stay blocked\<close>

text \<open>
  A call of the crate returns a value, unwinds with a panic message, or is still blocked when no
  other thread makes a further step.
\<close>

datatype 'a outcome = Return 'a | Panic string | Blocked

definition is_panic :: "'a outcome \<Rightarrow> bool" where
  "is_panic r = (case r of Panic _ \<Rightarrow> True | _ \<Rightarrow> False)"

definition map_outcome :: "('a \<Rightarrow> 'b) \<Rightarrow> 'a outcome \<Rightarrow> 'b outcome" where
  "map_outcome f r = (case r of Return x \<Rightarrow> Return (f x) | Panic m \<Rightarrow> Panic m | Blocked \<Rightarrow> Blocked)"

text \<open>
  Sequencing: a panic or a blocked call ends the sequence. \<open>on_unwind\<close> runs the destructors of
  the values a frame owns when a panic passes through it.
\<close>

definition and_then ::
  "'a outcome \<times> 's \<Rightarrow> ('a \<Rightarrow> 's \<Rightarrow> 'b outcome \<times> 's) \<Rightarrow> 'b outcome \<times> 's"
where
  "and_then p k = (case p of
       (Return x, s) \<Rightarrow> k x s
     | (Panic m, s) \<Rightarrow> (Panic m, s)
     | (Blocked, s) \<Rightarrow> (Blocked, s))"

definition on_unwind :: "('s \<Rightarrow> 's) \<Rightarrow> 'a outcome \<times> 's \<Rightarrow> 'a outcome \<times> 's" where
  "on_unwind cleanup p = (case p of (Panic m, s) \<Rightarrow> (Panic m, cleanup s) | q \<Rightarrow> q)"

text \<open>Sequencing with a continuation that contains an unbounded loop.\<close>

definition and_then_loop ::
  "'a outcome \<times> 's \<Rightarrow> ('a \<Rightarrow> 's \<Rightarrow> ('b outcome \<times> 's) option) \<Rightarrow> ('b outcome \<times> 's) option"
where
  "and_then_loop p k = (case p of
       (Return x, s) \<Rightarrow> k x s
     | (Panic m, s) \<Rightarrow> Some (Panic m, s)
     | (Blocked, s) \<Rightarrow> Some (Blocked, s))"

lemma and_then_loop_simps [simp, outcome_simps]:
  "and_then_loop (Return x, s) k = k x s"
  "and_then_loop (Panic m, s) k = Some (Panic m, s)"
  "and_then_loop (Blocked, s) k = Some (Blocked, s)"
  by (simp_all add: and_then_loop_def)

lemma is_panic_simps [simp]:
  "is_panic (Return x) = False" "is_panic (Panic m) = True" "is_panic Blocked = False"
  by (simp_all add: is_panic_def)

lemma map_outcome_simps [simp]:
  "map_outcome f (Return x) = Return (f x)"
  "map_outcome f (Panic m) = Panic m"
  "map_outcome f Blocked = Blocked"
  by (simp_all add: map_outcome_def)

lemma map_outcome_eq_iff [simp]:
  "map_outcome f r = Panic m \<longleftrightarrow> r = Panic m"
  "map_outcome f r = Blocked \<longleftrightarrow> r = Blocked"
  "map_outcome f r = Return y \<longleftrightarrow> (\<exists>x. r = Return x \<and> y = f x)"
  by (cases r; auto)+

lemma map_outcome_comp: "map_outcome f (map_outcome g r) = map_outcome (\<lambda>x. f (g x)) r"
  by (cases r) simp_all

lemma and_then_simps [simp, outcome_simps]:
  "and_then (Return x, s) k = k x s"
  "and_then (Panic m, s) k = (Panic m, s)"
  "and_then (Blocked, s) k = (Blocked, s)"
  by (simp_all add: and_then_def)

lemma on_unwind_simps [simp, outcome_simps]:
  "on_unwind c (Return x, s) = (Return x, s)"
  "on_unwind c (Panic m, s) = (Panic m, c s)"
  "on_unwind c (Blocked, s) = (Blocked, s)"
  by (simp_all add: on_unwind_def)

lemma and_then_assoc: "and_then (and_then p k) l = and_then p (\<lambda>x s. and_then (k x s) l)"
proof -
  obtain r s where "p = (r, s)" by (cases p)
  then show ?thesis by (cases r) simp_all
qed

lemma outcome_pair_cases [case_names Return Panic Blocked]:
  fixes p :: "'a outcome \<times> 's"
  obtains x s where "p = (Return x, s)"
  | m s where "p = (Panic m, s)"
  | s where "p = (Blocked, s)"
  by (metis outcome.exhaust surj_pair)

lemma and_then_ReturnD:
  assumes "and_then p k = (Return y, t)"
  obtains x s where "p = (Return x, s)" and "k x s = (Return y, t)"
  using assms by (cases p rule: outcome_pair_cases) auto

section \<open>Lists\<close>

lemma in_set_tl: "x \<in> set (tl xs) \<Longrightarrow> x \<in> set xs"
  by (cases xs) simp_all

section \<open>Ordered maps\<close>

text \<open>
  \<^verbatim>\<open>BTreeMap<K, V>\<close> as the list of its entries in ascending key order, which is the order its
  iterators follow. Every operation keeps the keys strictly ascending.
\<close>

type_synonym ('k, 'v) btree = "('k \<times> 'v) list"

definition btree_inv :: "('k::linorder, 'v) btree \<Rightarrow> bool" where
  "btree_inv m \<longleftrightarrow> sorted_wrt (<) (map fst m)"

text \<open>\<^verbatim>\<open>insert\<close> returns the value it replaces.\<close>

fun btree_insert :: "'k::linorder \<Rightarrow> 'v \<Rightarrow> ('k, 'v) btree \<Rightarrow> 'v option \<times> ('k, 'v) btree" where
  "btree_insert k v [] = (None, [(k, v)])"
| "btree_insert k v ((k', v') # m) =
     (if k < k' then (None, (k, v) # (k', v') # m)
      else if k = k' then (Some v', (k, v) # m)
      else (let (old, m') = btree_insert k v m in (old, (k', v') # m')))"

definition btree_pop_first :: "('k, 'v) btree \<Rightarrow> ('k \<times> 'v) option \<times> ('k, 'v) btree" where
  "btree_pop_first m = (case m of [] \<Rightarrow> (None, []) | e # m' \<Rightarrow> (Some e, m'))"

fun btree_remove :: "'k::linorder \<Rightarrow> ('k, 'v) btree \<Rightarrow> 'v option \<times> ('k, 'v) btree" where
  "btree_remove k [] = (None, [])"
| "btree_remove k ((k', v') # m) =
     (if k = k' then (Some v', m)
      else (let (old, m') = btree_remove k m in (old, (k', v') # m')))"

definition btree_into_values :: "('k, 'v) btree \<Rightarrow> 'v list" where
  "btree_into_values m = map snd m"

lemma btree_inv_Nil [simp]: "btree_inv []"
  by (simp add: btree_inv_def)

lemma btree_inv_Cons [simp]:
  "btree_inv ((k, v) # m) \<longleftrightarrow> (\<forall>k' \<in> fst ` set m. k < k') \<and> btree_inv m"
  by (auto simp: btree_inv_def)

lemma btree_inv_distinct: "btree_inv m \<Longrightarrow> distinct (map fst m)"
  by (simp add: btree_inv_def strict_sorted_iff)

text \<open>A key above every present key goes to the end and replaces nothing.\<close>

lemma btree_insert_last [btree_simps]:
  "(\<And>k'. k' \<in> fst ` set m \<Longrightarrow> k' < k) \<Longrightarrow> btree_insert k v m = (None, m @ [(k, v)])"
proof (induction m)
  case Nil
  then show ?case by simp
next
  case (Cons e m)
  obtain k' v' where e: "e = (k', v')" by (cases e)
  have "k' < k" using Cons.prems [of k'] by (simp add: e)
  moreover have "btree_insert k v m = (None, m @ [(k, v)])"
    using Cons.prems by (intro Cons.IH) simp
  ultimately show ?case by (auto simp: e)
qed

lemma btree_inv_snoc:
  "btree_inv m \<Longrightarrow> (\<And>k'. k' \<in> fst ` set m \<Longrightarrow> k' < k) \<Longrightarrow> btree_inv (m @ [(k, v)])"
  by (auto simp: btree_inv_def sorted_wrt_append)

lemma btree_remove_eq [btree_simps]:
  "btree_inv m \<Longrightarrow> btree_remove k m = (map_of m k, filter (\<lambda>e. fst e \<noteq> k) m)"
proof (induction m)
  case Nil
  then show ?case by simp
next
  case (Cons e m)
  obtain k' v' where e: "e = (k', v')" by (cases e)
  have "filter (\<lambda>e. fst e \<noteq> k') m = m"
    using Cons.prems by (fastforce simp: e filter_id_conv)
  with Cons e show ?case by auto
qed

lemma btree_inv_filter: "btree_inv m \<Longrightarrow> btree_inv (filter p m)"
  by (induction m) auto

lemma btree_inv_tl: "btree_inv (e # m) \<Longrightarrow> btree_inv m"
  by (cases e) simp

end
