(* ===== verification/Waiter_Registry.thy ===== *)
theory Waiter_Registry
  imports Lock_Prelude "HOL-Library.Sublist"
begin

text \<open>
  The FIFO registry of active waiters (\<^verbatim>\<open>src/monitor/internal/waiter_registry.rs\<close>). The record
  has the two fields of the struct; the four operations are translated statement by statement,
  with the identifier counter kept at 64 bits. The theory then states what a notification queue
  promises as a locale, discharges it for the registry, and relates every run of registry
  operations to an abstract queue of numbered waiters.
\<close>

section \<open>The registry\<close>

record 'w WaiterRegistry =
  next_waiter_id :: u64
  waiters :: "(u64, 'w) btree"

definition WaiterRegistry_new :: "'w WaiterRegistry" where
  "WaiterRegistry_new = \<lparr>next_waiter_id = 1, waiters = []\<rparr>"

declare WaiterRegistry_new_def [code_unfold]

text \<open>
  \<^verbatim>\<open>register\<close>: the counter is advanced first, so exhaustion panics before the map is touched;
  the uniqueness assertion runs after the insertion.
\<close>

definition registry_register :: "'w \<Rightarrow> 'w WaiterRegistry \<Rightarrow> u64 outcome \<times> 'w WaiterRegistry" where
  "registry_register waiter r =
     (let waiter_id = next_waiter_id r in
      case checked_add waiter_id 1 of
        None \<Rightarrow> (Panic ''monitor waiter identifiers exhausted'', r)
      | Some n \<Rightarrow>
          (let (previous, m) = btree_insert waiter_id waiter (waiters r);
               r' = r\<lparr>next_waiter_id := n, waiters := m\<rparr>
           in if previous = None then (Return waiter_id, r')
              else (Panic ''monitor waiter identifier must be unique'', r')))"

definition registry_take_one :: "'w WaiterRegistry \<Rightarrow> 'w option \<times> 'w WaiterRegistry" where
  "registry_take_one r =
     (let (first, m) = btree_pop_first (waiters r)
      in (map_option snd first, r\<lparr>waiters := m\<rparr>))"

definition registry_take_all :: "'w WaiterRegistry \<Rightarrow> 'w list \<times> 'w WaiterRegistry" where
  "registry_take_all r = (btree_into_values (waiters r), r\<lparr>waiters := []\<rparr>)"

definition registry_unregister ::
  "u64 \<Rightarrow> 'w WaiterRegistry \<Rightarrow> 'w option \<times> 'w WaiterRegistry"
where
  "registry_unregister waiter_id r =
     (let (removed, m) = btree_remove waiter_id (waiters r)
      in (removed, r\<lparr>waiters := m\<rparr>))"

text \<open>
  The invariant of the struct's documentation: the entries are ordered by identifier, every
  identifier is nonzero and below the next one.
\<close>

definition registry_inv :: "'w WaiterRegistry \<Rightarrow> bool" where
  "registry_inv r \<longleftrightarrow>
     btree_inv (waiters r) \<and> 0 < next_waiter_id r \<and>
     (\<forall>i \<in> fst ` set (waiters r). 0 < i \<and> i < next_waiter_id r)"

lemma registry_inv_new [simp]: "registry_inv WaiterRegistry_new"
  by (simp add: registry_inv_def WaiterRegistry_new_def)

lemma waiters_new [simp]: "waiters WaiterRegistry_new = []"
  by (simp add: WaiterRegistry_new_def)

section \<open>Each operation on the queue of entries\<close>

lemma registry_register_exhausted [simp]:
  "next_waiter_id r = u64_max \<Longrightarrow>
   registry_register w r = (Panic ''monitor waiter identifiers exhausted'', r)"
  using checked_add_1_None_iff [of u64_max] by (simp add: registry_register_def)

lemma registry_register_fresh:
  assumes "registry_inv r" and "next_waiter_id r \<noteq> u64_max"
  shows "registry_register w r =
    (Return (next_waiter_id r),
     r\<lparr>next_waiter_id := next_waiter_id r + 1,
       waiters := waiters r @ [(next_waiter_id r, w)]\<rparr>)"
proof -
  have "checked_add (next_waiter_id r) 1 = Some (next_waiter_id r + 1)"
    using assms(2) by (simp add: checked_add_1_Some_iff)
  moreover have
    "btree_insert (next_waiter_id r) w (waiters r) = (None, waiters r @ [(next_waiter_id r, w)])"
    using assms(1) by (intro btree_insert_last) (auto simp: registry_inv_def)
  ultimately show ?thesis by (simp add: registry_register_def Let_def)
qed

lemma registry_register_inv:
  assumes "registry_inv r"
  shows "registry_inv (snd (registry_register w r))"
proof (cases "next_waiter_id r = u64_max")
  case True
  with assms show ?thesis by simp
next
  case False
  then have less: "next_waiter_id r < next_waiter_id r + 1" by (rule succ_u64_greater)
  have "btree_inv (waiters r @ [(next_waiter_id r, w)])"
    using assms by (intro btree_inv_snoc) (auto simp: registry_inv_def)
  with assms False less show ?thesis
    by (auto simp: registry_register_fresh registry_inv_def intro: less_trans)
qed

lemma registry_take_one_eq:
  "registry_take_one r =
     (case waiters r of [] \<Rightarrow> (None, r\<lparr>waiters := []\<rparr>)
      | (i, w) # m \<Rightarrow> (Some w, r\<lparr>waiters := m\<rparr>))"
  by (auto simp: registry_take_one_def btree_pop_first_def split: list.splits)

lemma registry_take_one_inv: "registry_inv r \<Longrightarrow> registry_inv (snd (registry_take_one r))"
  by (auto simp: registry_take_one_eq registry_inv_def split: list.splits)

lemma registry_take_all_inv: "registry_inv r \<Longrightarrow> registry_inv (snd (registry_take_all r))"
  by (simp add: registry_take_all_def registry_inv_def)

lemma registry_unregister_eq:
  "registry_inv r \<Longrightarrow>
   registry_unregister i r =
     (map_of (waiters r) i, r\<lparr>waiters := filter (\<lambda>e. fst e \<noteq> i) (waiters r)\<rparr>)"
  by (simp add: registry_unregister_def btree_remove_eq registry_inv_def)

lemma registry_unregister_inv:
  "registry_inv r \<Longrightarrow> registry_inv (snd (registry_unregister i r))"
  by (auto simp: registry_unregister_eq) (auto simp: registry_inv_def btree_inv_filter)

lemmas registry_invs [intro] =
  registry_register_inv registry_take_one_inv registry_take_all_inv registry_unregister_inv

section \<open>The notification queue as an interface\<close>

text \<open>
  What a monitor relies on when it registers, selects and cancels waiters: a first-in first-out
  queue of identified entries. The laws describe one operation each; the lemmas of the locale are
  the consequences the monitors use.
\<close>

locale waiter_queue =
  fixes register :: "'w \<Rightarrow> 's \<Rightarrow> u64 outcome \<times> 's"
    and take_one :: "'s \<Rightarrow> 'w option \<times> 's"
    and take_all :: "'s \<Rightarrow> 'w list \<times> 's"
    and unregister :: "u64 \<Rightarrow> 's \<Rightarrow> 'w option \<times> 's"
    and queue :: "'s \<Rightarrow> (u64 \<times> 'w) list"
    and invar :: "'s \<Rightarrow> bool"
  assumes ids_ordered: "invar s \<Longrightarrow> sorted_wrt (<) (map fst (queue s))"
    and register_Return: "invar s \<Longrightarrow> register w s = (Return i, t) \<Longrightarrow>
      queue t = queue s @ [(i, w)] \<and> invar t"
    and register_Panic: "invar s \<Longrightarrow> register w s = (Panic m, t) \<Longrightarrow> t = s"
    and register_not_Blocked: "register w s \<noteq> (Blocked, t)"
    and take_one_queue: "invar s \<Longrightarrow> take_one s = (x, t) \<Longrightarrow>
      x = map_option snd (case queue s of [] \<Rightarrow> None | e # _ \<Rightarrow> Some e) \<and>
      queue t = tl (queue s) \<and> invar t"
    and take_all_queue: "invar s \<Longrightarrow> take_all s = (xs, t) \<Longrightarrow>
      xs = map snd (queue s) \<and> queue t = [] \<and> invar t"
    and unregister_queue: "invar s \<Longrightarrow> unregister i s = (x, t) \<Longrightarrow>
      x = map_of (queue s) i \<and> queue t = filter (\<lambda>e. fst e \<noteq> i) (queue s) \<and> invar t"
begin

lemma ids_distinct: "invar s \<Longrightarrow> distinct (map fst (queue s))"
  using ids_ordered by (simp add: strict_sorted_iff)

lemma register_id_fresh:
  assumes "invar s" and "register w s = (Return i, t)"
  shows "i \<notin> fst ` set (queue s)" and "\<And>j. j \<in> fst ` set (queue s) \<Longrightarrow> j < i"
proof -
  have "sorted_wrt (<) (map fst (queue s) @ [i])"
    using register_Return [OF assms] ids_ordered [of t] by simp
  then show "\<And>j. j \<in> fst ` set (queue s) \<Longrightarrow> j < i"
    by (auto simp: sorted_wrt_append)
  then show "i \<notin> fst ` set (queue s)" by blast
qed

text \<open>The selected waiter is the one with the least identifier among the active ones.\<close>

lemma take_one_oldest:
  assumes "invar s" and "take_one s = (Some w, t)"
  shows "\<exists>i. queue s = (i, w) # queue t \<and> (\<forall>j \<in> fst ` set (queue t). i < j)"
proof -
  obtain e q where q: "queue s = e # q" "snd e = w" "queue t = q"
    using take_one_queue [OF assms] by (auto split: list.splits)
  moreover have "\<forall>j \<in> fst ` set q. fst e < j"
    using ids_ordered [OF assms(1)] q by auto
  ultimately show ?thesis by (metis prod.collapse)
qed

lemma take_one_empty: "invar s \<Longrightarrow> take_one s = (None, t) \<Longrightarrow> queue s = [] \<and> queue t = []"
  using take_one_queue [of s None t] by (auto split: list.splits)

text \<open>Cancelling removes the entry, keeps the order of the others and cannot be undone.\<close>

lemma unregister_removes:
  "invar s \<Longrightarrow> unregister i s = (x, t) \<Longrightarrow> i \<notin> fst ` set (queue t) \<and> subseq (queue t) (queue s)"
  using unregister_queue [of s i x t] by auto

lemma unregister_selected:
  assumes "invar s" and "take_one s = (Some w, t)" and "queue s = (i, w) # q"
  shows "fst (unregister i t) = None"
proof -
  have t: "queue t = q" "invar t" using take_one_queue [OF assms(1,2)] assms(3) by auto
  have "i \<notin> fst ` set q" using ids_distinct [OF assms(1)] assms(3) by simp
  then show ?thesis
    using unregister_queue [OF t(2), of i "fst (unregister i t)" "snd (unregister i t)"] t(1)
    by (simp add: map_of_eq_None_iff)
qed

end

interpretation wr: waiter_queue
  registry_register registry_take_one registry_take_all registry_unregister waiters registry_inv
proof (unfold_locales, goal_cases)
  case (1 s)
  then show ?case by (simp add: registry_inv_def btree_inv_def)
next
  case (2 s w i t)
  have "next_waiter_id s \<noteq> u64_max" using 2 by auto
  with 2 show ?case
    using registry_register_inv [OF 2(1), of w] by (auto simp: registry_register_fresh)
next
  case (3 s w m t)
  then show ?case
    by (cases "next_waiter_id s = u64_max") (auto simp: registry_register_fresh)
next
  case (4 w s t)
  then show ?case
    by (auto simp: registry_register_def Let_def split: option.splits prod.splits if_splits)
next
  case (5 s x t)
  then show ?case using registry_take_one_inv [OF 5(1)]
    by (auto simp: registry_take_one_eq split: list.splits)
next
  case (6 s xs t)
  then show ?case using registry_take_all_inv [OF 6(1)]
    by (auto simp: registry_take_all_def btree_into_values_def)
next
  case (7 s i x t)
  then show ?case using registry_unregister_inv [OF 7(1), of i]
    by (auto simp: registry_unregister_eq)
qed

section \<open>Runs of registry operations\<close>

text \<open>
  A monitor drives its registry by an arbitrary sequence of calls. A run collects what the calls
  returned; \<open>selected\<close> lists the waiters notifications chose and \<open>registered\<close> the waiters that
  entered the registry, both in order.
\<close>

datatype 'w registry_op = Register 'w | TakeOne | TakeAll | Unregister u64

datatype ('i, 'w) registry_out =
  Registered "'i outcome" 'w | Taken "'w list" | Unregistered "'w option"

definition registry_step ::
  "'w registry_op \<Rightarrow> 'w WaiterRegistry \<Rightarrow> (u64, 'w) registry_out \<times> 'w WaiterRegistry"
where
  "registry_step op r = (case op of
       Register w \<Rightarrow> apfst (\<lambda>i. Registered i w) (registry_register w r)
     | TakeOne \<Rightarrow>
         apfst (\<lambda>x. Taken (case x of None \<Rightarrow> [] | Some w \<Rightarrow> [w])) (registry_take_one r)
     | TakeAll \<Rightarrow> apfst Taken (registry_take_all r)
     | Unregister i \<Rightarrow> apfst Unregistered (registry_unregister i r))"

fun registry_run ::
  "'w registry_op list \<Rightarrow> 'w WaiterRegistry \<Rightarrow> (u64, 'w) registry_out list \<times> 'w WaiterRegistry"
where
  "registry_run [] r = ([], r)"
| "registry_run (op # ops) r =
     (let (out, r') = registry_step op r; (outs, r'') = registry_run ops r'
      in (out # outs, r''))"

definition selected :: "('i, 'w) registry_out list \<Rightarrow> 'w list" where
  "selected outs = concat (map (\<lambda>out. case out of Taken ws \<Rightarrow> ws | _ \<Rightarrow> []) outs)"

definition registered :: "('i, 'w) registry_out list \<Rightarrow> 'w list" where
  "registered outs =
     concat (map (\<lambda>out. case out of Registered (Return i) w \<Rightarrow> [w] | _ \<Rightarrow> []) outs)"

definition issued_ids :: "('i, 'w) registry_out list \<Rightarrow> 'i list" where
  "issued_ids outs =
     concat (map (\<lambda>out. case out of Registered (Return i) w \<Rightarrow> [i] | _ \<Rightarrow> []) outs)"

lemma run_parts [simp]:
  "selected [] = []" "registered [] = []" "issued_ids [] = []"
  "selected (out # outs) = (case out of Taken ws \<Rightarrow> ws | _ \<Rightarrow> []) @ selected outs"
  "registered (out # outs) =
     (case out of Registered (Return i) w \<Rightarrow> [w] | _ \<Rightarrow> []) @ registered outs"
  "issued_ids (out # outs) =
     (case out of Registered (Return i) w \<Rightarrow> [i] | _ \<Rightarrow> []) @ issued_ids outs"
  by (simp_all add: selected_def registered_def issued_ids_def)

lemma registry_step_inv: "registry_inv r \<Longrightarrow> registry_inv (snd (registry_step op r))"
  by (cases op) (auto simp: registry_step_def)

text \<open>
  One step: what it selects followed by what stays in the queue is a subsequence of the old queue
  followed by what it registers.
\<close>

lemma registry_step_fifo:
  assumes "registry_inv r" and "registry_step op r = (out, r')"
  shows "subseq (selected [out] @ map snd (waiters r')) (map snd (waiters r) @ registered [out])"
proof (cases op)
  case (Register w)
  then show ?thesis using assms
    by (cases "next_waiter_id r = u64_max")
      (auto simp: registry_step_def registry_register_fresh)
next
  case TakeOne
  then show ?thesis using assms
    by (auto simp: registry_step_def registry_take_one_eq split: list.splits)
next
  case TakeAll
  then show ?thesis using assms
    by (auto simp: registry_step_def registry_take_all_def btree_into_values_def)
next
  case (Unregister i)
  then show ?thesis using assms
    by (auto simp: registry_step_def registry_unregister_eq intro!: subseq_map)
qed

lemma registry_run_fifo:
  "registry_inv r \<Longrightarrow> registry_run ops r = (outs, r') \<Longrightarrow>
   subseq (selected outs @ map snd (waiters r')) (map snd (waiters r) @ registered outs)"
proof (induction ops arbitrary: r outs)
  case Nil
  then show ?case by simp
next
  case (Cons op ops)
  obtain out r1 where step: "registry_step op r = (out, r1)" by fastforce
  obtain outs' where run: "registry_run ops r1 = (outs', r')" and outs: "outs = out # outs'"
    using Cons.prems(2) step by (auto split: prod.splits)
  have "registry_inv r1" using registry_step_inv [OF Cons.prems(1), of op] step by simp
  from Cons.IH [OF this run]
  have "subseq (selected [out] @ selected outs' @ map snd (waiters r'))
          (selected [out] @ map snd (waiters r1) @ registered outs')"
    by (rule list_emb_append_mono [rotated]) simp
  also have "subseq \<dots> ((map snd (waiters r) @ registered [out]) @ registered outs')"
    using list_emb_append_mono [OF registry_step_fifo [OF Cons.prems(1) step]
        subseq_order.order_refl [of "registered outs'"]] by simp
  finally show ?case by (simp add: outs)
qed

text \<open>Every identifier issued in a run is at least the counter at its start; they ascend.\<close>

lemma registry_step_next:
  assumes "registry_inv r" and "registry_step op r = (out, r')"
  shows "next_waiter_id r \<le> next_waiter_id r'"
    and "\<And>i. i \<in> set (issued_ids [out]) \<Longrightarrow> i = next_waiter_id r \<and> i < next_waiter_id r'"
    and "length (issued_ids [out]) \<le> 1"
proof -
  have "next_waiter_id r \<le> next_waiter_id r' \<and>
        (\<forall>i. i \<in> set (issued_ids [out]) \<longrightarrow> i = next_waiter_id r \<and> i < next_waiter_id r') \<and>
        length (issued_ids [out]) \<le> 1"
  proof (cases op)
    case (Register w)
    then show ?thesis
      using assms succ_u64_greater [of "next_waiter_id r"]
      by (cases "next_waiter_id r = u64_max")
        (auto simp: registry_step_def registry_register_fresh)
  qed (use assms in \<open>auto simp: registry_step_def registry_take_one_eq registry_take_all_def
        registry_unregister_eq split: list.splits\<close>)
  then show "next_waiter_id r \<le> next_waiter_id r'"
    and "\<And>i. i \<in> set (issued_ids [out]) \<Longrightarrow> i = next_waiter_id r \<and> i < next_waiter_id r'"
    and "length (issued_ids [out]) \<le> 1" by auto
qed

lemma registry_run_ids:
  "registry_inv r \<Longrightarrow> registry_run ops r = (outs, r') \<Longrightarrow>
   sorted_wrt (<) (issued_ids outs) \<and> (\<forall>i \<in> set (issued_ids outs). next_waiter_id r \<le> i)"
proof (induction ops arbitrary: r outs)
  case Nil
  then show ?case by simp
next
  case (Cons op ops)
  obtain out r1 where step: "registry_step op r = (out, r1)" by fastforce
  obtain outs' where run: "registry_run ops r1 = (outs', r')" and outs: "outs = out # outs'"
    using Cons.prems(2) step by (auto split: prod.splits)
  have inv: "registry_inv r1" using registry_step_inv [OF Cons.prems(1), of op] step by simp
  note IH = Cons.IH [OF inv run]
  note nxt = registry_step_next [OF Cons.prems(1) step]
  have cons: "issued_ids outs = issued_ids [out] @ issued_ids outs'" by (simp add: outs)
  have "sorted_wrt (<) (issued_ids [out])"
    using nxt(3) by (cases "issued_ids [out]") auto
  then show ?case
    unfolding cons sorted_wrt_append using IH nxt(1,2) by (fastforce intro: less_le_trans)
qed

section \<open>Refinement of an abstract notification queue\<close>

text \<open>
  The promise of the registry without its representation: waiters carry the numbers 1, 2, 3, \<dots>
  in the order they arrived; selection takes them from the front, cancellation removes one by
  number. The only trace of the 64-bit counter is that the number \<open>2 ^ 64 - 1\<close> is never issued.
\<close>

record 'w fifo =
  next_number :: nat
  entries :: "(nat \<times> 'w) list"

definition fifo_new :: "'w fifo" where
  "fifo_new = \<lparr>next_number = 1, entries = []\<rparr>"

definition fifo_step :: "'w registry_op \<Rightarrow> 'w fifo \<Rightarrow> (nat, 'w) registry_out \<times> 'w fifo" where
  "fifo_step op q = (case op of
       Register w \<Rightarrow>
         (if next_number q = 2 ^ 64 - 1
          then (Registered (Panic ''monitor waiter identifiers exhausted'') w, q)
          else (Registered (Return (next_number q)) w,
                q\<lparr>next_number := next_number q + 1, entries := entries q @ [(next_number q, w)]\<rparr>))
     | TakeOne \<Rightarrow>
         (Taken (map snd (take 1 (entries q))), q\<lparr>entries := drop 1 (entries q)\<rparr>)
     | TakeAll \<Rightarrow> (Taken (map snd (entries q)), q\<lparr>entries := []\<rparr>)
     | Unregister i \<Rightarrow>
         (Unregistered (map_of (entries q) (unat i)),
          q\<lparr>entries := filter (\<lambda>e. fst e \<noteq> unat i) (entries q)\<rparr>))"

fun fifo_run :: "'w registry_op list \<Rightarrow> 'w fifo \<Rightarrow> (nat, 'w) registry_out list \<times> 'w fifo" where
  "fifo_run [] q = ([], q)"
| "fifo_run (op # ops) q =
     (let (out, q') = fifo_step op q; (outs, q'') = fifo_run ops q' in (out # outs, q''))"

definition fifo_of :: "'w WaiterRegistry \<Rightarrow> 'w fifo" where
  "fifo_of r = \<lparr>next_number = unat (next_waiter_id r), entries = map (apfst unat) (waiters r)\<rparr>"

fun out_of :: "(u64, 'w) registry_out \<Rightarrow> (nat, 'w) registry_out" where
  "out_of (Registered r w) = Registered (map_outcome unat r) w"
| "out_of (Taken ws) = Taken ws"
| "out_of (Unregistered x) = Unregistered x"

lemma unat_u64_max: "unat a = 2 ^ 64 - 1 \<longleftrightarrow> a = u64_max" for a :: u64
  by (simp add: word_unat_eq_iff unsigned_minus_1_eq_mask mask_eq_exp_minus_1)

lemma map_of_apfst_unat:
  "map_of (map (apfst unat) m) (unat i) = map_of m i" for i :: u64
  by (induction m) (auto simp: word_unat_eq_iff)

lemma registry_step_refines:
  assumes "registry_inv r" and "registry_step op r = (out, r')"
  shows "fifo_step op (fifo_of r) = (out_of out, fifo_of r')"
proof (cases op)
  case (Register w)
  show ?thesis
  proof (cases "next_waiter_id r = u64_max")
    case True
    then show ?thesis
      using assms Register unat_u64_max [of "next_waiter_id r"]
      by (auto simp: registry_step_def fifo_step_def fifo_of_def)
  next
    case False
    then have "unat (next_waiter_id r + 1) = unat (next_waiter_id r) + 1"
      using checked_add_SomeD [of "next_waiter_id r" 1] by (simp add: checked_add_1_Some_iff)
    then show ?thesis
      using assms Register False unat_u64_max [of "next_waiter_id r"]
      by (auto simp: registry_step_def registry_register_fresh fifo_step_def fifo_of_def)
  qed
next
  case TakeOne
  then show ?thesis using assms
    by (auto simp: registry_step_def registry_take_one_eq fifo_step_def fifo_of_def
        split: list.splits)
next
  case TakeAll
  then show ?thesis using assms
    by (auto simp: registry_step_def registry_take_all_def btree_into_values_def fifo_step_def
        fifo_of_def)
next
  case (Unregister i)
  then show ?thesis using assms
    by (auto simp: registry_step_def registry_unregister_eq fifo_step_def fifo_of_def
        map_of_apfst_unat filter_map comp_def word_unat_eq_iff)
qed

lemma registry_run_refines:
  "registry_inv r \<Longrightarrow> registry_run ops r = (outs, r') \<Longrightarrow>
   fifo_run ops (fifo_of r) = (map out_of outs, fifo_of r')"
proof (induction ops arbitrary: r outs)
  case Nil
  then show ?case by simp
next
  case (Cons op ops)
  obtain out r1 where step: "registry_step op r = (out, r1)" by fastforce
  obtain outs' where run: "registry_run ops r1 = (outs', r')" and outs: "outs = out # outs'"
    using Cons.prems(2) step by (auto split: prod.splits)
  have inv: "registry_inv r1" using registry_step_inv [OF Cons.prems(1), of op] step by simp
  show ?case
    using registry_step_refines [OF Cons.prems(1) step] Cons.IH [OF inv run]
    by (simp add: outs)
qed

lemma fifo_of_new: "fifo_of WaiterRegistry_new = fifo_new"
  by (simp add: fifo_of_def fifo_new_def WaiterRegistry_new_def)

section \<open>Properties\<close>

text \<open>C15: every sequence of registry operations, exhaustion of the identifiers included, returns
  exactly what the abstract FIFO queue of numbered waiters returns.\<close>

theorem registry_refines_fifo:
  "map out_of (fst (registry_run ops WaiterRegistry_new)) = fst (fifo_run ops fifo_new)"
proof -
  obtain outs r where run: "registry_run ops WaiterRegistry_new = (outs, r)" by fastforce
  have "fifo_run ops fifo_new = (map out_of outs, fifo_of r)"
    using registry_run_refines [OF registry_inv_new run] by (simp add: fifo_of_new)
  then show ?thesis by (simp add: run)
qed

text \<open>In every run the waiters that notifications select, in selection order, form a
  subsequence of the registered waiters in registration order. So selection is first-in first-out
  and no registration is selected twice, whatever is cancelled in between.\<close>

theorem registry_selects_in_order:
  "subseq (selected (fst (registry_run ops WaiterRegistry_new)))
          (registered (fst (registry_run ops WaiterRegistry_new)))"
proof -
  obtain outs r where run: "registry_run ops WaiterRegistry_new = (outs, r)" by fastforce
  have "subseq (selected outs @ map snd (waiters r)) (registered outs)"
    using registry_run_fifo [OF registry_inv_new run] by simp
  then have "subseq (selected outs) (registered outs)"
    by (rule subseq_order.order_trans [rotated]) (simp add: prefix_imp_subseq)
  then show ?thesis by (simp add: run)
qed

text \<open>C24: the identifiers that the successful registrations of a run return are strictly increasing
  and nonzero: none is ever reused.\<close>

theorem registry_ids_never_reused:
  "sorted_wrt (<) (issued_ids (fst (registry_run ops WaiterRegistry_new))) \<and>
   0 \<notin> set (issued_ids (fst (registry_run ops WaiterRegistry_new)))"
proof -
  obtain outs r where run: "registry_run ops WaiterRegistry_new = (outs, r)" by fastforce
  have "sorted_wrt (<) (issued_ids outs) \<and> (\<forall>i \<in> set (issued_ids outs). 1 \<le> i)"
    using registry_run_ids [OF registry_inv_new run] by (simp add: WaiterRegistry_new_def)
  then show ?thesis by (auto simp: run)
qed

text \<open>C25: a registration that is cancelled leaves no trace but its identifier. Unregistering the
  identifier that \<^verbatim>\<open>register\<close> issued gives the waiter back and restores the registry, with the
  counter advanced; unregistering it again finds nothing and changes nothing.\<close>

theorem registry_register_unregister:
  assumes "registry_inv r" and "registry_register w r = (Return i, s)"
  shows "registry_unregister i s = (Some w, r\<lparr>next_waiter_id := next_waiter_id s\<rparr>) \<and>
    registry_unregister i (r\<lparr>next_waiter_id := next_waiter_id s\<rparr>) =
      (None, r\<lparr>next_waiter_id := next_waiter_id s\<rparr>)"
proof -
  have nmax: "next_waiter_id r \<noteq> u64_max" using assms(2) by auto
  note fresh = registry_register_fresh [OF assms(1) nmax, of w]
  have i: "i = next_waiter_id r" and s: "s = r\<lparr>next_waiter_id := next_waiter_id r + 1,
      waiters := waiters r @ [(i, w)]\<rparr>" using fresh assms(2) by auto
  have inv: "registry_inv s" using registry_register_inv [OF assms(1), of w] assms(2) by simp
  have new: "i \<notin> fst ` set (waiters r)" using assms(1) i by (auto simp: registry_inv_def)
  then have keep: "filter (\<lambda>e. fst e \<noteq> i) (waiters r) = waiters r" by (force simp: filter_id_conv)
  have "registry_inv (snd (registry_unregister i s))" by (rule registry_unregister_inv [OF inv])
  moreover have "registry_unregister i s = (Some w, r\<lparr>next_waiter_id := next_waiter_id s\<rparr>)"
    unfolding registry_unregister_eq [OF inv]
    using new keep by (simp add: s map_add_def map_of_eq_None_iff [THEN iffD2])
  ultimately show ?thesis
    using new keep by (simp add: registry_unregister_eq map_of_eq_None_iff)
qed

theorem registry_register_unregister_witness:
  "registry_register 9 \<lparr>next_waiter_id = 3, waiters = [(2, 7 :: nat)]\<rparr> =
     (Return 3, \<lparr>next_waiter_id = 4, waiters = [(2, 7), (3, 9)]\<rparr>) \<and>
   registry_unregister 3 \<lparr>next_waiter_id = 4, waiters = [(2, 7), (3, 9)]\<rparr> =
     (Some 9, \<lparr>next_waiter_id = 4, waiters = [(2, 7 :: nat)]\<rparr>)"
proof -
  let ?r = "\<lparr>next_waiter_id = 3, waiters = [(2, 7 :: nat)]\<rparr>"
  have inv: "registry_inv ?r" by (simp add: registry_inv_def btree_inv_def)
  have reg: "registry_register 9 ?r = (Return 3, \<lparr>next_waiter_id = 4, waiters = [(2, 7), (3, 9)]\<rparr>)"
    by (simp add: registry_register_fresh [OF inv])
  show ?thesis using registry_register_unregister [OF inv reg] reg by simp
qed

end
