(* ===== verification/Std_Sync.thy ===== *)
theory Std_Sync
  imports Lock_Prelude
begin

text \<open>
  The standard-library primitives the crate is built on: \<^verbatim>\<open>std::sync::Mutex\<close> and
  \<^verbatim>\<open>RwLock\<close> with their poison marker, \<^verbatim>\<open>Condvar\<close>, \<^verbatim>\<open>Duration\<close> and \<^verbatim>\<open>Poll\<close>, and the
  three helpers of \<^verbatim>\<open>src/monitor/internal/sync.rs\<close> over them. A mutex value records whether
  some guard exists; acquiring it when one exists is not a value of these functions but a blocking
  point of the caller.
\<close>

section \<open>Mutex\<close>

datatype guard = Guard

record 't mutex =
  mx_data :: 't
  mx_poisoned :: bool
  mx_locked :: bool

text \<open>\<^verbatim>\<open>LockResult<G>\<close>: the poison error carries the acquired guard.\<close>

datatype 'g lock_result = Ok 'g | Poisoned_guard 'g

datatype 'g try_lock_result = Try_ok 'g | Try_would_block | Try_poisoned 'g

definition mutex_new :: "'t \<Rightarrow> 't mutex" where
  "mutex_new t = \<lparr>mx_data = t, mx_poisoned = False, mx_locked = False\<rparr>"

definition mutex_lock :: "'t mutex \<Rightarrow> guard lock_result \<times> 't mutex" where
  "mutex_lock m =
     (if mx_poisoned m then Poisoned_guard Guard else Ok Guard, m\<lparr>mx_locked := True\<rparr>)"

definition mutex_try_lock :: "'t mutex \<Rightarrow> guard try_lock_result \<times> 't mutex" where
  "mutex_try_lock m =
     (if mx_locked m then (Try_would_block, m)
      else (if mx_poisoned m then Try_poisoned Guard else Try_ok Guard, m\<lparr>mx_locked := True\<rparr>))"

text \<open>Dropping the guard unlocks; a panic that started while the guard was alive poisons.\<close>

definition mutex_guard_drop :: "bool \<Rightarrow> 't mutex \<Rightarrow> 't mutex" where
  "mutex_guard_drop panicking m =
     m\<lparr>mx_locked := False, mx_poisoned := (mx_poisoned m \<or> panicking)\<rparr>"

section \<open>The helpers of sync.rs\<close>

definition recover :: "'g lock_result \<Rightarrow> 'g" where
  "recover result = (case result of Ok g \<Rightarrow> g | Poisoned_guard g \<Rightarrow> g)"

definition is_poisoned :: "'t mutex \<Rightarrow> bool" where
  "is_poisoned m = mx_poisoned m"

definition clear_poison :: "'t mutex \<Rightarrow> 't mutex" where
  "clear_poison m = m\<lparr>mx_poisoned := False\<rparr>"

text \<open>
  The idiom \<^verbatim>\<open>recover(m.lock()).f(\<dots>)\<close>: lock, recover a poisoned guard, run \<open>f\<close> on the data,
  drop the guard at the end of the statement. Such a section of the crate never blocks inside, so
  it is one step.
\<close>

definition recovered_section ::
  "('t \<Rightarrow> 'a outcome \<times> 't) \<Rightarrow> 't mutex \<Rightarrow> 'a outcome \<times> 't mutex"
where
  "recovered_section f m =
     (let (result, m1) = mutex_lock m; g = recover result; (r, t) = f (mx_data m1)
      in (r, mutex_guard_drop (is_panic r) (m1\<lparr>mx_data := t\<rparr>)))"

text \<open>The same idiom around a method that cannot panic.\<close>

definition recovered_call :: "('t \<Rightarrow> 'a \<times> 't) \<Rightarrow> 't mutex \<Rightarrow> 'a \<times> 't mutex" where
  "recovered_call f m =
     (let (result, m1) = mutex_lock m; g = recover result; (a, t) = f (mx_data m1)
      in (a, mutex_guard_drop False (m1\<lparr>mx_data := t\<rparr>)))"

lemma recover_mutex_lock [simp]: "recover (fst (mutex_lock m)) = Guard"
  by (simp add: recover_def split: lock_result.splits) (metis guard.exhaust)

lemma recovered_section_eq:
  "recovered_section f m =
     (fst (f (mx_data m)),
      m\<lparr>mx_data := snd (f (mx_data m)), mx_locked := False,
        mx_poisoned := (mx_poisoned m \<or> is_panic (fst (f (mx_data m))))\<rparr>)"
  by (simp add: recovered_section_def mutex_lock_def mutex_guard_drop_def split: prod.splits)

lemma recovered_call_eq:
  "recovered_call f m =
     (fst (f (mx_data m)), m\<lparr>mx_data := snd (f (mx_data m)), mx_locked := False\<rparr>)"
  by (simp add: recovered_call_def mutex_lock_def mutex_guard_drop_def split: prod.splits)

section \<open>RwLock\<close>

record 't rwlock =
  rw_data :: 't
  rw_poisoned :: bool
  rw_readers :: nat
  rw_writer :: bool

definition rwlock_new :: "'t \<Rightarrow> 't rwlock" where
  "rwlock_new t = \<lparr>rw_data = t, rw_poisoned = False, rw_readers = 0, rw_writer = False\<rparr>"

definition rwlock_read_free :: "'t rwlock \<Rightarrow> bool" where
  "rwlock_read_free l \<longleftrightarrow> \<not> rw_writer l"

definition rwlock_write_free :: "'t rwlock \<Rightarrow> bool" where
  "rwlock_write_free l \<longleftrightarrow> \<not> rw_writer l \<and> rw_readers l = 0"

definition rwlock_read :: "'t rwlock \<Rightarrow> guard lock_result \<times> 't rwlock" where
  "rwlock_read l =
     (if rw_poisoned l then Poisoned_guard Guard else Ok Guard, l\<lparr>rw_readers := rw_readers l + 1\<rparr>)"

definition rwlock_write :: "'t rwlock \<Rightarrow> guard lock_result \<times> 't rwlock" where
  "rwlock_write l =
     (if rw_poisoned l then Poisoned_guard Guard else Ok Guard, l\<lparr>rw_writer := True\<rparr>)"

definition rwlock_try_read :: "'t rwlock \<Rightarrow> guard try_lock_result \<times> 't rwlock" where
  "rwlock_try_read l =
     (if \<not> rwlock_read_free l then (Try_would_block, l)
      else (if rw_poisoned l then Try_poisoned Guard else Try_ok Guard,
            l\<lparr>rw_readers := rw_readers l + 1\<rparr>))"

definition rwlock_try_write :: "'t rwlock \<Rightarrow> guard try_lock_result \<times> 't rwlock" where
  "rwlock_try_write l =
     (if \<not> rwlock_write_free l then (Try_would_block, l)
      else (if rw_poisoned l then Try_poisoned Guard else Try_ok Guard, l\<lparr>rw_writer := True\<rparr>))"

text \<open>Only a write guard poisons.\<close>

definition rwlock_read_drop :: "'t rwlock \<Rightarrow> 't rwlock" where
  "rwlock_read_drop l = l\<lparr>rw_readers := rw_readers l - 1\<rparr>"

definition rwlock_write_drop :: "bool \<Rightarrow> 't rwlock \<Rightarrow> 't rwlock" where
  "rwlock_write_drop panicking l =
     l\<lparr>rw_writer := False, rw_poisoned := (rw_poisoned l \<or> panicking)\<rparr>"

section \<open>Condvar, Poll, Duration\<close>

text \<open>
  A condition variable with at most one waiting thread, which is how the crate uses it: whether
  that thread is parked and whether it has been unparked since.
\<close>

record condvar =
  cv_parked :: bool
  cv_woken :: bool

definition condvar_new :: condvar where
  "condvar_new = \<lparr>cv_parked = False, cv_woken = False\<rparr>"

definition condvar_park :: "condvar \<Rightarrow> condvar" where
  "condvar_park c = c\<lparr>cv_parked := True, cv_woken := False\<rparr>"

definition condvar_notify_one :: "condvar \<Rightarrow> condvar" where
  "condvar_notify_one c = c\<lparr>cv_woken := (cv_woken c \<or> cv_parked c)\<rparr>"

definition condvar_resume :: "condvar \<Rightarrow> condvar" where
  "condvar_resume c = c\<lparr>cv_parked := False, cv_woken := False\<rparr>"

datatype 'a poll = Poll_ready 'a | Poll_pending

record duration =
  secs :: u64
  nanos :: u32

definition duration_is_zero :: "duration \<Rightarrow> bool" where
  "duration_is_zero d \<longleftrightarrow> secs d = 0 \<and> nanos d = 0"

end
