(* ===== verification/Blocking_Waiter.thy ===== *)
theory Blocking_Waiter
  imports Std_Sync
begin

text \<open>
  One latched waiter (\<^verbatim>\<open>src/monitor/internal/blocking_condition_waiter.rs\<close> and
  \<^verbatim>\<open>blocking_condition_waiter_state.rs\<close>): a flag behind a private mutex and a condition
  variable. Its \<^verbatim>\<open>wait\<close> loop blocks, so it lives with the other blocking code in
  \<^verbatim>\<open>Monitor_World\<close>; here are its constructor, the latch and the two \<^verbatim>\<open>Wake\<close> methods.
\<close>

record BlockingConditionWaiterState =
  signalled :: bool

record BlockingConditionWaiter =
  bcw_state :: "BlockingConditionWaiterState mutex"
  bcw_changed :: condvar

definition BlockingConditionWaiter_new :: BlockingConditionWaiter where
  "BlockingConditionWaiter_new =
     \<lparr>bcw_state = mutex_new \<lparr>signalled = False\<rparr>, bcw_changed = condvar_new\<rparr>"

text \<open>\<^verbatim>\<open>signal\<close>: both writes happen while the private mutex is held.\<close>

definition waiter_signal :: "BlockingConditionWaiter \<Rightarrow> BlockingConditionWaiter" where
  "waiter_signal c =
     (let (_, m) = recovered_section (\<lambda>s. (Return (), s\<lparr>signalled := True\<rparr>)) (bcw_state c)
      in c\<lparr>bcw_state := m, bcw_changed := condvar_notify_one (bcw_changed c)\<rparr>)"

definition waiter_wake :: "BlockingConditionWaiter \<Rightarrow> BlockingConditionWaiter" where
  "waiter_wake c = waiter_signal c"

definition waiter_wake_by_ref :: "BlockingConditionWaiter \<Rightarrow> BlockingConditionWaiter" where
  "waiter_wake_by_ref c = waiter_signal c"

text \<open>The latch as the loop condition of \<^verbatim>\<open>wait\<close> reads it.\<close>

definition is_signalled :: "BlockingConditionWaiter \<Rightarrow> bool" where
  "is_signalled c = signalled (mx_data (bcw_state c))"

text \<open>The two halves of \<^verbatim>\<open>changed.wait(state)\<close>: park, and return after an unpark.\<close>

definition waiter_park :: "BlockingConditionWaiter \<Rightarrow> BlockingConditionWaiter" where
  "waiter_park c = c\<lparr>bcw_changed := condvar_park (bcw_changed c)\<rparr>"

definition waiter_resume :: "BlockingConditionWaiter \<Rightarrow> BlockingConditionWaiter" where
  "waiter_resume c = c\<lparr>bcw_changed := condvar_resume (bcw_changed c)\<rparr>"

definition waiter_woken :: "BlockingConditionWaiter \<Rightarrow> bool" where
  "waiter_woken c = cv_woken (bcw_changed c)"

definition waiter_parked :: "BlockingConditionWaiter \<Rightarrow> bool" where
  "waiter_parked c = cv_parked (bcw_changed c)"

lemmas waiter_defs =
  waiter_signal_def waiter_wake_def waiter_wake_by_ref_def is_signalled_def waiter_park_def
  waiter_resume_def waiter_woken_def waiter_parked_def recovered_section_eq condvar_park_def
  condvar_resume_def condvar_notify_one_def

lemma waiter_new_simps [simp]:
  "is_signalled BlockingConditionWaiter_new = False"
  "waiter_parked BlockingConditionWaiter_new = False"
  "waiter_woken BlockingConditionWaiter_new = False"
  by (simp_all add: BlockingConditionWaiter_new_def mutex_new_def condvar_new_def waiter_defs)

lemma waiter_latch_simps [simp]:
  "is_signalled (waiter_signal c) = True"
  "is_signalled (waiter_park c) = is_signalled c"
  "is_signalled (waiter_resume c) = is_signalled c"
  by (simp_all add: waiter_defs Let_def)

text \<open>A signal is never lost on a parked thread: the latch and the unpark come together.\<close>

lemma waiter_wake_simps [simp]:
  "waiter_woken (waiter_signal c) = (waiter_woken c \<or> waiter_parked c)"
  "waiter_parked (waiter_signal c) = waiter_parked c"
  "waiter_parked (waiter_park c) = True"
  "waiter_woken (waiter_park c) = False"
  "waiter_parked (waiter_resume c) = False"
  "waiter_woken (waiter_resume c) = False"
  by (simp_all add: waiter_defs Let_def)

end
