(* ===== verification/Monitor_World.thy ===== *)
theory Monitor_World
  imports Waiter_Registry Blocking_Waiter
begin

text \<open>
  What one thread of a blocking monitor can see and do.

  A \<open>world\<close> is the shared state of one monitor (the state mutex, the waiter registry, the waiter
  allocations behind their \<^verbatim>\<open>Arc\<close> pointers, the Timer's clock) together with the guard slot of
  the calling thread and a schedule: for every point where the calling thread can be interrupted,
  the steps the other threads make there. The other threads use the same registry, the same
  waiters and the same Timer through the same operations. A call of the crate is a function of the world; where it
  blocks it consumes the schedule until it can go on, and it is \<open>Blocked\<close> when the schedule ends
  first. Theorems that hold for all worlds hold for all interleavings.

  The backend mutex of the monitor and the \<^verbatim>\<open>qubit_clock\<close> Timer are parameters, bundled in a
  \<open>platform\<close>; the standard-library backend is instantiated in \<^verbatim>\<open>Std_Monitor\<close>.
\<close>

section \<open>Platform\<close>

text \<open>
  The operations on the state mutex \<^verbatim>\<open>M\<close> protecting data \<^verbatim>\<open>T\<close> and on its guard: whether an
  acquisition succeeds now, the acquisition, the guard's destructor (told whether the thread is
  panicking), the two dereferences and the poison reset; and the message of the guard-slot
  invariant.
\<close>

record ('m, 't) backend =
  bk_free :: "'m \<Rightarrow> bool"
  bk_lock :: "'m \<Rightarrow> guard \<times> 'm"
  bk_drop :: "bool \<Rightarrow> 'm \<Rightarrow> 'm"
  bk_deref :: "'m \<Rightarrow> 't"
  bk_deref_mut :: "'t \<Rightarrow> 'm \<Rightarrow> 'm"
  bk_clear_poison :: "'m \<Rightarrow> 'm"
  bk_slot_message :: string

text \<open>
  The Timer of \<^verbatim>\<open>qubit_clock\<close>: a clock state, instants, futures and errors of unknown types.
  A poll is given a Waker; \<open>tm_tick\<close> is the Timer's own progress and lists the waiters whose
  Wakers it invokes.
\<close>

datatype waker = Waker_noop | Waker_of nat

record ('k, 'i, 'f, 'e) timer_ops =
  tm_now :: "'k \<Rightarrow> 'i"
  tm_checked_add :: "'i \<Rightarrow> duration \<Rightarrow> 'e + 'i"
  tm_deadline_after :: "duration \<Rightarrow> 'k \<Rightarrow> 'e + 'i"
  tm_at :: "'i \<Rightarrow> 'k \<Rightarrow> ('e + 'f) \<times> 'k"
  tm_after :: "duration \<Rightarrow> 'k \<Rightarrow> ('e + 'f) \<times> 'k"
  tm_poll :: "waker \<Rightarrow> 'f \<Rightarrow> 'k \<Rightarrow> ('e + unit) poll \<times> 'f \<times> 'k"
  tm_tick :: "'k \<Rightarrow> 'k \<times> nat list"

record ('m, 't, 'k, 'i, 'f, 'e) platform =
  bk :: "('m, 't) backend"
  tm :: "('k, 'i, 'f, 'e) timer_ops"

section \<open>World\<close>

text \<open>
  One step of another thread. A notification of another thread is two steps, as in the code: the
  selection under the registry lock, then the wake of each selected waiter.
\<close>

datatype ('t, 'k) env_action =
    EnvLock
  | EnvWrite "'t \<Rightarrow> 't"
  | EnvUnlock bool
  | EnvClearPoison
  | EnvRegister
  | EnvUnregister u64
  | EnvTakeOne
  | EnvTakeAll
  | EnvWake nat
  | EnvSpurious nat
  | EnvTick
  | EnvTimer "'k \<Rightarrow> 'k"

text \<open>
  \<open>inner\<close> is the guard slot of the calling thread's monitor guard; \<open>in_flight\<close> the waiters other
  threads have taken from the registry and not yet woken; \<open>env_holds\<close> whether another thread
  holds the state mutex; \<open>env_regs\<close> the registrations other threads own.
\<close>

record ('m, 't, 'k) world =
  mon_state :: 'm
  mon_waiters :: "nat WaiterRegistry mutex"
  arena :: "BlockingConditionWaiter list"
  inner :: "guard option"
  in_flight :: "nat list"
  env_holds :: bool
  env_regs :: "u64 list"
  clock :: 'k
  sched :: "('t, 'k) env_action list list"

type_synonym ('m, 't, 'k, 'a) call = "('m, 't, 'k) world \<Rightarrow> 'a outcome \<times> ('m, 't, 'k) world"

section \<open>The blocking waiter registry\<close>

text \<open>
  \<^verbatim>\<open>src/monitor/internal/blocking_waiter_registry.rs\<close> and
  \<^verbatim>\<open>blocking_waiter_registration.rs\<close>: the steps on the shared state, without interference.
\<close>

record BlockingWaiterRegistration =
  waiter_id :: u64
  waiter :: nat

definition BlockingWaiterRegistry_new :: "nat WaiterRegistry mutex" where
  "BlockingWaiterRegistry_new = mutex_new WaiterRegistry_new"

definition BlockingWaiterRegistration_new :: "u64 \<Rightarrow> nat \<Rightarrow> BlockingWaiterRegistration" where
  [simp]: "BlockingWaiterRegistration_new i a = \<lparr>waiter_id = i, waiter = a\<rparr>"

definition bwr_register :: "('m, 't, 'k, BlockingWaiterRegistration) call" where
  "bwr_register w =
     (let a = length (arena w);
          w1 = w\<lparr>arena := arena w @ [BlockingConditionWaiter_new]\<rparr>;
          (r, m) = recovered_section (registry_register a) (mon_waiters w1)
      in (map_outcome (\<lambda>i. BlockingWaiterRegistration_new i a) r, w1\<lparr>mon_waiters := m\<rparr>))"

definition bwr_take_one :: "('m, 't, 'k) world \<Rightarrow> nat option \<times> ('m, 't, 'k) world" where
  "bwr_take_one w =
     (let (x, m) = recovered_call registry_take_one (mon_waiters w)
      in (x, w\<lparr>mon_waiters := m\<rparr>))"

definition bwr_take_all :: "('m, 't, 'k) world \<Rightarrow> nat list \<times> ('m, 't, 'k) world" where
  "bwr_take_all w =
     (let (xs, m) = recovered_call registry_take_all (mon_waiters w)
      in (xs, w\<lparr>mon_waiters := m\<rparr>))"

definition bwr_unregister :: "u64 \<Rightarrow> ('m, 't, 'k) world \<Rightarrow> ('m, 't, 'k) world" where
  "bwr_unregister i w =
     (let (x, m) = recovered_call (registry_unregister i) (mon_waiters w)
      in w\<lparr>mon_waiters := m\<rparr>)"

definition wake_cell :: "nat \<Rightarrow> BlockingConditionWaiter list \<Rightarrow> BlockingConditionWaiter list" where
  "wake_cell a cells = cells[a := waiter_wake (cells ! a)]"

definition wake_waiter :: "nat \<Rightarrow> ('m, 't, 'k) world \<Rightarrow> ('m, 't, 'k) world" where
  "wake_waiter a w = w\<lparr>arena := wake_cell a (arena w)\<rparr>"

definition wake_waiters :: "nat list \<Rightarrow> ('m, 't, 'k) world \<Rightarrow> ('m, 't, 'k) world" where
  "wake_waiters as w = fold wake_waiter as w"

lemma wake_waiters_eq: "wake_waiters as w = w\<lparr>arena := fold wake_cell as (arena w)\<rparr>"
  unfolding wake_waiters_def by (induction as arbitrary: w) (simp_all add: wake_waiter_def)

section \<open>Other threads\<close>

text \<open>What a call of another thread into the Timer may do to the Timer's state.\<close>

definition timer_call :: "('k, 'i, 'f, 'e) timer_ops \<Rightarrow> ('k \<Rightarrow> 'k) \<Rightarrow> bool" where
  "timer_call T g \<longleftrightarrow>
     (\<exists>i. g = (\<lambda>k. snd (tm_at T i k))) \<or> (\<exists>d. g = (\<lambda>k. snd (tm_after T d k))) \<or>
     (\<exists>wk f. g = (\<lambda>k. snd (snd (tm_poll T wk f k))))"

declare timer_call_def [code del]

text \<open>A step that is not possible for another thread in this world changes nothing.\<close>

fun env_step ::
  "('m, 't, 'k, 'i, 'f, 'e) platform \<Rightarrow> ('t, 'k) env_action \<Rightarrow> ('m, 't, 'k) world \<Rightarrow> ('m, 't, 'k) world"
where
  "env_step P EnvLock w =
     (if bk_free (bk P) (mon_state w)
      then w\<lparr>mon_state := snd (bk_lock (bk P) (mon_state w)), env_holds := True\<rparr> else w)"
| "env_step P (EnvWrite g) w =
     (if env_holds w
      then w\<lparr>mon_state := bk_deref_mut (bk P) (g (bk_deref (bk P) (mon_state w))) (mon_state w)\<rparr>
      else w)"
| "env_step P (EnvUnlock panicking) w =
     (if env_holds w
      then w\<lparr>mon_state := bk_drop (bk P) panicking (mon_state w), env_holds := False\<rparr> else w)"
| "env_step P EnvClearPoison w = w\<lparr>mon_state := bk_clear_poison (bk P) (mon_state w)\<rparr>"
| "env_step P EnvRegister w =
     (case bwr_register w of
        (Return g, w') \<Rightarrow> w'\<lparr>env_regs := waiter_id g # env_regs w'\<rparr>
      | (_, w') \<Rightarrow> w')"
| "env_step P (EnvUnregister i) w =
     (if i \<in> set (env_regs w)
      then (bwr_unregister i w)\<lparr>env_regs := removeAll i (env_regs w)\<rparr> else w)"
| "env_step P EnvTakeOne w =
     (case bwr_take_one w of
        (Some a, w') \<Rightarrow> w'\<lparr>in_flight := in_flight w' @ [a]\<rparr>
      | (None, w') \<Rightarrow> w')"
| "env_step P EnvTakeAll w =
     (let (as, w') = bwr_take_all w in w'\<lparr>in_flight := in_flight w' @ as\<rparr>)"
| "env_step P (EnvWake a) w =
     (if a \<in> set (in_flight w)
      then (wake_waiter a w)\<lparr>in_flight := remove1 a (in_flight w)\<rparr> else w)"
| "env_step P (EnvSpurious a) w =
     w\<lparr>arena := (arena w)[a := (arena w ! a)\<lparr>bcw_changed :=
        condvar_notify_one (bcw_changed (arena w ! a))\<rparr>]\<rparr>"
| "env_step P EnvTick w =
     (let (k, as) = tm_tick (tm P) (clock w) in wake_waiters as (w\<lparr>clock := k\<rparr>))"
| "env_step P (EnvTimer g) w = (if timer_call (tm P) g then w\<lparr>clock := g (clock w)\<rparr> else w)"

definition env_run ::
  "('m, 't, 'k, 'i, 'f, 'e) platform \<Rightarrow> ('t, 'k) env_action list \<Rightarrow>
   ('m, 't, 'k) world \<Rightarrow> ('m, 't, 'k) world"
where
  "env_run P as w = fold (env_step P) as w"

text \<open>One interruption: the other threads make the next scheduled steps.\<close>

definition interfere ::
  "('m, 't, 'k, 'i, 'f, 'e) platform \<Rightarrow> ('m, 't, 'k) world \<Rightarrow> ('m, 't, 'k) world"
where
  "interfere P w = (case sched w of [] \<Rightarrow> w | as # rest \<Rightarrow> env_run P as (w\<lparr>sched := rest\<rparr>))"

lemma env_step_sched [simp]: "sched (env_step P a w) = sched w"
  by (cases a)
    (auto simp: bwr_register_def bwr_take_one_def bwr_take_all_def bwr_unregister_def
      wake_waiter_def wake_waiters_eq Let_def split: outcome.splits option.splits prod.splits)

lemma env_run_sched [simp]: "sched (env_run P as w) = sched w"
  unfolding env_run_def by (induction as arbitrary: w) simp_all

text \<open>
  A blocking point: the other threads run until the condition holds; the flag is false when the
  schedule ends before that.
\<close>

function block_until ::
  "('m, 't, 'k, 'i, 'f, 'e) platform \<Rightarrow> (('m, 't, 'k) world \<Rightarrow> bool) \<Rightarrow>
   ('m, 't, 'k) world \<Rightarrow> bool \<times> ('m, 't, 'k) world"
where
  "block_until P ready w =
     (if ready w then (True, w)
      else case sched w of
             [] \<Rightarrow> (False, w)
           | as # rest \<Rightarrow> block_until P ready (env_run P as (w\<lparr>sched := rest\<rparr>)))"
  by pat_completeness auto
termination
  by (relation "measure (\<lambda>(P, ready, w). length (sched w))") auto

declare block_until.simps [simp del]

lemma block_until_sched: "block_until P ready w = (ok, w') \<Longrightarrow> length (sched w') \<le> length (sched w)"
proof (induction P ready w rule: block_until.induct)
  case (1 P ready w)
  show ?case
  proof (cases "ready w \<or> sched w = []")
    case True
    then show ?thesis using "1.prems"
      by (auto simp: block_until.simps [of P ready w] split: if_splits)
  next
    case False
    then obtain as rest where s: "sched w = as # rest" by (cases "sched w") auto
    have "length (sched w') \<le> length rest"
      using "1.IH" [OF _ s] False "1.prems" s by (simp add: block_until.simps [of P ready w])
    then show ?thesis by (simp add: s)
  qed
qed

lemma interfere_sched: "length (sched (interfere P w)) \<le> length (sched w)"
  by (auto simp: interfere_def split: list.splits)

text \<open>
  \<^verbatim>\<open>BlockingConditionWaiter::wait\<close>. Each turn of the loop parks the thread under the private
  mutex; the thread goes on after another step of the environment unparks it, by a signal or
  spuriously, and tests the latch again.
\<close>

function waiter_wait_loop ::
  "('m, 't, 'k, 'i, 'f, 'e) platform \<Rightarrow> nat \<Rightarrow> ('m, 't, 'k, unit) call"
where
  "waiter_wait_loop P a w =
     (if is_signalled (arena w ! a) then (Return (), w)
      else let w1 = w\<lparr>arena := (arena w)[a := waiter_park (arena w ! a)]\<rparr> in
           case sched w1 of
             [] \<Rightarrow> (Blocked, w1)
           | as # rest \<Rightarrow>
               (case block_until P (\<lambda>v. waiter_woken (arena v ! a))
                       (env_run P as (w1\<lparr>sched := rest\<rparr>)) of
                  (False, w2) \<Rightarrow> (Blocked, w2)
                | (True, w2) \<Rightarrow>
                    waiter_wait_loop P a
                      (w2\<lparr>arena := (arena w2)[a := waiter_resume (arena w2 ! a)]\<rparr>)))"
  by pat_completeness auto
termination
  by (relation "measure (\<lambda>(P, a, w). length (sched w))")
    (auto dest!: sym [of _ "block_until _ _ _"] block_until_sched)

declare waiter_wait_loop.simps [simp del]

definition waiter_wait ::
  "('m, 't, 'k, 'i, 'f, 'e) platform \<Rightarrow> nat \<Rightarrow> ('m, 't, 'k, unit) call"
where
  "waiter_wait P a w = waiter_wait_loop P a (interfere P w)"

section \<open>Steps of the calling thread\<close>

definition lock_state ::
  "('m, 't, 'k, 'i, 'f, 'e) platform \<Rightarrow> ('m, 't, 'k, guard) call"
where
  "lock_state P w =
     (let (ok, w1) = block_until P (\<lambda>v. bk_free (bk P) (mon_state v)) (interfere P w)
      in if ok then (let (g, m) = bk_lock (bk P) (mon_state w1)
                     in (Return g, w1\<lparr>mon_state := m\<rparr>))
         else (Blocked, w1))"

text \<open>The destructor of the monitor guard: an empty slot has nothing to release.\<close>

definition drop_guard ::
  "('m, 't, 'k, 'i, 'f, 'e) platform \<Rightarrow> bool \<Rightarrow> ('m, 't, 'k) world \<Rightarrow> ('m, 't, 'k) world"
where
  "drop_guard P panicking w = (case inner w of
       None \<Rightarrow> w
     | Some _ \<Rightarrow>
         (let w1 = interfere P w
          in w1\<lparr>mon_state := bk_drop (bk P) panicking (mon_state w1), inner := None\<rparr>))"

text \<open>The end of a frame that owns the monitor guard: returning and unwinding both drop it.\<close>

definition end_scope ::
  "('m, 't, 'k, 'i, 'f, 'e) platform \<Rightarrow> 'a outcome \<times> ('m, 't, 'k) world \<Rightarrow>
   'a outcome \<times> ('m, 't, 'k) world"
where
  "end_scope P p = (case p of
       (Return x, w) \<Rightarrow> (Return x, drop_guard P False w)
     | (Panic m, w) \<Rightarrow> (Panic m, drop_guard P True w)
     | (Blocked, w) \<Rightarrow> (Blocked, w))"

text \<open>
  The caller's closures. A predicate is \<^verbatim>\<open>FnMut(&T) -> bool\<close>: it may keep state between calls,
  panic, or never return. An action is \<^verbatim>\<open>FnOnce(&mut T) -> R\<close>: what it wrote stays written when
  it panics.
\<close>

type_synonym ('p, 't) predicate = "'p \<Rightarrow> 't \<Rightarrow> bool outcome \<times> 'p"
type_synonym ('t, 'r) action = "'t \<Rightarrow> 'r outcome \<times> 't"

text \<open>\<^verbatim>\<open>|state| !ready(state)\<close>\<close>

definition not_pred :: "('p, 't) predicate \<Rightarrow> ('p, 't) predicate" where
  "not_pred ready = (\<lambda>p d. apfst (map_outcome Not) (ready p d))"

text \<open>\<^verbatim>\<open>|_| ()\<close>\<close>

definition no_action :: "('t, unit) action" where
  "no_action = (\<lambda>d. (Return (), d))"

definition guard_deref ::
  "('m, 't, 'k, 'i, 'f, 'e) platform \<Rightarrow> ('m, 't, 'k) world \<Rightarrow> 't outcome"
where
  "guard_deref P w = (case inner w of
       None \<Rightarrow> Panic (bk_slot_message (bk P))
     | Some _ \<Rightarrow> Return (bk_deref (bk P) (mon_state w)))"

definition eval_predicate ::
  "('m, 't, 'k, 'i, 'f, 'e) platform \<Rightarrow> ('p, 't) predicate \<Rightarrow> 'p \<Rightarrow> ('m, 't, 'k) world \<Rightarrow>
   bool outcome \<times> 'p"
where
  "eval_predicate P waiting p w = (case guard_deref P w of
       Return d \<Rightarrow> waiting p d
     | Panic m \<Rightarrow> (Panic m, p)
     | Blocked \<Rightarrow> (Blocked, p))"

definition run_action ::
  "('m, 't, 'k, 'i, 'f, 'e) platform \<Rightarrow> ('t, 'r) action \<Rightarrow> ('m, 't, 'k, 'r) call"
where
  "run_action P f w = (case guard_deref P w of
       Return d \<Rightarrow>
         (let (r, d') = f d in (r, w\<lparr>mon_state := bk_deref_mut (bk P) d' (mon_state w)\<rparr>))
     | Panic m \<Rightarrow> (Panic m, w)
     | Blocked \<Rightarrow> (Blocked, w))"

text \<open>Registering, cancelling and notifying, as interruptible steps.\<close>

definition register_waiter ::
  "('m, 't, 'k, 'i, 'f, 'e) platform \<Rightarrow> ('m, 't, 'k, BlockingWaiterRegistration) call"
where
  "register_waiter P w = bwr_register (interfere P w)"

definition registration_drop ::
  "('m, 't, 'k, 'i, 'f, 'e) platform \<Rightarrow> BlockingWaiterRegistration \<Rightarrow>
   ('m, 't, 'k) world \<Rightarrow> ('m, 't, 'k) world"
where
  "registration_drop P g w = bwr_unregister (waiter_id g) (interfere P w)"

definition bwr_notify_one ::
  "('m, 't, 'k, 'i, 'f, 'e) platform \<Rightarrow> ('m, 't, 'k, unit) call"
where
  "bwr_notify_one P w =
     (let (x, w1) = bwr_take_one (interfere P w)
      in case x of
           None \<Rightarrow> (Return (), w1)
         | Some a \<Rightarrow> (Return (), wake_waiter a (interfere P w1)))"

fun wake_each ::
  "('m, 't, 'k, 'i, 'f, 'e) platform \<Rightarrow> nat list \<Rightarrow> ('m, 't, 'k) world \<Rightarrow> ('m, 't, 'k) world"
where
  "wake_each P [] w = w"
| "wake_each P (a # as) w = wake_each P as (wake_waiter a (interfere P w))"

definition bwr_notify_all ::
  "('m, 't, 'k, 'i, 'f, 'e) platform \<Rightarrow> ('m, 't, 'k, unit) call"
where
  "bwr_notify_all P w =
     (let (as, w1) = bwr_take_all (interfere P w) in (Return (), wake_each P as w1))"

text \<open>Calls into the Timer.\<close>

definition timer_now ::
  "('m, 't, 'k, 'i, 'f, 'e) platform \<Rightarrow> ('m, 't, 'k) world \<Rightarrow> 'i \<times> ('m, 't, 'k) world"
where
  "timer_now P w = (let w1 = interfere P w in (tm_now (tm P) (clock w1), w1))"

definition timer_deadline_after ::
  "('m, 't, 'k, 'i, 'f, 'e) platform \<Rightarrow> duration \<Rightarrow> ('m, 't, 'k) world \<Rightarrow>
   ('e + 'i) \<times> ('m, 't, 'k) world"
where
  "timer_deadline_after P d w =
     (let w1 = interfere P w in (tm_deadline_after (tm P) d (clock w1), w1))"

definition timer_at ::
  "('m, 't, 'k, 'i, 'f, 'e) platform \<Rightarrow> 'i \<Rightarrow> ('m, 't, 'k) world \<Rightarrow>
   ('e + 'f) \<times> ('m, 't, 'k) world"
where
  "timer_at P i w =
     (let w1 = interfere P w; (r, k) = tm_at (tm P) i (clock w1) in (r, w1\<lparr>clock := k\<rparr>))"

definition timer_after ::
  "('m, 't, 'k, 'i, 'f, 'e) platform \<Rightarrow> duration \<Rightarrow> ('m, 't, 'k) world \<Rightarrow>
   ('e + 'f) \<times> ('m, 't, 'k) world"
where
  "timer_after P d w =
     (let w1 = interfere P w; (r, k) = tm_after (tm P) d (clock w1) in (r, w1\<lparr>clock := k\<rparr>))"

definition poll_future ::
  "('m, 't, 'k, 'i, 'f, 'e) platform \<Rightarrow> waker \<Rightarrow> 'f \<Rightarrow> ('m, 't, 'k) world \<Rightarrow>
   ('e + unit) poll \<times> 'f \<times> ('m, 't, 'k) world"
where
  "poll_future P wk future w =
     (let w1 = interfere P w; (r, future', k) = tm_poll (tm P) wk future (clock w1)
      in (r, future', w1\<lparr>clock := k\<rparr>))"

definition poll_timer_without_waiter ::
  "('m, 't, 'k, 'i, 'f, 'e) platform \<Rightarrow> 'f \<Rightarrow> ('m, 't, 'k) world \<Rightarrow>
   ('e + unit) poll \<times> 'f \<times> ('m, 't, 'k) world"
where
  "poll_timer_without_waiter P future w = poll_future P Waker_noop future w"

definition poll_timer ::
  "('m, 't, 'k, 'i, 'f, 'e) platform \<Rightarrow> nat \<Rightarrow> 'f \<Rightarrow> ('m, 't, 'k) world \<Rightarrow>
   ('e + unit) poll \<times> 'f \<times> ('m, 't, 'k) world"
where
  "poll_timer P a future w = poll_future P (Waker_of a) future w"

end
