(* ===== verification/Wait_Results.thy ===== *)
theory Wait_Results
  imports Std_Sync
begin

text \<open>
  The results of timed waits: \<^verbatim>\<open>src/monitor/wait_timeout_status.rs\<close> and
  \<^verbatim>\<open>src/monitor/wait_timeout_result.rs\<close>.
\<close>

datatype WaitTimeoutStatus = Woken | StatusTimedOut

fun status_is_woken :: "WaitTimeoutStatus \<Rightarrow> bool" where
  "status_is_woken Woken = True"
| "status_is_woken StatusTimedOut = False"

fun status_is_timed_out :: "WaitTimeoutStatus \<Rightarrow> bool" where
  "status_is_timed_out Woken = False"
| "status_is_timed_out StatusTimedOut = True"

datatype 'r WaitTimeoutResult = Ready 'r | TimedOut

fun result_is_ready :: "'r WaitTimeoutResult \<Rightarrow> bool" where
  "result_is_ready (Ready _) = True"
| "result_is_ready TimedOut = False"

fun result_is_timed_out :: "'r WaitTimeoutResult \<Rightarrow> bool" where
  "result_is_timed_out (Ready _) = False"
| "result_is_timed_out TimedOut = True"

fun result_into_option :: "'r WaitTimeoutResult \<Rightarrow> 'r option" where
  "result_into_option (Ready value) = Some value"
| "result_into_option TimedOut = None"

fun result_map :: "('r \<Rightarrow> 'u) \<Rightarrow> 'r WaitTimeoutResult \<Rightarrow> 'u WaitTimeoutResult" where
  "result_map f (Ready value) = Ready (f value)"
| "result_map f TimedOut = TimedOut"

lemma status_exclusive: "status_is_timed_out s \<longleftrightarrow> \<not> status_is_woken s"
  by (cases s) simp_all

lemma result_map_option: "result_into_option (result_map f r) = map_option f (result_into_option r)"
  by (cases r) simp_all

lemma result_views:
  "result_is_ready r \<longleftrightarrow> result_into_option r \<noteq> None"
  "result_is_timed_out r \<longleftrightarrow> \<not> result_is_ready r"
  by (cases r; simp)+

end
