(* ===== verification/Blocking_Wait.thy ===== *)
theory Blocking_Wait
  imports Monitor_World Wait_Results
begin

text \<open>
  The backend-neutral wait algorithms: one suspension of a held guard
  (\<^verbatim>\<open>src/monitor/internal/blocking_monitor_guard_wait.rs\<close>) and the predicate loops around it
  (\<^verbatim>\<open>src/monitor/internal/blocking_condition_wait.rs\<close>). The Rust functions are generic in the
  guard, in the operation that reacquires it and in the operation that suspends it; so are the
  definitions. The loops are \<^verbatim>\<open>loop\<close>s without a bound, hence partial functions whose value
  \<open>None\<close> would be a loop that neither returns nor blocks.
\<close>

section \<open>One suspension of a monitor guard\<close>

definition release_guard ::
  "('m, 't, 'k, 'i, 'f, 'e) platform \<Rightarrow> string \<Rightarrow> ('m, 't, 'k, unit) call"
where
  "release_guard P missing_guard_message w = (case inner w of
       None \<Rightarrow> (Panic missing_guard_message, w)
     | Some _ \<Rightarrow> (Return (), drop_guard P False w))"

text \<open>
  \<^verbatim>\<open>*guard = Some(reacquire())\<close>, and equally \<^verbatim>\<open>StdMonitorGuard::new(self, inner)\<close>: the acquired
  guard fills the slot.
\<close>

definition acquire_guard ::
  "('m, 't, 'k, guard) call \<Rightarrow> ('m, 't, 'k, unit) call"
where
  "acquire_guard lock w = and_then (lock w) (\<lambda>g w. (Return (), w\<lparr>inner := Some g\<rparr>))"

text \<open>
  \<^verbatim>\<open>wait_for_notification\<close>: register, release, wait, cancel, reacquire. A panic of
  \<^verbatim>\<open>release_guard\<close> unwinds through the frame that owns the registration.
\<close>

definition wait_for_notification ::
  "('m, 't, 'k, 'i, 'f, 'e) platform \<Rightarrow> string \<Rightarrow> ('m, 't, 'k, guard) call \<Rightarrow>
   ('m, 't, 'k, unit) call"
where
  "wait_for_notification P missing_guard_message reacquire w =
     and_then (register_waiter P w) (\<lambda>registration w.
     and_then (on_unwind (registration_drop P registration)
                 (release_guard P missing_guard_message w)) (\<lambda>_ w.
     and_then (waiter_wait P (waiter registration) w) (\<lambda>_ w.
     acquire_guard reacquire (registration_drop P registration w))))"

text \<open>\<^verbatim>\<open>result.map(|()| WaitTimeoutStatus::TimedOut)\<close>\<close>

definition timed_out_result :: "'e + unit \<Rightarrow> 'e + WaitTimeoutStatus" where
  "timed_out_result r = (case r of Inl e \<Rightarrow> Inl e | Inr _ \<Rightarrow> Inr StatusTimedOut)"

text \<open>
  \<^verbatim>\<open>wait_with_timer\<close>: the future is returned beside the status, since the caller keeps it by
  mutable reference.
\<close>

definition wait_with_timer ::
  "('m, 't, 'k, 'i, 'f, 'e) platform \<Rightarrow> string \<Rightarrow> ('m, 't, 'k, guard) call \<Rightarrow> 'f \<Rightarrow>
   ('m, 't, 'k, ('e + WaitTimeoutStatus) \<times> 'f) call"
where
  "wait_with_timer P missing_guard_message reacquire future w =
     (case poll_timer_without_waiter P future w of
        (Poll_ready result, future, w) \<Rightarrow> (Return (timed_out_result result, future), w)
      | (Poll_pending, future, w) \<Rightarrow>
          and_then (register_waiter P w) (\<lambda>registration w.
          let a = waiter registration in
          case poll_timer P a future w of
            (Poll_ready result, future, w) \<Rightarrow>
              (Return (timed_out_result result, future), registration_drop P registration w)
          | (Poll_pending, future, w) \<Rightarrow>
              and_then (on_unwind (registration_drop P registration)
                          (release_guard P missing_guard_message w)) (\<lambda>_ w.
              and_then (waiter_wait P a w) (\<lambda>_ w.
              and_then (acquire_guard reacquire (registration_drop P registration w)) (\<lambda>_ w.
              case poll_timer P a future w of
                (Poll_ready result, future, w) \<Rightarrow> (Return (timed_out_result result, future), w)
              | (Poll_pending, future, w) \<Rightarrow> (Return (Inr Woken, future), w))))))"

section \<open>Predicate loops\<close>

text \<open>
  \<^verbatim>\<open>wait_while_locked\<close> owns the guard: whenever it returns or unwinds the guard is dropped.
\<close>

partial_function (option) wait_while_locked ::
  "('m, 't, 'k, 'i, 'f, 'e) platform \<Rightarrow> ('p, 't) predicate \<Rightarrow> 'p \<Rightarrow> ('t, 'r) action \<Rightarrow>
   ('m, 't, 'k, unit) call \<Rightarrow> ('m, 't, 'k) world \<Rightarrow>
   ('r outcome \<times> ('m, 't, 'k) world) option"
where
  "wait_while_locked P waiting p f wait w =
     (case eval_predicate P waiting p w of
        (Return blocking, p') \<Rightarrow>
          (if blocking
           then (case wait w of
                   (Return _, w') \<Rightarrow> wait_while_locked P waiting p' f wait w'
                 | (Panic m, w') \<Rightarrow> Some (end_scope P (Panic m, w'))
                 | (Blocked, w') \<Rightarrow> Some (Blocked, w'))
           else Some (end_scope P (run_action P f w)))
      | (Panic m, p') \<Rightarrow> Some (end_scope P (Panic m, w))
      | (Blocked, p') \<Rightarrow> Some (Blocked, w))"

partial_function (option) wait_while_with_timer_locked ::
  "('m, 't, 'k, 'i, 'f, 'e) platform \<Rightarrow> 'f \<Rightarrow> ('p, 't) predicate \<Rightarrow> 'p \<Rightarrow> ('t, 'r) action \<Rightarrow>
   ('f \<Rightarrow> ('m, 't, 'k, ('e + WaitTimeoutStatus) \<times> 'f) call) \<Rightarrow> ('m, 't, 'k) world \<Rightarrow>
   (('e + 'r WaitTimeoutResult) outcome \<times> ('m, 't, 'k) world) option"
where
  "wait_while_with_timer_locked P future waiting p f wait w =
     (case wait future w of
        (Panic m, w') \<Rightarrow> Some (end_scope P (Panic m, w'))
      | (Blocked, w') \<Rightarrow> Some (Blocked, w')
      | (Return (Inl e, future'), w') \<Rightarrow> Some (end_scope P (Return (Inl e), w'))
      | (Return (Inr status, future'), w') \<Rightarrow>
          (case eval_predicate P waiting p w' of
             (Return blocking, p') \<Rightarrow>
               (if \<not> blocking
                then Some (end_scope P (apfst (map_outcome (\<lambda>r. Inr (Ready r))) (run_action P f w')))
                else if status_is_timed_out status
                then Some (end_scope P (Return (Inr TimedOut), w'))
                else wait_while_with_timer_locked P future' waiting p' f wait w')
           | (Panic m, p') \<Rightarrow> Some (end_scope P (Panic m, w'))
           | (Blocked, p') \<Rightarrow> Some (Blocked, w')))"

declare wait_while_locked.simps [code] wait_while_with_timer_locked.simps [code]

text \<open>In the two entry points \<open>lock\<close> is \<^verbatim>\<open>|| self.lock()\<close>: it fills the guard slot itself.\<close>

definition wait_while_for ::
  "('m, 't, 'k, 'i, 'f, 'e) platform \<Rightarrow> duration \<Rightarrow> ('m, 't, 'k, unit) call \<Rightarrow>
   ('p, 't) predicate \<Rightarrow> 'p \<Rightarrow> ('t, 'r) action \<Rightarrow>
   ('f \<Rightarrow> ('m, 't, 'k, ('e + WaitTimeoutStatus) \<times> 'f) call) \<Rightarrow> ('m, 't, 'k) world \<Rightarrow>
   (('e + 'r WaitTimeoutResult) outcome \<times> ('m, 't, 'k) world) option"
where
  "wait_while_for P timeout lock waiting p f wait w =
     and_then_loop (lock w) (\<lambda>_ w.
          (let (started_at, w) = timer_now P w in
           case eval_predicate P waiting p w of
             (Panic m, p) \<Rightarrow> Some (end_scope P (Panic m, w))
           | (Blocked, p) \<Rightarrow> Some (Blocked, w)
           | (Return blocking, p) \<Rightarrow>
               (if \<not> blocking
                then Some (end_scope P (apfst (map_outcome (\<lambda>r. Inr (Ready r))) (run_action P f w)))
                else if duration_is_zero timeout
                then Some (end_scope P (Return (Inr TimedOut), w))
                else case tm_checked_add (tm P) started_at timeout of
                       Inl e \<Rightarrow> Some (end_scope P (Return (Inl e), w))
                     | Inr deadline \<Rightarrow>
                         (case timer_at P deadline w of
                            (Inl e, w) \<Rightarrow> Some (end_scope P (Return (Inl e), w))
                          | (Inr future, w) \<Rightarrow>
                              wait_while_with_timer_locked P future waiting p f wait w))))"

definition wait_while_with_deadline ::
  "('m, 't, 'k, 'i, 'f, 'e) platform \<Rightarrow> 'i \<Rightarrow> ('m, 't, 'k, unit) call \<Rightarrow>
   ('p, 't) predicate \<Rightarrow> 'p \<Rightarrow> ('t, 'r) action \<Rightarrow>
   ('f \<Rightarrow> ('m, 't, 'k, ('e + WaitTimeoutStatus) \<times> 'f) call) \<Rightarrow> ('m, 't, 'k) world \<Rightarrow>
   (('e + 'r WaitTimeoutResult) outcome \<times> ('m, 't, 'k) world) option"
where
  "wait_while_with_deadline P deadline lock waiting p f wait w =
     and_then_loop (lock w) (\<lambda>_ w.
          (case eval_predicate P waiting p w of
             (Panic m, p) \<Rightarrow> Some (end_scope P (Panic m, w))
           | (Blocked, p) \<Rightarrow> Some (Blocked, w)
           | (Return blocking, p) \<Rightarrow>
               (if \<not> blocking
                then Some (end_scope P (apfst (map_outcome (\<lambda>r. Inr (Ready r))) (run_action P f w)))
                else case timer_at P deadline w of
                  (Inl e, w) \<Rightarrow> Some (end_scope P (Return (Inl e), w))
                | (Inr future, w) \<Rightarrow>
                    (case poll_timer_without_waiter P future w of
                       (Poll_ready (Inl e), future, w) \<Rightarrow> Some (end_scope P (Return (Inl e), w))
                     | (Poll_ready (Inr _), future, w) \<Rightarrow>
                         Some (end_scope P (Return (Inr TimedOut), w))
                     | (Poll_pending, future, w) \<Rightarrow>
                         wait_while_with_timer_locked P future waiting p f wait w))))"

end
