(* ===== verification/Monitor_Backend.thy ===== *)
theory Monitor_Backend
  imports Blocking_Wait
begin

text \<open>
  What the wait algorithms rely on. The locale \<open>state_backend\<close> is the contract of the state mutex
  behind a monitor: acquisition excludes, the destructor releases, the data is what was last
  written. Inside it live the world invariant, the proof that no step of another thread breaks it
  or touches the data of a held monitor, and the specification of every step of the calling
  thread. The standard and the parking_lot monitors instantiate it.
\<close>

section \<open>Invariants of a world\<close>

abbreviation registry :: "('m, 't, 'k) world \<Rightarrow> nat WaiterRegistry" where
  "registry w \<equiv> mx_data (mon_waiters w)"

abbreviation active :: "('m, 't, 'k) world \<Rightarrow> (u64 \<times> nat) list" where
  "active w \<equiv> waiters (registry w)"

text \<open>
  The state mutex is free exactly when neither the calling thread nor another one holds it; the
  registry is well-formed; every waiter that is registered or in flight is allocated, and no
  waiter is in both places or twice in one.
\<close>

definition lock_inv :: "('m, 't, 'k, 'i, 'f, 'e) platform \<Rightarrow> ('m, 't, 'k) world \<Rightarrow> bool" where
  "lock_inv P w \<longleftrightarrow>
     (bk_free (bk P) (mon_state w) \<longleftrightarrow> \<not> env_holds w \<and> inner w = None) \<and>
     (env_holds w \<longrightarrow> inner w = None)"

definition queue_inv :: "('m, 't, 'k) world \<Rightarrow> bool" where
  "queue_inv w \<longleftrightarrow>
     registry_inv (registry w) \<and>
     distinct (map snd (active w) @ in_flight w) \<and>
     (\<forall>a \<in> snd ` set (active w) \<union> set (in_flight w). a < length (arena w)) \<and>
     (\<forall>i \<in> set (env_regs w). i < next_waiter_id (registry w))"

definition world_inv :: "('m, 't, 'k, 'i, 'f, 'e) platform \<Rightarrow> ('m, 't, 'k) world \<Rightarrow> bool" where
  "world_inv P w \<longleftrightarrow> lock_inv P w \<and> queue_inv w"

text \<open>The calling thread holds the monitor.\<close>

definition holds_guard :: "('m, 't, 'k) world \<Rightarrow> bool" where
  "holds_guard w \<longleftrightarrow> inner w \<noteq> None"

text \<open>Every active registration belongs to another thread, except those in \<open>own\<close>.\<close>

definition regs_within :: "u64 set \<Rightarrow> ('m, 't, 'k) world \<Rightarrow> bool" where
  "regs_within own w \<longleftrightarrow> fst ` set (active w) \<subseteq> set (env_regs w) \<union> own"

text \<open>
  The registration \<open>g\<close> of the calling thread is still to be served: its waiter is registered, or
  selected by a notification that has not woken it yet, or signalled.
\<close>

definition attended :: "BlockingWaiterRegistration \<Rightarrow> ('m, 't, 'k) world \<Rightarrow> bool" where
  "attended g w \<longleftrightarrow>
     waiter_id g < next_waiter_id (registry w) \<and> waiter_id g \<notin> set (env_regs w) \<and>
     waiter g < length (arena w) \<and>
     ((waiter_id g, waiter g) \<in> set (active w) \<or> waiter g \<in> set (in_flight w) \<or>
      is_signalled (arena w ! waiter g))"

text \<open>
  The calling thread between two calls, while it holds the monitor, and while its registration
  \<open>g\<close> is active.
\<close>

definition idle :: "('m, 't, 'k, 'i, 'f, 'e) platform \<Rightarrow> ('m, 't, 'k) world \<Rightarrow> bool" where
  "idle P w \<longleftrightarrow> world_inv P w \<and> regs_within {} w \<and> inner w = None"

definition held :: "('m, 't, 'k, 'i, 'f, 'e) platform \<Rightarrow> ('m, 't, 'k) world \<Rightarrow> bool" where
  "held P w \<longleftrightarrow> world_inv P w \<and> regs_within {} w \<and> holds_guard w"

definition enrolled ::
  "('m, 't, 'k, 'i, 'f, 'e) platform \<Rightarrow> BlockingWaiterRegistration \<Rightarrow> ('m, 't, 'k) world \<Rightarrow> bool"
where
  "enrolled P g w \<longleftrightarrow> (world_inv P w \<and> regs_within {waiter_id g} w) \<and> attended g w"

text \<open>
  The two ways a suspension can be unable to go on when no other thread moves any more: the waiter
  it is parked on is still registered or selected but not signalled, or another thread keeps the monitor locked.
\<close>

definition stuck_waiting :: "('m, 't, 'k, 'i, 'f, 'e) platform \<Rightarrow> ('m, 't, 'k) world \<Rightarrow> bool" where
  "stuck_waiting P w \<longleftrightarrow> inner w = None \<and> sched w = [] \<and>
     (\<exists>g. enrolled P g w \<and> waiter_parked (arena w ! waiter g) \<and>
        \<not> is_signalled (arena w ! waiter g))"

definition stuck_locking :: "('m, 't, 'k, 'i, 'f, 'e) platform \<Rightarrow> ('m, 't, 'k) world \<Rightarrow> bool" where
  "stuck_locking P w \<longleftrightarrow> idle P w \<and> env_holds w \<and> sched w = []"

section \<open>Waiter allocations\<close>

lemma wake_cell_simps [simp]:
  "length (wake_cell a cs) = length cs"
  "b < length cs \<Longrightarrow> is_signalled (wake_cell a cs ! b) = (is_signalled (cs ! b) \<or> a = b)"
  "b < length cs \<Longrightarrow> waiter_parked (wake_cell a cs ! b) = waiter_parked (cs ! b)"
  "b < length cs \<Longrightarrow> waiter_woken (wake_cell a cs ! b) =
     (waiter_woken (cs ! b) \<or> a = b \<and> waiter_parked (cs ! b))"
  by (cases "a = b"; simp add: wake_cell_def waiter_wake_def)+

lemma fold_wake_cell_simps [simp]:
  "length (fold wake_cell as cs) = length cs"
  "b < length cs \<Longrightarrow>
     is_signalled (fold wake_cell as cs ! b) = (is_signalled (cs ! b) \<or> b \<in> set as)"
  "b < length cs \<Longrightarrow> waiter_parked (fold wake_cell as cs ! b) = waiter_parked (cs ! b)"
  "b < length cs \<Longrightarrow> waiter_woken (fold wake_cell as cs ! b) =
     (waiter_woken (cs ! b) \<or> b \<in> set as \<and> waiter_parked (cs ! b))"
  by (induction as arbitrary: cs) auto

section \<open>Steps on the registry, as rewrite rules\<close>

lemma bwr_register_cases:
  assumes "registry_inv (registry w)"
  shows "bwr_register w =
    (if next_waiter_id (registry w) = u64_max
     then (Panic ''monitor waiter identifiers exhausted'',
           w\<lparr>arena := arena w @ [BlockingConditionWaiter_new],
             mon_waiters := (mon_waiters w)\<lparr>mx_locked := False, mx_poisoned := True\<rparr>\<rparr>)
     else (Return \<lparr>waiter_id = next_waiter_id (registry w), waiter = length (arena w)\<rparr>,
           w\<lparr>arena := arena w @ [BlockingConditionWaiter_new],
             mon_waiters := (mon_waiters w)\<lparr>mx_data := (registry w)
               \<lparr>next_waiter_id := next_waiter_id (registry w) + 1,
                waiters := active w @ [(next_waiter_id (registry w), length (arena w))]\<rparr>,
               mx_locked := False\<rparr>\<rparr>))"
  using assms
  by (auto simp: bwr_register_def recovered_section_eq registry_register_fresh Let_def)

lemma bwr_take_one_eq:
  "bwr_take_one w =
     (case active w of [] \<Rightarrow> None | e # _ \<Rightarrow> Some (snd e),
      w\<lparr>mon_waiters := (mon_waiters w)\<lparr>mx_data := (registry w)\<lparr>waiters := tl (active w)\<rparr>,
        mx_locked := False\<rparr>\<rparr>)"
  by (auto simp: bwr_take_one_def recovered_call_eq registry_take_one_eq Let_def split: list.splits)

lemma bwr_take_all_eq:
  "bwr_take_all w =
     (map snd (active w),
      w\<lparr>mon_waiters := (mon_waiters w)\<lparr>mx_data := (registry w)\<lparr>waiters := []\<rparr>,
        mx_locked := False\<rparr>\<rparr>)"
  by (simp add: bwr_take_all_def recovered_call_eq registry_take_all_def btree_into_values_def)

lemma bwr_unregister_eq:
  "registry_inv (registry w) \<Longrightarrow>
   bwr_unregister i w =
     w\<lparr>mon_waiters := (mon_waiters w)
        \<lparr>mx_data := (registry w)\<lparr>waiters := filter (\<lambda>e. fst e \<noteq> i) (active w)\<rparr>,
        mx_locked := False\<rparr>\<rparr>"
  by (simp add: bwr_unregister_def recovered_call_eq registry_unregister_eq)

lemmas bwr_eqs = bwr_register_cases bwr_take_one_eq bwr_take_all_eq bwr_unregister_eq

section \<open>Steps of other threads\<close>

lemma queue_invI:
  "registry_inv (registry w) \<Longrightarrow> distinct (map snd (active w) @ in_flight w) \<Longrightarrow>
   (\<And>a. a \<in> snd ` set (active w) \<union> set (in_flight w) \<Longrightarrow> a < length (arena w)) \<Longrightarrow>
   (\<And>i. i \<in> set (env_regs w) \<Longrightarrow> i < next_waiter_id (registry w)) \<Longrightarrow> queue_inv w"
  by (simp add: queue_inv_def)

lemma queue_invD:
  assumes "queue_inv w"
  shows "registry_inv (registry w)" and "distinct (map snd (active w) @ in_flight w)"
    and "\<And>a. a \<in> snd ` set (active w) \<union> set (in_flight w) \<Longrightarrow> a < length (arena w)"
    and "\<And>i. i \<in> set (env_regs w) \<Longrightarrow> i < next_waiter_id (registry w)"
  using assms by (simp_all add: queue_inv_def)

lemma queue_inv_register:
  assumes "queue_inv w" and "bwr_register w = (r, w')"
  shows "queue_inv w'"
proof -
  have inv: "registry_inv (registry w)" using assms(1) by (simp add: queue_inv_def)
  show ?thesis
  proof (cases "next_waiter_id (registry w) = u64_max")
    case True
    then have w': "w' = w\<lparr>arena := arena w @ [BlockingConditionWaiter_new],
        mon_waiters := (mon_waiters w)\<lparr>mx_locked := False, mx_poisoned := True\<rparr>\<rparr>"
      using assms(2) by (simp add: bwr_register_cases [OF inv])
    show ?thesis
      using queue_invD [OF assms(1)] by (intro queue_invI) (simp_all add: w' less_SucI)
  next
    case False
    have "registry_inv (snd (registry_register (length (arena w)) (registry w)))"
      using inv by (rule registry_register_inv)
    moreover have "next_waiter_id (registry w) < next_waiter_id (registry w) + 1"
      using False by (rule succ_u64_greater)
    moreover have "registry w' = snd (registry_register (length (arena w)) (registry w))"
      and "in_flight w' = in_flight w" and "env_regs w' = env_regs w"
      and "arena w' = arena w @ [BlockingConditionWaiter_new]"
      using assms(2) False
      by (auto simp: bwr_register_cases [OF inv] registry_register_fresh [OF inv])
    moreover have "i < next_waiter_id (registry w) + 1" if "i \<in> set (env_regs w)" for i
      using queue_invD(4) [OF assms(1) that] calculation(2) by (rule less_trans)
    ultimately show ?thesis
      using queue_invD [OF assms(1)] False
      by (intro queue_invI) (auto simp: registry_register_fresh [OF inv] intro: less_SucI)
  qed
qed

lemma queue_inv_take_one:
  assumes "queue_inv w"
  shows "queue_inv (env_step P EnvTakeOne w)"
proof (cases "active w")
  case Nil
  then show ?thesis using assms registry_take_one_inv [of "registry w"]
    by (auto simp: bwr_take_one_eq queue_inv_def registry_take_one_eq)
next
  case (Cons e q)
  then show ?thesis using assms registry_take_one_inv [of "registry w"]
    by (cases e) (auto simp: bwr_take_one_eq queue_inv_def registry_take_one_eq)
qed

lemma queue_inv_take_all: "queue_inv w \<Longrightarrow> queue_inv (env_step P EnvTakeAll w)"
  using registry_take_all_inv [of "registry w"]
  by (auto simp: bwr_take_all_eq queue_inv_def registry_take_all_def)

lemma queue_inv_unregister: "queue_inv w \<Longrightarrow> queue_inv (bwr_unregister i w)"
  using registry_unregister_inv [of "registry w" i]
  by (auto simp: bwr_unregister_eq queue_inv_def registry_unregister_eq
      intro: distinct_map_filter)

lemma queue_inv_frame [simp]:
  "queue_inv (w\<lparr>mon_state := m\<rparr>) = queue_inv w"
  "queue_inv (w\<lparr>inner := s\<rparr>) = queue_inv w"
  "queue_inv (w\<lparr>env_holds := b\<rparr>) = queue_inv w"
  "queue_inv (w\<lparr>clock := k\<rparr>) = queue_inv w"
  "queue_inv (w\<lparr>sched := sc\<rparr>) = queue_inv w"
  by (simp_all add: queue_inv_def)

lemma queue_inv_arena: "length cs = length (arena w) \<Longrightarrow> queue_inv (w\<lparr>arena := cs\<rparr>) = queue_inv w"
  by (simp add: queue_inv_def)

lemma env_step_queue_inv: "queue_inv w \<Longrightarrow> queue_inv (env_step P a w)"
proof (cases a)
  case EnvRegister
  assume inv: "queue_inv w"
  obtain r w' where reg: "bwr_register w = (r, w')" by fastforce
  have "queue_inv w'" using inv reg by (rule queue_inv_register)
  moreover have "waiter_id g < next_waiter_id (registry w')" if "r = Return g" for g
    using reg that inv bwr_register_cases [of w] succ_u64_greater [of "next_waiter_id (registry w)"]
    by (auto simp: queue_inv_def split: if_splits)
  ultimately show ?thesis using EnvRegister reg by (cases r) (auto simp: queue_inv_def)
next
  case (EnvUnregister i)
  then show "queue_inv w \<Longrightarrow> ?thesis"
    using queue_inv_unregister [of w i] by (auto simp: queue_inv_def bwr_unregister_eq)
next
  case (EnvWake b)
  then show "queue_inv w \<Longrightarrow> ?thesis"
    by (auto simp: queue_inv_def wake_waiter_def dest: set_remove1_subset [THEN subsetD])
qed (auto simp: queue_inv_take_one queue_inv_take_all queue_inv_arena wake_waiters_eq Let_def
    split: prod.splits simp del: env_step.simps(7,8))

lemma env_step_inner [simp]: "inner (env_step P a w) = inner w"
  by (cases a)
    (auto simp: bwr_register_def bwr_take_one_def bwr_take_all_def bwr_unregister_def
      wake_waiter_def wake_waiters_eq Let_def split: outcome.splits option.splits prod.splits)

text \<open>Only the four steps on the state mutex touch the fields \<open>lock_inv\<close> reads.\<close>

lemma env_step_state:
  "a \<notin> {EnvLock, EnvClearPoison} \<Longrightarrow> (\<And>g. a \<noteq> EnvWrite g) \<Longrightarrow> (\<And>b. a \<noteq> EnvUnlock b) \<Longrightarrow>
   mon_state (env_step P a w) = mon_state w \<and> env_holds (env_step P a w) = env_holds w"
  by (cases a)
    (auto simp: bwr_register_def bwr_take_one_def bwr_take_all_def bwr_unregister_def
      wake_waiter_def wake_waiters_eq Let_def split: outcome.splits option.splits prod.splits)

text \<open>A registration of the calling thread stays attended; other threads leave no stray entry.\<close>

lemma env_step_regs_within:
  assumes "queue_inv w" and "regs_within own w"
  shows "regs_within own (env_step P a w)"
proof (cases a)
  case EnvRegister
  then show ?thesis
    using assms queue_invD(1) [OF assms(1)]
    by (auto simp: bwr_register_cases regs_within_def)
next
  case (EnvUnregister i)
  then show ?thesis
    using assms queue_invD(1) [OF assms(1)] by (auto simp: bwr_unregister_eq regs_within_def)
next
  case EnvTakeOne
  then show ?thesis
    using assms by (cases "active w") (auto simp: bwr_take_one_eq regs_within_def)
qed (use assms in \<open>auto simp: bwr_take_all_eq regs_within_def wake_waiter_def wake_waiters_eq
      split: prod.splits\<close>)

lemma env_step_attended:
  assumes "queue_inv w" and "attended g w"
  shows "attended g (env_step P a w)"
proof (cases a)
  case EnvRegister
  then show ?thesis
    using assms queue_invD(1) [OF assms(1)]
      succ_u64_greater [of "next_waiter_id (registry w)"]
    by (auto simp: bwr_register_cases attended_def nth_append intro: less_trans)
next
  case (EnvUnregister i)
  then show ?thesis
    using assms queue_invD(1) [OF assms(1)] by (auto simp: bwr_unregister_eq attended_def)
next
  case EnvTakeOne
  then show ?thesis
    using assms by (cases "active w") (auto simp: bwr_take_one_eq attended_def)
next
  case EnvTakeAll
  then show ?thesis
    using assms by (force simp: bwr_take_all_eq attended_def)
next
  case (EnvWake b)
  then show ?thesis
    using assms by (cases "b = waiter g") (auto simp: attended_def wake_waiter_def)
next
  case (EnvSpurious b)
  then show ?thesis
    using assms by (cases "b = waiter g") (auto simp: attended_def is_signalled_def)
qed (use assms in \<open>auto simp: attended_def wake_waiters_eq split: prod.splits\<close>)

text \<open>
  While the thread is parked on the waiter \<open>a\<close>, a latched signal has also unparked it: the latch
  and the unpark are one step of the signaller.
\<close>

definition parked_on :: "nat \<Rightarrow> ('m, 't, 'k) world \<Rightarrow> bool" where
  "parked_on a w \<longleftrightarrow> a < length (arena w) \<and> waiter_parked (arena w ! a) \<and>
     (is_signalled (arena w ! a) \<longrightarrow> waiter_woken (arena w ! a))"

lemma env_step_parked_on: "parked_on b w \<Longrightarrow> parked_on b (env_step P a w)"
proof (cases a)
  case (EnvSpurious c)
  then show "parked_on b w \<Longrightarrow> ?thesis"
    by (cases "c = b")
      (auto simp: parked_on_def waiter_parked_def waiter_woken_def is_signalled_def
        condvar_notify_one_def)
qed (auto simp: parked_on_def bwr_register_def bwr_take_one_eq bwr_take_all_eq bwr_unregister_def
    wake_waiter_def wake_waiters_eq nth_append Let_def
    split: outcome.splits option.splits prod.splits list.splits)

section \<open>Predicates that survive interference\<close>

text \<open>
  A predicate that every step of another thread keeps survives an interruption and a blocking
  point of any length.
\<close>

definition env_stable ::
  "('m, 't, 'k, 'i, 'f, 'e) platform \<Rightarrow> (('m, 't, 'k) world \<Rightarrow> bool) \<Rightarrow> bool"
where
  "env_stable P I \<longleftrightarrow>
     (\<forall>w a. I w \<longrightarrow> I (env_step P a w)) \<and> (\<forall>w sc. I w \<longrightarrow> I (w\<lparr>sched := sc\<rparr>))"

lemma env_stableI:
  "(\<And>w a. I w \<Longrightarrow> I (env_step P a w)) \<Longrightarrow> (\<And>w sc. I w \<Longrightarrow> I (w\<lparr>sched := sc\<rparr>)) \<Longrightarrow> env_stable P I"
  by (simp add: env_stable_def)

lemma env_stable_conj:
  "env_stable P I \<Longrightarrow> env_stable P J \<Longrightarrow> env_stable P (\<lambda>w. I w \<and> J w)"
  by (simp add: env_stable_def)

lemma env_stableD:
  assumes "env_stable P I" and "I w"
  shows "I (env_step P a w)" and "I (w\<lparr>sched := sc\<rparr>)"
  using assms by (simp_all add: env_stable_def)

lemma env_stable_run: "env_stable P I \<Longrightarrow> I w \<Longrightarrow> I (env_run P as w)"
  unfolding env_run_def by (induction as arbitrary: w) (auto simp: env_stable_def)

lemma env_stable_interfere:
  assumes "env_stable P I" and "I w"
  shows "I (interfere P w)"
  using env_stable_run [OF assms(1) env_stableD(2) [OF assms]] assms(2)
  by (simp add: interfere_def split: list.split)

lemma env_stable_block_until:
  "env_stable P I \<Longrightarrow> I w \<Longrightarrow> block_until P ready w = (ok, w') \<Longrightarrow>
    I w' \<and> (ok \<longleftrightarrow> ready w') \<and> (ok \<or> sched w' = [])"
proof (induction P ready w rule: block_until.induct)
  case (1 P ready w)
  show ?case
  proof (cases "ready w \<or> sched w = []")
    case True
    then show ?thesis using "1.prems"
      by (auto simp: block_until.simps [of P ready w] split: if_splits)
  next
    case False
    then obtain as rest where s: "sched w = as # rest" by (cases "sched w") auto
    have "I (env_run P as (w\<lparr>sched := rest\<rparr>))"
      using env_stable_run [OF "1.prems"(1) env_stableD(2) [OF "1.prems"(1,2)]] .
    then show ?thesis
      using "1.IH" [OF _ s] False "1.prems" s by (auto simp: block_until.simps [of P ready w])
  qed
qed

lemma interfere_idle [simp]: "sched w = [] \<Longrightarrow> interfere P w = w"
  by (simp add: interfere_def)

lemma interfere_sched_less: "sched w \<noteq> [] \<Longrightarrow> length (sched (interfere P w)) < length (sched w)"
  by (auto simp: interfere_def neq_Nil_conv)

lemma env_run_inner [simp]: "inner (env_run P as w) = inner w"
  unfolding env_run_def by (induction as arbitrary: w) simp_all

lemma interfere_inner [simp]: "inner (interfere P w) = inner w"
  by (simp add: interfere_def split: list.splits)

section \<open>The contract of the state mutex\<close>

locale state_backend =
  fixes P :: "('m, 't, 'k, 'i, 'f, 'e) platform"
  assumes lock_excludes: "bk_free (bk P) m \<Longrightarrow> \<not> bk_free (bk P) (snd (bk_lock (bk P) m))"
    and lock_keeps: "bk_deref (bk P) (snd (bk_lock (bk P) m)) = bk_deref (bk P) m"
    and drop_frees: "bk_free (bk P) (bk_drop (bk P) b m)"
    and drop_keeps: "bk_deref (bk P) (bk_drop (bk P) b m) = bk_deref (bk P) m"
    and write_reads: "bk_deref (bk P) (bk_deref_mut (bk P) d m) = d"
    and write_free: "bk_free (bk P) (bk_deref_mut (bk P) d m) = bk_free (bk P) m"
    and clear_free: "bk_free (bk P) (bk_clear_poison (bk P) m) = bk_free (bk P) m"
    and clear_keeps: "bk_deref (bk P) (bk_clear_poison (bk P) m) = bk_deref (bk P) m"
begin

lemmas backend_laws [simp] =
  lock_excludes lock_keeps drop_frees drop_keeps write_reads write_free clear_free clear_keeps

lemma env_step_lock_inv: "lock_inv P w \<Longrightarrow> lock_inv P (env_step P a w)"
  by (cases "a \<in> {EnvLock, EnvClearPoison} \<or> (\<exists>g. a = EnvWrite g) \<or> (\<exists>b. a = EnvUnlock b)")
    (auto simp: lock_inv_def env_step_state)

lemma env_step_deref:
  "lock_inv P w \<Longrightarrow> holds_guard w \<Longrightarrow>
   bk_deref (bk P) (mon_state (env_step P a w)) = bk_deref (bk P) (mon_state w)"
  by (cases "a \<in> {EnvLock, EnvClearPoison} \<or> (\<exists>g. a = EnvWrite g) \<or> (\<exists>b. a = EnvUnlock b)")
    (auto simp: lock_inv_def holds_guard_def env_step_state)

text \<open>The state of a thread between two calls, inside a guard, and while it is registered.\<close>

lemma stable_world: "env_stable P (world_inv P)"
proof (rule env_stableI)
  show "world_inv P (env_step P a w)" if "world_inv P w" for w a
    using that by (simp add: world_inv_def env_step_lock_inv env_step_queue_inv)
  show "world_inv P (w\<lparr>sched := sc\<rparr>)" if "world_inv P w" for w sc
    using that by (simp add: world_inv_def lock_inv_def)
qed

lemma world_invD: "world_inv P w \<Longrightarrow> lock_inv P w" "world_inv P w \<Longrightarrow> queue_inv w"
  by (simp_all add: world_inv_def)

lemma stable_regs: "env_stable P (\<lambda>w. world_inv P w \<and> regs_within own w)"
  by (rule env_stableI)
    (simp_all add: env_stableD [OF stable_world] env_step_regs_within world_invD,
      simp add: regs_within_def)

lemma stable_attended:
  "env_stable P (\<lambda>w. (world_inv P w \<and> regs_within own w) \<and> attended g w)"
proof (rule env_stableI)
  show "(world_inv P (env_step P a w) \<and> regs_within own (env_step P a w)) \<and>
      attended g (env_step P a w)"
    if "(world_inv P w \<and> regs_within own w) \<and> attended g w" for w a
    using that env_stableD(1) [OF stable_regs, of w own a]
    by (simp add: env_step_attended world_invD)
  show "(world_inv P (w\<lparr>sched := sc\<rparr>) \<and> regs_within own (w\<lparr>sched := sc\<rparr>)) \<and>
      attended g (w\<lparr>sched := sc\<rparr>)"
    if "(world_inv P w \<and> regs_within own w) \<and> attended g w" for w sc
    using that env_stableD(2) [OF stable_regs, of w own sc] by (simp add: attended_def)
qed

lemma stable_inner: "env_stable P (\<lambda>w. inner w = s)"
  by (rule env_stableI) simp_all

lemma stable_parked: "env_stable P (parked_on a)"
  by (rule env_stableI) (auto simp: env_step_parked_on, simp add: parked_on_def)

lemma stable_data:
  "env_stable P (\<lambda>w. world_inv P w \<and> holds_guard w \<and> bk_deref (bk P) (mon_state w) = d)"
  by (rule env_stableI)
    (simp_all add: env_stableD [OF stable_world] env_step_deref world_invD,
      simp_all add: holds_guard_def)

text \<open>Each step of the calling thread.\<close>

lemma idle_interfere: "idle P w \<Longrightarrow> idle P (interfere P w)"
  using env_stable_interfere [OF stable_regs [of "{}"], of w] by (simp add: idle_def)

lemma held_interfere: "held P w \<Longrightarrow> held P (interfere P w)"
  using env_stable_interfere [OF stable_regs [of "{}"], of w]
  by (simp add: held_def holds_guard_def)

lemma enrolled_interfere: "enrolled P g w \<Longrightarrow> enrolled P g (interfere P w)"
  using env_stable_interfere [OF stable_attended [of "{waiter_id g}" g], of w]
  by (simp add: enrolled_def)

lemma held_data_interfere:
  assumes "held P w"
  shows "bk_deref (bk P) (mon_state (interfere P w)) = bk_deref (bk P) (mon_state w)"
  using env_stable_interfere [OF stable_data [of "bk_deref (bk P) (mon_state w)"], of w] assms
  by (simp add: held_def)

lemma acquire_spec:
  assumes "idle P w" and "acquire_guard (lock_state P) w = (r, w')"
  shows "(r = Return () \<and> held P w') \<or>
         (r = Blocked \<and> idle P w' \<and> env_holds w' \<and> sched w' = [])"
proof -
  obtain ok v where block:
    "block_until P (\<lambda>v. bk_free (bk P) (mon_state v)) (interfere P w) = (ok, v)" by fastforce
  have stable: "env_stable P (\<lambda>w. (world_inv P w \<and> regs_within {} w) \<and> inner w = None)"
    using stable_regs stable_inner by (rule env_stable_conj)
  have "idle P (interfere P w)" using assms(1) by (rule idle_interfere)
  then have v: "idle P v" "ok \<longleftrightarrow> bk_free (bk P) (mon_state v)" "ok \<or> sched v = []"
    using env_stable_block_until [OF stable _ block] by (auto simp: idle_def)
  show ?thesis
  proof (cases ok)
    case True
    then have "r = Return ()" and
      w': "w' = v\<lparr>mon_state := snd (bk_lock (bk P) (mon_state v)),
                  inner := Some (fst (bk_lock (bk P) (mon_state v)))\<rparr>"
      using assms(2) block by (auto simp: acquire_guard_def lock_state_def split: prod.splits)
    moreover have "held P w'"
      using v True unfolding w'
      by (auto simp: idle_def held_def world_inv_def lock_inv_def regs_within_def holds_guard_def)
    ultimately show ?thesis by simp
  next
    case False
    then show ?thesis using assms(2) block v
      by (auto simp: acquire_guard_def lock_state_def idle_def world_inv_def lock_inv_def)
  qed
qed

lemma drop_guard_eq:
  "holds_guard w \<Longrightarrow> drop_guard P b w =
     (interfere P w)\<lparr>mon_state := bk_drop (bk P) b (mon_state (interfere P w)), inner := None\<rparr>"
  by (auto simp: drop_guard_def holds_guard_def Let_def)

lemma lock_inv_drop:
  "lock_inv P v \<Longrightarrow> holds_guard v \<Longrightarrow>
   lock_inv P (v\<lparr>mon_state := bk_drop (bk P) b (mon_state v), inner := None\<rparr>)"
  by (auto simp: lock_inv_def holds_guard_def)

lemma drop_guard_held:
  assumes "held P w"
  shows "idle P (drop_guard P b w)"
    and "bk_deref (bk P) (mon_state (drop_guard P b w)) = bk_deref (bk P) (mon_state w)"
proof -
  define v where "v = interfere P w"
  have h: "holds_guard w" using assms by (simp add: held_def)
  have "held P v" using assms unfolding v_def by (rule held_interfere)
  then show "idle P (drop_guard P b w)"
    by (simp add: drop_guard_eq [OF h] v_def [symmetric] held_def idle_def world_inv_def
        lock_inv_drop) (simp add: regs_within_def)
  show "bk_deref (bk P) (mon_state (drop_guard P b w)) = bk_deref (bk P) (mon_state w)"
    using held_data_interfere [OF assms] by (simp add: drop_guard_eq [OF h])
qed

lemma drop_guard_enrolled:
  assumes "enrolled P g w" and "holds_guard w"
  shows "enrolled P g (drop_guard P b w)" and "inner (drop_guard P b w) = None"
proof -
  define v where "v = interfere P w"
  have "enrolled P g v" using assms(1) unfolding v_def by (rule enrolled_interfere)
  moreover have "holds_guard v" using assms(2) by (simp add: v_def holds_guard_def)
  ultimately show "enrolled P g (drop_guard P b w)"
    by (simp add: drop_guard_eq [OF assms(2)] v_def [symmetric] enrolled_def world_inv_def
        lock_inv_drop) (simp add: regs_within_def attended_def)
  show "inner (drop_guard P b w) = None"
    by (simp add: drop_guard_eq [OF assms(2)])
qed

lemma register_spec:
  assumes "held P w" and "register_waiter P w = (r, w')"
  shows "(\<exists>g. r = Return g \<and> enrolled P g w' \<and> holds_guard w' \<and>
              \<not> is_signalled (arena w' ! waiter g) \<and> (waiter_id g, waiter g) \<in> set (active w')) \<or>
         (r = Panic ''monitor waiter identifiers exhausted'' \<and> held P w')"
proof -
  define v where "v = interfere P w"
  have v: "held P v" using assms(1) unfolding v_def by (rule held_interfere)
  then have q: "queue_inv v" by (simp add: held_def world_invD)
  note inv = queue_invD(1) [OF q]
  have reg: "bwr_register v = (r, w')" using assms(2) by (simp add: register_waiter_def v_def)
  have q': "queue_inv w'" using q reg by (rule queue_inv_register)
  have frame: "mon_state w' = mon_state v" "inner w' = inner v" "env_holds w' = env_holds v"
    "env_regs w' = env_regs v"
    using reg by (auto simp: bwr_register_cases [OF inv] split: if_splits)
  then have w': "world_inv P w'" "holds_guard w'"
    using v q' by (simp_all add: held_def world_inv_def lock_inv_def holds_guard_def)
  show ?thesis
  proof (cases "next_waiter_id (registry v) = u64_max")
    case True
    then have "active w' = active v" "r = Panic ''monitor waiter identifiers exhausted''"
      using reg by (auto simp: bwr_register_cases [OF inv])
    then show ?thesis using v w' frame by (simp add: held_def regs_within_def)
  next
    case False
    then have new: "r = Return \<lparr>waiter_id = next_waiter_id (registry v), waiter = length (arena v)\<rparr>"
      "active w' = active v @ [(next_waiter_id (registry v), length (arena v))]"
      "arena w' = arena v @ [BlockingConditionWaiter_new]"
      "next_waiter_id (registry w') = next_waiter_id (registry v) + 1"
      using reg by (auto simp: bwr_register_cases [OF inv])
    have "next_waiter_id (registry v) \<notin> set (env_regs v)"
      using queue_invD(4) [OF q] by blast
    then show ?thesis
      using new v w' frame succ_u64_greater [OF False]
      by (auto simp: enrolled_def attended_def held_def regs_within_def)
  qed
qed

end

end
