(* ===== verification/Blocking_Wait_Spec.thy ===== *)
theory Blocking_Wait_Spec
  imports Monitor_Backend
begin

text \<open>
  The wait algorithms of \<^verbatim>\<open>Blocking_Wait\<close> against the backend contract: what one suspension of a
  guard guarantees, why a blocked waiter is never a lost one, that the predicate loops end, and
  what each of their results says about the protected state.
\<close>

section \<open>One suspension\<close>

context state_backend
begin

lemma enrolled_cell:
  assumes "is_signalled c = is_signalled (arena w ! a)"
  shows "enrolled P g (w\<lparr>arena := (arena w)[a := c]\<rparr>) = enrolled P g w"
proof -
  have "is_signalled ((arena w)[a := c] ! b) = is_signalled (arena w ! b)"
    if "b < length (arena w)" for b
    using that assms by (cases "a = b") simp_all
  then show ?thesis
    by (auto simp: enrolled_def world_inv_def lock_inv_def queue_inv_arena regs_within_def
        attended_def)
qed

lemma waiter_wait_loop_spec:
  assumes "enrolled P g w" and "inner w = None"
    and "waiter_wait_loop P (waiter g) w = (r, w')"
  shows "enrolled P g w' \<and> inner w' = None \<and>
    (if is_signalled (arena w' ! waiter g) then r = Return ()
     else r = Blocked \<and> sched w' = [] \<and> waiter_parked (arena w' ! waiter g))"
  using assms
proof (induction "length (sched w)" arbitrary: w rule: less_induct)
  case less
  let ?a = "waiter g"
  let ?I = "\<lambda>v. (((world_inv P v \<and> regs_within {waiter_id g} v) \<and> attended g v) \<and> inner v = None)
    \<and> parked_on ?a v"
  note step = waiter_wait_loop.simps [of P ?a w]
  show ?case
  proof (cases "is_signalled (arena w ! ?a)")
    case True
    then show ?thesis using less.prems by (simp add: step)
  next
    case False
    define w1 where "w1 = w\<lparr>arena := (arena w)[?a := waiter_park (arena w ! ?a)]\<rparr>"
    have a: "?a < length (arena w)" using less.prems(1) by (simp add: enrolled_def attended_def)
    have e1: "enrolled P g w1" using less.prems(1) by (simp add: w1_def enrolled_cell)
    have p1: "parked_on ?a w1" using False a by (simp add: w1_def parked_on_def)
    have I1: "?I w1" using e1 p1 less.prems(2) by (simp add: w1_def enrolled_def)
    show ?thesis
    proof (cases "sched w")
      case Nil
      then show ?thesis
        using less.prems False e1 a by (simp add: step w1_def [symmetric]) (auto simp: w1_def)
    next
      case (Cons as rest)
      define w2 where "w2 = env_run P as (w1\<lparr>sched := rest\<rparr>)"
      have stable: "env_stable P ?I"
        by (rule env_stable_conj [OF env_stable_conj [OF stable_attended stable_inner]
              stable_parked])
      have I2: "?I w2"
        unfolding w2_def using env_stable_run [OF stable env_stableD(2) [OF stable I1]] .
      obtain ok w3 where block: "block_until P (\<lambda>v. waiter_woken (arena v ! ?a)) w2 = (ok, w3)"
        by fastforce
      note w3 = env_stable_block_until [OF stable I2 block]
      have len: "length (sched w3) < length (sched w)"
        using block_until_sched [OF block] by (simp add: w2_def Cons)
      have unfold: "waiter_wait_loop P ?a w =
          (case block_until P (\<lambda>v. waiter_woken (arena v ! ?a)) w2 of
             (False, w2) \<Rightarrow> (Blocked, w2)
           | (True, w2) \<Rightarrow> waiter_wait_loop P ?a
               (w2\<lparr>arena := (arena w2)[?a := waiter_resume (arena w2 ! ?a)]\<rparr>))"
        using False Cons by (simp add: step w2_def w1_def Let_def)
      show ?thesis
      proof (cases ok)
        case True
        define w4 where "w4 = w3\<lparr>arena := (arena w3)[?a := waiter_resume (arena w3 ! ?a)]\<rparr>"
        have "enrolled P g w4" using w3 by (simp add: w4_def enrolled_cell) (simp add: enrolled_def)
        moreover have "inner w4 = None" and "length (sched w4) < length (sched w)"
          using w3 len by (simp_all add: w4_def)
        moreover have "waiter_wait_loop P ?a w4 = (r, w')"
          using less.prems(3) True by (simp add: unfold block w4_def)
        ultimately show ?thesis by (intro less.hyps)
      next
        case False': False
        then have "w' = w3" and "r = Blocked"
          using less.prems(3) by (simp_all add: unfold block)
        moreover have "\<not> is_signalled (arena w3 ! ?a)"
          using w3 False' by (auto simp: parked_on_def)
        ultimately show ?thesis using w3 False' by (auto simp: enrolled_def parked_on_def)
      qed
    qed
  qed
qed

lemma waiter_wait_spec:
  assumes "enrolled P g w" and "inner w = None" and "waiter_wait P (waiter g) w = (r, w')"
  shows "enrolled P g w' \<and> inner w' = None \<and>
    (if is_signalled (arena w' ! waiter g) then r = Return ()
     else r = Blocked \<and> sched w' = [] \<and> waiter_parked (arena w' ! waiter g))"
  using assms enrolled_interfere [OF assms(1)]
  by (intro waiter_wait_loop_spec [of g "interfere P w"]) (simp_all add: waiter_wait_def)

text \<open>Dropping the registration leaves no entry of the calling thread behind.\<close>

lemma registration_drop_spec:
  assumes "enrolled P g w"
  shows "world_inv P (registration_drop P g w)" and "regs_within {} (registration_drop P g w)"
    and "inner (registration_drop P g w) = inner w"
proof -
  define v where "v = interfere P w"
  have v: "enrolled P g v" using assms unfolding v_def by (rule enrolled_interfere)
  then have q: "queue_inv v" by (simp add: enrolled_def world_invD)
  note drop = bwr_unregister_eq [OF queue_invD(1) [OF q], of "waiter_id g"]
  show "world_inv P (registration_drop P g w)"
    using v queue_inv_unregister [OF q, of "waiter_id g"]
    by (simp add: registration_drop_def v_def [symmetric] enrolled_def world_inv_def)
      (simp add: lock_inv_def drop)
  show "regs_within {} (registration_drop P g w)"
    using v by (auto simp: registration_drop_def v_def [symmetric] drop enrolled_def regs_within_def)
  show "inner (registration_drop P g w) = inner w"
    by (simp add: registration_drop_def v_def [symmetric] drop) (simp add: v_def)
qed

lemma clock_frame [simp]:
  "idle P (w\<lparr>clock := k\<rparr>) = idle P w" "held P (w\<lparr>clock := k\<rparr>) = held P w"
  "enrolled P g (w\<lparr>clock := k\<rparr>) = enrolled P g w"
  by (simp_all add: idle_def held_def enrolled_def world_inv_def lock_inv_def regs_within_def
      attended_def holds_guard_def)

lemma poll_future_spec:
  assumes "poll_future P wk future w = (r, future', w')"
  shows "held P w \<Longrightarrow> held P w'"
    and "held P w \<Longrightarrow> bk_deref (bk P) (mon_state w') = bk_deref (bk P) (mon_state w)"
    and "enrolled P g w \<Longrightarrow> enrolled P g w'" and "inner w' = inner w"
    and "length (sched w') \<le> length (sched w)" and "sched w \<noteq> [] \<Longrightarrow> length (sched w') < length (sched w)"
    and "sched w = [] \<Longrightarrow> w' = w\<lparr>clock := clock w'\<rparr>"
  using assms held_interfere [of w] held_data_interfere [of w] enrolled_interfere [of g w]
    interfere_sched [of P w] interfere_sched_less [of w P]
  by (auto simp: poll_future_def Let_def split: prod.splits)

lemma release_enrolled:
  assumes "enrolled P g w" and "holds_guard w"
  shows "release_guard P m w = (Return (), drop_guard P False w)"
  using assms by (auto simp: release_guard_def holds_guard_def)

lemma reacquire_after_wait:
  assumes "enrolled P g w" and "inner w = None"
    and "acquire_guard (lock_state P) (registration_drop P g w) = (r, w')"
  shows "(r = Return () \<and> held P w') \<or>
         (r = Blocked \<and> idle P w' \<and> env_holds w' \<and> sched w' = [])"
proof -
  have "idle P (registration_drop P g w)"
    using registration_drop_spec [OF assms(1)] assms(2) by (simp add: idle_def)
  then show ?thesis using assms(3) by (rule acquire_spec)
qed

lemma suspend_spec:
  assumes "enrolled P g w" and "holds_guard w"
    and "and_then (on_unwind (registration_drop P g) (release_guard P m w))
           (\<lambda>_ w. and_then (waiter_wait P (waiter g) w)
              (\<lambda>_ w. acquire_guard (lock_state P) (registration_drop P g w))) = (r, w')"
  shows "(r = Return () \<and> held P w') \<or> (r = Blocked \<and> (stuck_waiting P w' \<or> stuck_locking P w'))"
proof -
  define v where "v = drop_guard P False w"
  have v: "enrolled P g v" "inner v = None"
    using drop_guard_enrolled [OF assms(1,2)] by (simp_all add: v_def)
  obtain r1 w1 where wait: "waiter_wait P (waiter g) v = (r1, w1)" by fastforce
  note w1 = waiter_wait_spec [OF v wait]
  show ?thesis
  proof (cases "is_signalled (arena w1 ! waiter g)")
    case True
    then have "acquire_guard (lock_state P) (registration_drop P g w1) = (r, w')"
      using assms(3) wait w1 release_enrolled [OF assms(1,2)] by (simp add: v_def)
    then show ?thesis
      using reacquire_after_wait [of g w1 r w'] w1 by (auto simp: stuck_locking_def)
  next
    case False
    then have "r = Blocked" and "w' = w1"
      using assms(3) wait w1 release_enrolled [OF assms(1,2)] by (simp_all add: v_def)
    then show ?thesis using w1 False by (auto simp: stuck_waiting_def enrolled_def)
  qed
qed

lemma wait_for_notification_spec:
  assumes "held P w" and "wait_for_notification P m (lock_state P) w = (r, w')"
  shows "(r = Return () \<and> held P w') \<or>
         (r = Panic ''monitor waiter identifiers exhausted'' \<and> held P w') \<or>
         (r = Blocked \<and> (stuck_waiting P w' \<or> stuck_locking P w'))"
proof -
  obtain r1 w1 where reg: "register_waiter P w = (r1, w1)" by fastforce
  from register_spec [OF assms(1) reg] show ?thesis
  proof (elim disjE exE conjE)
    fix g assume g: "r1 = Return g" "enrolled P g w1" "holds_guard w1"
    then show ?thesis
      using suspend_spec [of g w1 m r w'] assms(2) reg by (auto simp: wait_for_notification_def)
  next
    assume "r1 = Panic ''monitor waiter identifiers exhausted''" and "held P w1"
    then show ?thesis using assms(2) reg by (auto simp: wait_for_notification_def)
  qed
qed

text \<open>
  A suspension that returns used up at least one scheduled interruption: with nobody else running
  a fresh waiter is never signalled.
\<close>

lemma drop_guard_sched: "length (sched (drop_guard P b w)) \<le> length (sched w)"
  using interfere_sched [of P w] by (simp add: drop_guard_def Let_def split: option.splits)

lemma registration_drop_sched: "length (sched (registration_drop P g w)) \<le> length (sched w)"
  using interfere_sched [of P w] by (simp add: registration_drop_def bwr_unregister_def Let_def
      split: prod.splits)

lemma register_sched:
  assumes "register_waiter P w = (r, w')"
  shows "length (sched w') \<le> length (sched w)"
    and "sched w \<noteq> [] \<Longrightarrow> length (sched w') < length (sched w)"
  using assms interfere_sched [of P w] interfere_sched_less [of w P]
  by (auto simp: register_waiter_def bwr_register_def Let_def split: prod.splits)

lemma acquire_sched:
  assumes "acquire_guard (lock_state P) w = (r, w')"
  shows "length (sched w') \<le> length (sched w)"
proof -
  obtain ok v where block:
    "block_until P (\<lambda>v. bk_free (bk P) (mon_state v)) (interfere P w) = (ok, v)" by fastforce
  have "sched w' = sched v"
    using assms block
    by (auto simp: acquire_guard_def lock_state_def Let_def split: prod.splits if_splits)
  then show ?thesis using block_until_sched [OF block] interfere_sched [of P w] by simp
qed

lemma waiter_wait_loop_sched:
  "waiter_wait_loop P a w = (r, w') \<Longrightarrow> length (sched w') \<le> length (sched w)"
proof (induction "length (sched w)" arbitrary: w rule: less_induct)
  case less
  note step = waiter_wait_loop.simps [of P a w]
  show ?case
  proof (cases "is_signalled (arena w ! a) \<or> sched w = []")
    case True
    then show ?thesis using less.prems by (auto simp: step Let_def split: if_splits)
  next
    case False
    then obtain as rest where s: "sched w = as # rest" by (cases "sched w") auto
    obtain ok v where block: "block_until P (\<lambda>v. waiter_woken (arena v ! a))
        (env_run P as (w\<lparr>arena := (arena w)[a := waiter_park (arena w ! a)], sched := rest\<rparr>)) = (ok, v)"
      by fastforce
    have v: "length (sched v) < length (sched w)" using block_until_sched [OF block] s by simp
    show ?thesis
      using less.prems False s v block
        less.hyps [of "v\<lparr>arena := (arena v)[a := waiter_resume (arena v ! a)]\<rparr>"]
      by (cases ok) (auto simp: step Let_def)
  qed
qed

lemma suspend_sched:
  assumes "holds_guard w"
    and "and_then (on_unwind (registration_drop P g) (release_guard P m w))
           (\<lambda>_ w. and_then (waiter_wait P (waiter g) w)
              (\<lambda>_ w. acquire_guard (lock_state P) (registration_drop P g w))) = (Return x, w')"
  shows "length (sched w') \<le> length (sched w)" and "sched w = [] \<Longrightarrow> is_signalled (arena w ! waiter g)"
proof -
  define v where "v = drop_guard P False w"
  have rel: "release_guard P m w = (Return (), v)"
    using assms(1) by (auto simp: release_guard_def v_def holds_guard_def)
  obtain y u where wait: "waiter_wait P (waiter g) v = (Return y, u)"
    and acq: "acquire_guard (lock_state P) (registration_drop P g u) = (Return x, w')"
    using assms(2) rel by (auto elim!: and_then_ReturnD)
  have "length (sched u) \<le> length (sched v)"
    using waiter_wait_loop_sched [of "waiter g" "interfere P v"] wait interfere_sched [of P v]
    by (fastforce simp: waiter_wait_def)
  then show "length (sched w') \<le> length (sched w)"
    using acquire_sched [OF acq] registration_drop_sched [of g u] drop_guard_sched [of False w]
    by (simp add: v_def)
  show "is_signalled (arena w ! waiter g)" if "sched w = []"
  proof (rule ccontr)
    assume "\<not> is_signalled (arena w ! waiter g)"
    moreover have "sched v = []" "arena v = arena w"
      using that assms(1) by (simp_all add: v_def drop_guard_eq)
    ultimately show False
      using wait by (simp add: waiter_wait_def waiter_wait_loop.simps [of P "waiter g" v])
  qed
qed

lemma wait_for_notification_progress:
  assumes "held P w" and "wait_for_notification P m (lock_state P) w = (Return x, w')"
  shows "length (sched w') < length (sched w)"
proof -
  obtain g w1 where reg: "register_waiter P w = (Return g, w1)"
    and rest: "and_then (on_unwind (registration_drop P g) (release_guard P m w1))
           (\<lambda>_ w. and_then (waiter_wait P (waiter g) w)
              (\<lambda>_ w. acquire_guard (lock_state P) (registration_drop P g w))) = (Return x, w')"
    using assms(2) by (auto simp: wait_for_notification_def elim!: and_then_ReturnD)
  have g: "holds_guard w1" "\<not> is_signalled (arena w1 ! waiter g)"
    using register_spec [OF assms(1) reg] by auto
  have "sched w1 \<noteq> []" using suspend_sched(2) [OF g(1) rest] g(2) by blast
  then have "sched w \<noteq> []" using register_sched(1) [OF reg] by auto
  then show ?thesis
    using suspend_sched(1) [OF g(1) rest] register_sched(2) [OF reg] by linarith
qed

text \<open>
  The timed suspension: the tail after the second poll is the untimed suspension followed by one
  more poll, so it inherits its guarantees.
\<close>

definition timed_tail ::
  "string \<Rightarrow> BlockingWaiterRegistration \<Rightarrow> 'f \<Rightarrow> ('m, 't, 'k, ('e + WaitTimeoutStatus) \<times> 'f) call"
where
  "timed_tail m g future w =
     and_then (and_then (on_unwind (registration_drop P g) (release_guard P m w))
        (\<lambda>_ w. and_then (waiter_wait P (waiter g) w)
           (\<lambda>_ w. acquire_guard (lock_state P) (registration_drop P g w))))
      (\<lambda>_ w. case poll_timer P (waiter g) future w of
           (Poll_ready result, future, w) \<Rightarrow> (Return (timed_out_result result, future), w)
         | (Poll_pending, future, w) \<Rightarrow> (Return (Inr Woken, future), w))"

lemma wait_with_timer_alt:
  "wait_with_timer P m (lock_state P) future w =
     (case poll_timer_without_waiter P future w of
        (Poll_ready result, future, w) \<Rightarrow> (Return (timed_out_result result, future), w)
      | (Poll_pending, future, w) \<Rightarrow>
          and_then (register_waiter P w) (\<lambda>g w.
          case poll_timer P (waiter g) future w of
            (Poll_ready result, future, w) \<Rightarrow>
              (Return (timed_out_result result, future), registration_drop P g w)
          | (Poll_pending, future, w) \<Rightarrow> timed_tail m g future w))"
  unfolding wait_with_timer_def timed_tail_def and_then_assoc Let_def ..

lemma timed_out_result_not_woken [simp]: "timed_out_result r \<noteq> Inr Woken"
  by (simp add: timed_out_result_def split: sum.splits)

lemma timed_tail_spec:
  assumes "enrolled P g w" and "holds_guard w" and "timed_tail m g future w = (r, w')"
  shows "(\<exists>res future'. r = Return (res, future') \<and> held P w' \<and>
            length (sched w') \<le> length (sched w) \<and>
            (sched w = [] \<longrightarrow> is_signalled (arena w ! waiter g))) \<or>
         (r = Blocked \<and> (stuck_waiting P w' \<or> stuck_locking P w'))"
proof -
  obtain r1 w1 where susp: "and_then (on_unwind (registration_drop P g) (release_guard P m w))
        (\<lambda>_ w. and_then (waiter_wait P (waiter g) w)
           (\<lambda>_ w. acquire_guard (lock_state P) (registration_drop P g w))) = (r1, w1)"
    by fastforce
  note s = suspend_spec [OF assms(1,2) susp]
  show ?thesis
  proof (cases "r1 = Return ()")
    case r1: True
    then have held: "held P w1" using s by auto
    obtain pr future' w2 where poll: "poll_timer P (waiter g) future w1 = (pr, future', w2)"
      by (cases "poll_timer P (waiter g) future w1")
    note p = poll_future_spec [OF poll [unfolded poll_timer_def]]
    have "\<exists>res. (r, w') = (Return (res, future'), w2)"
      using assms(3) susp r1 poll by (cases pr) (auto simp: timed_tail_def)
    then show ?thesis
      using p(1,5) held suspend_sched [OF assms(2) susp [unfolded r1]] by auto
  next
    case False
    then show ?thesis using s assms(3) susp by (auto simp: timed_tail_def)
  qed
qed

text \<open>
  A timed suspension returns, with a status, an error or a panic, only while the guard is held
  again; it reports a wake-up only after another thread made a step.
\<close>

lemma wait_with_timer_spec:
  assumes "held P w" and "wait_with_timer P m (lock_state P) future w = (r, w')"
  shows "(\<exists>res future'. r = Return (res, future') \<and> held P w' \<and>
            (res = Inr Woken \<longrightarrow> length (sched w') < length (sched w))) \<or>
         (r = Panic ''monitor waiter identifiers exhausted'' \<and> held P w') \<or>
         (r = Blocked \<and> (stuck_waiting P w' \<or> stuck_locking P w'))"
proof -
  obtain p1 f1 w1 where poll1: "poll_future P Waker_noop future w = (p1, f1, w1)"
    by (cases "poll_future P Waker_noop future w")
  note s1 = poll_future_spec [OF poll1]
  have h1: "held P w1" using s1(1) assms(1) .
  show ?thesis
  proof (cases p1)
    case (Poll_ready result)
    then show ?thesis
      using assms(2) poll1 h1 by (auto simp: wait_with_timer_alt poll_timer_without_waiter_def)
  next
    case Poll_pending
    obtain r2 w2 where reg: "register_waiter P w1 = (r2, w2)" by fastforce
    from register_spec [OF h1 reg] show ?thesis
    proof (elim disjE exE conjE)
      assume "r2 = Panic ''monitor waiter identifiers exhausted''" and "held P w2"
      then show ?thesis
        using assms(2) poll1 Poll_pending reg
        by (auto simp: wait_with_timer_alt poll_timer_without_waiter_def)
    next
      fix g assume g: "r2 = Return g" "enrolled P g w2" "holds_guard w2"
        "\<not> is_signalled (arena w2 ! waiter g)"
      obtain p3 f3 w3 where poll3: "poll_future P (Waker_of (waiter g)) f1 w2 = (p3, f3, w3)"
        by (cases "poll_future P (Waker_of (waiter g)) f1 w2")
      note s3 = poll_future_spec [OF poll3]
      have e3: "enrolled P g w3" "holds_guard w3"
        using s3(3,4) g(2,3) by (simp_all add: holds_guard_def)
      have tail: "(r, w') = (case p3 of
            Poll_ready result \<Rightarrow> (Return (timed_out_result result, f3), registration_drop P g w3)
          | Poll_pending \<Rightarrow> timed_tail m g f3 w3)"
        using assms(2) poll1 Poll_pending reg g(1) poll3
        by (simp add: wait_with_timer_alt poll_timer_without_waiter_def poll_timer_def
            split: poll.splits)
      show ?thesis
      proof (cases p3)
        case (Poll_ready result)
        have "held P (registration_drop P g w3)"
          using registration_drop_spec [OF e3(1)] e3(2) by (simp add: held_def holds_guard_def)
        then show ?thesis using tail Poll_ready by auto
      next
        case Poll_pending
        have "timed_tail m g f3 w3 = (r, w')" using tail Poll_pending by simp
        note t = timed_tail_spec [OF e3 this]
        have "length (sched w3) < length (sched w)" if "sched w3 = [] \<longrightarrow> is_signalled (arena w3 ! waiter g)"
        proof -
          have "sched w \<noteq> []"
          proof
            assume "sched w = []"
            then have "sched w2 = []" and "sched w3 = []"
              using s1(5) register_sched(1) [OF reg] s3(5) by simp_all
            moreover have "arena w3 = arena w2" using s3(7) [OF \<open>sched w2 = []\<close>] by (metis world.ext_inject world.surjective world.update_convs(8))
            ultimately show False using that g(4) by simp
          qed
          then show ?thesis using s1(6) register_sched(1) [OF reg] s3(5) by linarith
        qed
        then show ?thesis using t by fastforce
      qed
    qed
  qed
qed

end

end
