(* ===== verification/Wait_Loops_Spec.thy ===== *)
theory Wait_Loops_Spec
  imports Blocking_Wait_Spec
begin

text \<open>
  The predicate loops of \<^verbatim>\<open>Blocking_Wait\<close>. What a loop promises is stated through the sequence of
  evaluations of the caller's predicate; the loops are verified once, against the contract of one
  suspension (\<open>guard_suspension\<close>, \<open>timed_suspension\<close>), and the two suspensions of
  \<^verbatim>\<open>blocking_monitor_guard_wait.rs\<close> are shown to meet it.
\<close>

section \<open>What a wait promises\<close>

abbreviation data :: "('m, 't, 'k, 'i, 'f, 'e) platform \<Rightarrow> ('m, 't, 'k) world \<Rightarrow> 't" where
  "data P w \<equiv> bk_deref (bk P) (mon_state w)"

text \<open>The state of the predicate after it has answered ``keep waiting'' on each value in turn.\<close>

fun held_back :: "('p, 't) predicate \<Rightarrow> 'p \<Rightarrow> 't list \<Rightarrow> 'p option" where
  "held_back waiting p [] = Some p"
| "held_back waiting p (d # ds) = (case waiting p d of
     (Return b, p') \<Rightarrow> if b then held_back waiting p' ds else None
   | _ \<Rightarrow> None)"

text \<open>The last evaluation of the predicate was on \<open>d\<close> and had the outcome \<open>r\<close>.\<close>

definition observed :: "('p, 't) predicate \<Rightarrow> 'p \<Rightarrow> bool outcome \<Rightarrow> 't \<Rightarrow> bool" where
  "observed waiting p r d \<longleftrightarrow>
     (\<exists>ds q q'. held_back waiting p ds = Some q \<and> waiting q d = (r, q'))"

text \<open>
  The last evaluation of the predicate answered ``go on'', and the action then ran on the very
  same value, with outcome \<open>r\<close> and leaving \<open>d'\<close>.
\<close>

definition acted ::
  "('p, 't) predicate \<Rightarrow> 'p \<Rightarrow> ('t, 'r) action \<Rightarrow> 'r outcome \<Rightarrow> 't \<Rightarrow> bool"
where
  "acted waiting p f r d' \<longleftrightarrow>
     (\<exists>ds q q' d. held_back waiting p ds = Some q \<and> waiting q d = (Return False, q') \<and>
        f d = (r, d'))"

text \<open>The last thing that happened: a panic passed the frame of a held monitor guard.\<close>

definition unwound :: "('m, 't, 'k, 'i, 'f, 'e) platform \<Rightarrow> ('m, 't, 'k) world \<Rightarrow> bool" where
  "unwound P w \<longleftrightarrow> (\<exists>v. held P v \<and> w = drop_guard P True v)"

text \<open>
  The postcondition shared by all waits for the outcomes that are not a value: a panic leaves the
  thread without guard and registration and has one of three origins; a blocked call is waiting
  for a notification, for the monitor, or inside one of the caller's closures.
\<close>

definition panic_post ::
  "('m, 't, 'k, 'i, 'f, 'e) platform \<Rightarrow> ('p, 't) predicate \<Rightarrow> 'p \<Rightarrow> ('t, 'r) action \<Rightarrow> string \<Rightarrow>
   ('m, 't, 'k) world \<Rightarrow> bool"
where
  "panic_post P waiting p f m w \<longleftrightarrow> idle P w \<and> unwound P w \<and>
     (m = ''monitor waiter identifiers exhausted'' \<or>
      observed waiting p (Panic m) (data P w) \<or> acted waiting p f (Panic m) (data P w))"

definition blocked_post ::
  "('m, 't, 'k, 'i, 'f, 'e) platform \<Rightarrow> ('p, 't) predicate \<Rightarrow> 'p \<Rightarrow> ('t, 'r) action \<Rightarrow>
   ('m, 't, 'k) world \<Rightarrow> bool"
where
  "blocked_post P waiting p f w \<longleftrightarrow> stuck_waiting P w \<or> stuck_locking P w \<or>
     held P w \<and> (observed waiting p Blocked (data P w) \<or> acted waiting p f Blocked (data P w))"

definition wait_post ::
  "('m, 't, 'k, 'i, 'f, 'e) platform \<Rightarrow> ('p, 't) predicate \<Rightarrow> 'p \<Rightarrow> ('t, 'r) action \<Rightarrow>
   'r outcome \<Rightarrow> ('m, 't, 'k) world \<Rightarrow> bool"
where
  "wait_post P waiting p f r w = (case r of
       Return x \<Rightarrow> idle P w \<and> acted waiting p f (Return x) (data P w)
     | Panic m \<Rightarrow> panic_post P waiting p f m w
     | Blocked \<Rightarrow> blocked_post P waiting p f w)"

definition timed_post ::
  "('m, 't, 'k, 'i, 'f, 'e) platform \<Rightarrow> ('p, 't) predicate \<Rightarrow> 'p \<Rightarrow> ('t, 'r) action \<Rightarrow>
   ('e + 'r WaitTimeoutResult) outcome \<Rightarrow> ('m, 't, 'k) world \<Rightarrow> bool"
where
  "timed_post P waiting p f r w = (case r of
       Return (Inl e) \<Rightarrow> idle P w
     | Return (Inr (Ready x)) \<Rightarrow> idle P w \<and> acted waiting p f (Return x) (data P w)
     | Return (Inr TimedOut) \<Rightarrow> idle P w \<and> observed waiting p (Return True) (data P w)
     | Panic m \<Rightarrow> panic_post P waiting p f m w
     | Blocked \<Rightarrow> blocked_post P waiting p f w)"

lemmas post_defs = wait_post_def timed_post_def panic_post_def blocked_post_def

text \<open>An evaluation that answers ``keep waiting'' only extends the sequence.\<close>

lemma observed_now: "waiting p d = (r, p') \<Longrightarrow> observed waiting p r d"
  unfolding observed_def by (metis held_back.simps(1))

lemma acted_now: "waiting p d = (Return False, p') \<Longrightarrow> f d = (r, d') \<Longrightarrow> acted waiting p f r d'"
  unfolding acted_def by (metis held_back.simps(1))

lemma observed_later:
  assumes "waiting p d = (Return True, p')" and "observed waiting p' r d'"
  shows "observed waiting p r d'"
proof -
  obtain ds q q' where "held_back waiting p' ds = Some q" "waiting q d' = (r, q')"
    using assms(2) by (auto simp: observed_def)
  then have "held_back waiting p (d # ds) = Some q \<and> waiting q d' = (r, q')"
    by (simp add: assms(1))
  then show ?thesis unfolding observed_def by blast
qed

lemma acted_later:
  assumes "waiting p d = (Return True, p')" and "acted waiting p' f r d'"
  shows "acted waiting p f r d'"
proof -
  obtain ds q q' e where "held_back waiting p' ds = Some q" "waiting q e = (Return False, q')"
    "f e = (r, d')"
    using assms(2) by (auto simp: acted_def)
  then have "held_back waiting p (d # ds) = Some q \<and> waiting q e = (Return False, q') \<and> f e = (r, d')"
    by (simp add: assms(1))
  then show ?thesis unfolding acted_def by blast
qed

lemma post_later:
  assumes "waiting p d = (Return True, p')"
  shows "wait_post P waiting p' f r w \<Longrightarrow> wait_post P waiting p f r w"
    and "timed_post P waiting p' f s w \<Longrightarrow> timed_post P waiting p f s w"
  using observed_later [of waiting p d p', OF assms] acted_later [of waiting p d p' f, OF assms]
  by (auto simp: post_defs split: outcome.splits sum.splits WaitTimeoutResult.splits)

section \<open>Closures run under the guard\<close>

context state_backend
begin

lemma guard_deref_held: "held P w \<Longrightarrow> guard_deref P w = Return (data P w)"
  by (auto simp: guard_deref_def held_def holds_guard_def)

lemma end_scope_simps [simp]:
  "end_scope P (Return x, w) = (Return x, drop_guard P False w)"
  "end_scope P (Panic m, w) = (Panic m, drop_guard P True w)"
  "end_scope P (Blocked, w) = (Blocked, w)"
  by (simp_all add: end_scope_def)

lemma eval_predicate_held: "held P w \<Longrightarrow> eval_predicate P waiting p w = waiting p (data P w)"
  by (simp add: eval_predicate_def guard_deref_held)

lemma run_action_held:
  assumes "held P w" and "run_action P f w = (r, w')"
  shows "held P w'" and "f (data P w) = (r, data P w')"
proof -
  obtain d where f: "f (data P w) = (r, d)" and
    w': "w' = w\<lparr>mon_state := bk_deref_mut (bk P) d (mon_state w)\<rparr>"
    using assms by (auto simp: run_action_def guard_deref_held split: prod.splits)
  show "held P w'"
    using assms(1) by (simp add: w' held_def world_inv_def lock_inv_def regs_within_def holds_guard_def)
  show "f (data P w) = (r, data P w')" using f by (simp add: w')
qed

lemma end_scope_held:
  assumes "held P w" and "end_scope P (r, w) = (r', w')"
  shows "r' = r" and "data P w' = data P w" and "r \<noteq> Blocked \<Longrightarrow> idle P w'"
    and "r = Blocked \<Longrightarrow> held P w'" and "is_panic r \<Longrightarrow> unwound P w'"
  using assms drop_guard_held [OF assms(1)] by (cases r; auto simp: end_scope_def unwound_def)+

text \<open>Running the action and leaving the scope, once the predicate has answered ``go on''.\<close>

lemma run_and_leave:
  assumes "held P w" and "waiting p (data P w) = (Return False, p')"
    and "end_scope P (apfst (map_outcome h) (run_action P f w)) = (r', w')"
  shows "\<exists>r. r' = map_outcome h r \<and> acted waiting p f r (data P w') \<and>
    (r \<noteq> Blocked \<longrightarrow> idle P w') \<and> (r = Blocked \<longrightarrow> held P w') \<and> (is_panic r \<longrightarrow> unwound P w')"
proof -
  obtain r v where run: "run_action P f w = (r, v)" by fastforce
  note h = run_action_held [OF assms(1) run]
  have "end_scope P (map_outcome h r, v) = (r', w')" using assms(3) run by simp
  note e = end_scope_held [OF h(1) this]
  have "acted waiting p f r (data P w')"
    using acted_now [of waiting p "data P w" p' f r "data P v"] assms(2) h(2) e(2) by simp
  then show ?thesis using e by (intro exI [of _ r]) (cases r; auto)
qed

lemma run_and_leave_post:
  assumes "held P w" and "waiting p (data P w) = (Return False, p')"
  shows "end_scope P (run_action P f w) = (r, w') \<Longrightarrow> wait_post P waiting p f r w'"
    and "end_scope P (apfst (map_outcome (\<lambda>x. Inr (Ready x))) (run_action P f w)) = (s, w') \<Longrightarrow>
      timed_post P waiting p f s w'"
proof -
  have id: "apfst (map_outcome (\<lambda>x. x)) q = q" for q :: "'x outcome \<times> 'y"
    by (cases q rule: outcome_pair_cases) auto
  show "end_scope P (run_action P f w) = (r, w') \<Longrightarrow> wait_post P waiting p f r w'"
    using run_and_leave [where h = "\<lambda>x. x", OF assms(1), of waiting p p' f r w'] assms(2)
    unfolding id by (auto simp: post_defs split: outcome.splits)
  show "timed_post P waiting p f s w'"
    if "end_scope P (apfst (map_outcome (\<lambda>x. Inr (Ready x))) (run_action P f w)) = (s, w')"
    using run_and_leave [OF assms(1) _ that, of waiting p p'] assms(2)
    by (auto simp: post_defs split: outcome.splits)
qed

text \<open>Leaving the scope without running the action.\<close>

lemma leave_panic:
  assumes "held P w"
    and "m = ''monitor waiter identifiers exhausted'' \<or> observed waiting p (Panic m) (data P w)"
  shows "panic_post P waiting p f m (drop_guard P True w)"
  using drop_guard_held [OF assms(1)] assms by (auto simp: panic_post_def unwound_def)

lemma leave_predicate:
  assumes "held P w" and "waiting p (data P w) = (r, p')"
  shows "r = Panic m \<Longrightarrow> panic_post P waiting p f m (drop_guard P True w)"
    and "r = Blocked \<Longrightarrow> blocked_post P waiting p f w"
  using leave_panic [OF assms(1), of m waiting p f] observed_now [of waiting p "data P w" r p'] assms
  by (auto simp: blocked_post_def)

text \<open>The Timer calls made while the guard is held leave the monitor alone.\<close>

lemma timer_calls_held:
  assumes "held P w"
  shows "timer_now P w = (x, w1) \<Longrightarrow> held P w1 \<and> data P w1 = data P w"
    and "timer_at P i w = (y, w2) \<Longrightarrow> held P w2 \<and> data P w2 = data P w"
    and "timer_after P du w = (z, w3) \<Longrightarrow> held P w3 \<and> data P w3 = data P w"
    and "poll_timer_without_waiter P fu w = (pr, fu', w4) \<Longrightarrow> held P w4 \<and> data P w4 = data P w"
  using held_interfere [OF assms] held_data_interfere [OF assms]
    poll_future_spec [of Waker_noop fu w pr fu' w4] assms
  by (auto simp: timer_now_def timer_at_def timer_after_def poll_timer_without_waiter_def Let_def
      split: prod.splits)

end

section \<open>The untimed loop\<close>

text \<open>The contract of one suspension of a held guard.\<close>

locale guard_suspension = state_backend P
  for P :: "('m, 't, 'k, 'i, 'f, 'e) platform" +
  fixes wait :: "('m, 't, 'k, unit) call"
  assumes suspension: "held P w \<Longrightarrow> wait w = (r, w') \<Longrightarrow>
      (r = Return () \<and> held P w' \<and> length (sched w') < length (sched w)) \<or>
      (r = Panic ''monitor waiter identifiers exhausted'' \<and> held P w') \<or>
      (r = Blocked \<and> (stuck_waiting P w' \<or> stuck_locking P w'))"
begin

lemma wait_while_locked_spec:
  assumes "held P w"
  shows "\<exists>r w'. wait_while_locked P waiting p f wait w = Some (r, w') \<and> wait_post P waiting p f r w'"
  using assms
proof (induction "length (sched w)" arbitrary: p w rule: less_induct)
  case less
  note step = wait_while_locked.simps [of P waiting p f wait w] eval_predicate_held [OF less.prems]
  obtain o1 p' where eval: "waiting p (data P w) = (o1, p')" by fastforce
  show ?case
  proof (cases o1)
    case (Return b)
    show ?thesis
    proof (cases b)
      case True
      obtain o2 v where wait: "wait w = (o2, v)" by fastforce
      from suspension [OF less.prems wait] show ?thesis
      proof (elim disjE conjE)
        assume v: "o2 = Return ()" "held P v" "length (sched v) < length (sched w)"
        then have "wait_while_locked P waiting p f wait w = wait_while_locked P waiting p' f wait v"
          using eval Return True wait by (simp add: step)
        with less.hyps [OF v(3,2), of p'] post_later(1) [of waiting p "data P w" p'] eval Return True
        show ?thesis by auto
      next
        assume v: "o2 = Panic ''monitor waiter identifiers exhausted''" "held P v"
        then show ?thesis
          using leave_panic [OF v(2), where waiting = waiting and p = p and f = f] eval Return True wait by (simp add: step wait_post_def)
      qed (use eval Return True wait in \<open>auto simp: step post_defs\<close>)
    next
      case False
      obtain r w' where e: "end_scope P (run_action P f w) = (r, w')" by fastforce
      then show ?thesis
        using run_and_leave_post(1) [of w waiting p p' f r w'] less.prems eval Return False
        by (simp add: step)
    qed
  next
    case (Panic m)
    then show ?thesis
      using leave_predicate(1) [of w waiting p o1 p' m f] less.prems eval
      by (simp add: step wait_post_def)
  next
    case Blocked
    then show ?thesis
      using leave_predicate(2) [of w waiting p o1 p' f] less.prems eval
      by (simp add: step wait_post_def)
  qed
qed

text \<open>The wait from outside: acquire the monitor, then loop.\<close>

lemma acquire_and_wait_spec:
  assumes "idle P w"
  shows "\<exists>r w'. and_then_loop (acquire_guard (lock_state P) w)
      (\<lambda>_. wait_while_locked P waiting p f wait) = Some (r, w') \<and> wait_post P waiting p f r w'"
proof -
  obtain o1 v where acq: "acquire_guard (lock_state P) w = (o1, v)" by fastforce
  from acquire_spec [OF assms acq] show ?thesis
  proof (elim disjE conjE)
    assume "o1 = Return ()" and "held P v"
    then show ?thesis using acq wait_while_locked_spec by simp
  next
    assume "o1 = Blocked" and "idle P v" "env_holds v" "sched v = []"
    then show ?thesis using acq by (simp add: post_defs stuck_locking_def)
  qed
qed

end

sublocale state_backend \<subseteq> notified: guard_suspension P "wait_for_notification P m (lock_state P)" for m
proof unfold_locales
  show "(r = Return () \<and> held P w' \<and> length (sched w') < length (sched w)) \<or>
      (r = Panic ''monitor waiter identifiers exhausted'' \<and> held P w') \<or>
      (r = Blocked \<and> (stuck_waiting P w' \<or> stuck_locking P w'))"
    if "held P w" "wait_for_notification P m (lock_state P) w = (r, w')" for m w r w'
    using wait_for_notification_spec [OF that] wait_for_notification_progress [of w m "()" w'] that
    by auto
qed

section \<open>The timed loop\<close>

text \<open>
  The contract of one timed suspension: whatever it reports, the guard is held again, and a
  reported wake-up means that another thread made a step.
\<close>

locale timed_suspension = state_backend P
  for P :: "('m, 't, 'k, 'i, 'f, 'e) platform" +
  fixes wait :: "'f \<Rightarrow> ('m, 't, 'k, ('e + WaitTimeoutStatus) \<times> 'f) call"
  assumes suspension: "held P w \<Longrightarrow> wait future w = (r, w') \<Longrightarrow>
      (\<exists>res future'. r = Return (res, future') \<and> held P w' \<and>
         (res = Inr Woken \<longrightarrow> length (sched w') < length (sched w))) \<or>
      (r = Panic ''monitor waiter identifiers exhausted'' \<and> held P w') \<or>
      (r = Blocked \<and> (stuck_waiting P w' \<or> stuck_locking P w'))"
begin

lemma leave_timed:
  assumes "held P w"
  shows "timed_post P waiting p f (Return (Inl e)) (drop_guard P False w)"
    and "waiting p (data P w) = (Return True, p') \<Longrightarrow>
      timed_post P waiting p f (Return (Inr TimedOut)) (drop_guard P False w)"
  using drop_guard_held [OF assms] observed_now [of waiting p "data P w"] by (auto simp: timed_post_def)

text \<open>One evaluation of the predicate under the guard: act, or go on with \<open>rest\<close>.\<close>

lemma turn:
  assumes "held P v"
    and rest: "\<And>p'. waiting p (data P v) = (Return True, p') \<Longrightarrow>
      \<exists>r w'. rest p' = Some (r, w') \<and> timed_post P waiting p f r w'"
  shows "\<exists>r w'. (case eval_predicate P waiting p v of
             (Return blocking, p') \<Rightarrow>
               (if \<not> blocking
                then Some (end_scope P (apfst (map_outcome (\<lambda>r. Inr (Ready r))) (run_action P f v)))
                else rest p')
           | (Panic m, p') \<Rightarrow> Some (end_scope P (Panic m, v))
           | (Blocked, p') \<Rightarrow> Some (Blocked, v)) = Some (r, w') \<and> timed_post P waiting p f r w'"
proof -
  obtain o1 p' where eval: "waiting p (data P v) = (o1, p')" by fastforce
  show ?thesis
  proof (cases o1)
    case (Return b)
    show ?thesis
    proof (cases b)
      case True
      then show ?thesis
        using rest [of p'] eval Return by (simp add: eval_predicate_held [OF assms(1)])
    next
      case False
      obtain r :: "('e + _ WaitTimeoutResult) outcome" and w' where
        "end_scope P (apfst (map_outcome (\<lambda>r. Inr (Ready r))) (run_action P f v)) = (r, w')"
        by fastforce
      then show ?thesis
        using run_and_leave_post(2) [of v waiting p p' f r w'] assms(1) eval Return False
        by (simp add: eval_predicate_held)
    qed
  qed (use leave_predicate [of v waiting p o1 p', where f = f] assms(1) eval in
      \<open>simp_all add: eval_predicate_held timed_post_def\<close>)
qed

lemma wait_while_with_timer_locked_spec:
  assumes "held P w"
  shows "\<exists>r w'. wait_while_with_timer_locked P future waiting p f wait w = Some (r, w') \<and>
    timed_post P waiting p f r w'"
  using assms
proof (induction "length (sched w)" arbitrary: p w future rule: less_induct)
  case less
  note step = wait_while_with_timer_locked.simps [of P future waiting p f wait w]
  obtain o1 v where wait: "wait future w = (o1, v)" by fastforce
  from suspension [OF less.prems wait] show ?case
  proof (elim disjE conjE exE)
    fix res future'
    assume r: "o1 = Return (res, future')" and v: "held P v"
      and short: "res = Inr Woken \<longrightarrow> length (sched v) < length (sched w)"
    show ?thesis
    proof (cases res)
      case (Inl e)
      then show ?thesis using wait r leave_timed(1) [OF v, where f = f] by (simp add: step)
    next
      case (Inr status)
      have "\<exists>r w'. (if status_is_timed_out status then Some (end_scope P (Return (Inr TimedOut), v))
            else wait_while_with_timer_locked P future' waiting p' f wait v) = Some (r, w') \<and>
          timed_post P waiting p f r w'" if "waiting p (data P v) = (Return True, p')" for p'
        using less.hyps [OF _ v, of future' p'] short Inr leave_timed(2) [of v waiting p p' f] v
          post_later(2) [of waiting p "data P v" p', OF that] that
        by (cases status) auto
      from turn [OF v this] show ?thesis using wait r Inr by (simp add: step)
    qed
  next
    assume "o1 = Panic ''monitor waiter identifiers exhausted''" and v: "held P v"
    then show ?thesis
      using leave_panic [OF v, where waiting = waiting and p = p and f = f] wait
      by (simp add: step timed_post_def)
  qed (use wait in \<open>auto simp: step post_defs\<close>)
qed

text \<open>
  The two entry points. The predicate has answered ``keep waiting'' on the value under the guard,
  and the Timer calls before the first suspension do not change that value.
\<close>

lemma acquire_and_turn:
  assumes "idle P w"
    and body: "\<And>v. held P v \<Longrightarrow> \<exists>r w'. body v = Some (r, w') \<and> timed_post P waiting p f r w'"
  shows "\<exists>r w'. and_then_loop (acquire_guard (lock_state P) w) (\<lambda>_. body) = Some (r, w') \<and>
    timed_post P waiting p f r w'"
proof -
  obtain o1 v where acq: "acquire_guard (lock_state P) w = (o1, v)" by fastforce
  from acquire_spec [OF assms(1) acq] show ?thesis
  proof (elim disjE conjE)
    assume "o1 = Return ()" and "held P v"
    then show ?thesis using acq body by simp
  next
    assume "o1 = Blocked" and "idle P v" "env_holds v" "sched v = []"
    then show ?thesis using acq by (simp add: post_defs stuck_locking_def)
  qed
qed

lemma enter_loop:
  assumes "held P v" and "waiting p (data P v) = (Return True, p')"
  shows "\<exists>r w'. (case timer_at P deadline v of
         (Inl e, w) \<Rightarrow> Some (end_scope P (Return (Inl e), w))
       | (Inr future, w) \<Rightarrow> wait_while_with_timer_locked P future waiting p' f wait w) = Some (r, w') \<and>
    timed_post P waiting p f r w'"
proof -
  obtain y v1 where at: "timer_at P deadline v = (y, v1)" by fastforce
  have h1: "held P v1" using timer_calls_held(2) [OF assms(1) at] by simp
  show ?thesis
  proof (cases y)
    case (Inl e)
    then show ?thesis using at leave_timed(1) [OF h1, where f = f] by simp
  next
    case (Inr future)
    then show ?thesis
      using at wait_while_with_timer_locked_spec [OF h1, of future waiting p' f]
        post_later(2) [of waiting p "data P v" p', OF assms(2)] by auto
  qed
qed

lemma wait_while_for_spec:
  assumes "idle P w"
  shows "\<exists>r w'. wait_while_for P timeout (acquire_guard (lock_state P)) waiting p f wait w = Some (r, w') \<and>
    timed_post P waiting p f r w'"
  unfolding wait_while_for_def
proof (rule acquire_and_turn [OF assms])
  fix v assume "held P v"
  obtain started v1 where now: "timer_now P v = (started, v1)" by fastforce
  have h1: "held P v1" using timer_calls_held(1) [OF \<open>held P v\<close> now] by simp
  show "\<exists>r w'. (let (started_at, w) = timer_now P v in
           case eval_predicate P waiting p w of
             (Panic m, p) \<Rightarrow> Some (end_scope P (Panic m, w))
           | (Blocked, p) \<Rightarrow> Some (Blocked, w)
           | (Return blocking, p) \<Rightarrow>
               (if \<not> blocking
                then Some (end_scope P (apfst (map_outcome (\<lambda>r. Inr (Ready r))) (run_action P f w)))
                else if duration_is_zero timeout
                then Some (end_scope P (Return (Inr TimedOut), w))
                else case tm_checked_add (tm P) started_at timeout of
                       Inl e \<Rightarrow> Some (end_scope P (Return (Inl e), w))
                     | Inr deadline \<Rightarrow>
                         (case timer_at P deadline w of
                            (Inl e, w) \<Rightarrow> Some (end_scope P (Return (Inl e), w))
                          | (Inr future, w) \<Rightarrow>
                              wait_while_with_timer_locked P future waiting p f wait w))) =
        Some (r, w') \<and> timed_post P waiting p f r w'"
    unfolding now Let_def case_prod_conv
    using leave_timed(1) [OF h1, of waiting p f] leave_timed(2) [OF h1, of waiting p _ f]
      enter_loop [OF h1, of waiting p, where f = f]
    by (intro turn [OF h1]) (auto split: sum.split)
qed

lemma wait_while_with_deadline_spec:
  assumes "idle P w"
  shows "\<exists>r w'. wait_while_with_deadline P deadline (acquire_guard (lock_state P)) waiting p f wait w = Some (r, w') \<and>
    timed_post P waiting p f r w'"
  unfolding wait_while_with_deadline_def
proof (intro acquire_and_turn [OF assms] turn)
  fix v p' assume v: "held P v" and eval: "waiting p (data P v) = (Return True, p')"
  obtain y v1 where at: "timer_at P deadline v = (y, v1)" by fastforce
  note h1 = timer_calls_held(2) [OF v at]
  show "\<exists>r w'. (case timer_at P deadline v of
                  (Inl e, w) \<Rightarrow> Some (end_scope P (Return (Inl e), w))
                | (Inr future, w) \<Rightarrow>
                    (case poll_timer_without_waiter P future w of
                       (Poll_ready (Inl e), future, w) \<Rightarrow> Some (end_scope P (Return (Inl e), w))
                     | (Poll_ready (Inr _), future, w) \<Rightarrow>
                         Some (end_scope P (Return (Inr TimedOut), w))
                     | (Poll_pending, future, w) \<Rightarrow>
                         wait_while_with_timer_locked P future waiting p' f wait w)) = Some (r, w') \<and>
      timed_post P waiting p f r w'"
  proof (cases y)
    case (Inl e)
    then show ?thesis using at leave_timed(1) [of v1 waiting p f] h1 by simp
  next
    case (Inr future)
    obtain pr future' v2 where poll: "poll_timer_without_waiter P future v1 = (pr, future', v2)"
      by (cases "poll_timer_without_waiter P future v1")
    have h2: "held P v2" "data P v2 = data P v"
      using timer_calls_held(4) [OF _ poll] h1 by auto
    show ?thesis
      using at Inr poll h2 eval
        leave_timed(1) [OF h2(1), of waiting p f] leave_timed(2) [OF h2(1), of waiting p _ f]
        wait_while_with_timer_locked_spec [OF h2(1), of future' waiting p' f]
        post_later(2) [of waiting p "data P v" p', OF eval]
      by (auto split: poll.split sum.split)
  qed
qed

end

sublocale state_backend \<subseteq> timed: timed_suspension P "wait_with_timer P m (lock_state P)" for m
  by unfold_locales (rule wait_with_timer_spec)

end
