(* ===== verification/Monitor_Ops_Spec.thy ===== *)
theory Monitor_Ops_Spec
  imports Wait_Loops_Spec
begin

text \<open>
  Notifications and closure-based access, for any backend that meets \<open>state_backend\<close>: which
  waiters a notification signals, that it leaves the thread's own state alone, and that a closure
  runs exactly once on the value it was handed.
\<close>

section \<open>Notifications\<close>

text \<open>The waiters that would go on if they looked at their latch.\<close>

definition signalled_set :: "('m, 't, 'k) world \<Rightarrow> nat set" where
  "signalled_set w = {a. a < length (arena w) \<and> is_signalled (arena w ! a)}"

lemma signalled_set_wake:
  "a < length (arena w) \<Longrightarrow> signalled_set (wake_waiter a w) = insert a (signalled_set w)"
  by (auto simp: signalled_set_def wake_waiter_def)

lemma wake_each_quiet:
  "sched w = [] \<Longrightarrow> wake_each P as w = wake_waiters as w"
  by (induction as arbitrary: w) (simp_all add: wake_waiters_def wake_waiter_def)

text \<open>With no other thread running, the effect is exact.\<close>

lemma notify_one_quiet:
  assumes "queue_inv w" and "sched w = []" and "bwr_notify_one P w = (r, w')"
  shows "active w' = tl (active w)" and "mon_state w' = mon_state w"
    and "signalled_set w' = signalled_set w \<union> snd ` set (take 1 (active w))"
proof -
  note eq = bwr_take_one_eq [of w]
  show "active w' = tl (active w)" and "mon_state w' = mon_state w"
    using assms(2,3)
    by (cases "active w"; auto simp: bwr_notify_one_def eq wake_waiter_def)+
  show "signalled_set w' = signalled_set w \<union> snd ` set (take 1 (active w))"
  proof (cases "active w")
    case Nil
    then show ?thesis using assms(2,3) by (auto simp: bwr_notify_one_def eq signalled_set_def)
  next
    case (Cons e q)
    then have "snd e < length (arena w)" using queue_invD(3) [OF assms(1)] by simp
    then show ?thesis
      using assms(2,3) Cons
      by (cases e) (auto simp: bwr_notify_one_def eq signalled_set_def wake_waiter_def)
  qed
qed

lemma notify_all_quiet:
  assumes "queue_inv w" and "sched w = []" and "bwr_notify_all P w = (r, w')"
  shows "active w' = []" and "mon_state w' = mon_state w"
    and "signalled_set w' = signalled_set w \<union> snd ` set (active w)"
proof -
  have w': "w' = wake_waiters (map snd (active w)) (snd (bwr_take_all w))"
    using assms(2,3) by (auto simp: bwr_notify_all_def bwr_take_all_eq wake_each_quiet)
  show "active w' = []" and "mon_state w' = mon_state w"
    by (simp_all add: w' bwr_take_all_eq wake_waiters_eq)
  show "signalled_set w' = signalled_set w \<union> snd ` set (active w)"
    using queue_invD(3) [OF assms(1)]
    by (force simp: w' bwr_take_all_eq wake_waiters_eq signalled_set_def)
qed

text \<open>
  Under interference the selected waiters are those registered at the moment of selection, and
  each of them ends up signalled.
\<close>

lemma signalled_env_step: "a \<in> signalled_set w \<Longrightarrow> a \<in> signalled_set (env_step P s w)"
proof (cases s)
  case (EnvSpurious b)
  then show "a \<in> signalled_set w \<Longrightarrow> ?thesis"
    by (cases "b = a") (auto simp: signalled_set_def is_signalled_def)
qed (auto simp: signalled_set_def bwr_register_def bwr_take_one_eq bwr_take_all_eq bwr_unregister_def
    wake_waiter_def wake_waiters_eq nth_append Let_def
    split: outcome.splits option.splits prod.splits list.splits)

lemma signalled_stable: "env_stable P (\<lambda>w. a \<in> signalled_set w)"
  by (rule env_stableI) (auto simp: signalled_env_step, simp add: signalled_set_def)

lemma arena_env_step: "length (arena w) \<le> length (arena (env_step P s w))"
  by (cases s)
    (auto simp: bwr_register_def bwr_take_one_eq bwr_take_all_eq bwr_unregister_def
      wake_waiter_def wake_waiters_eq Let_def
      split: outcome.splits option.splits prod.splits list.splits)

lemma arena_stable: "env_stable P (\<lambda>w. n \<le> length (arena w))"
  by (rule env_stableI) (auto intro: order_trans [OF _ arena_env_step])

lemma wake_each_signals:
  "\<forall>a \<in> set as. a < length (arena w) \<Longrightarrow>
   signalled_set w \<union> set as \<subseteq> signalled_set (wake_each P as w)"
proof (induction as arbitrary: w)
  case Nil
  then show ?case by simp
next
  case (Cons a as)
  define v where "v = interfere P w"
  have len: "length (arena w) \<le> length (arena v)"
    unfolding v_def using env_stable_interfere [OF arena_stable order_refl] .
  have "a < length (arena v)" using Cons.prems len by auto
  then have wake: "signalled_set (wake_waiter a v) = insert a (signalled_set v)"
    by (rule signalled_set_wake)
  have "signalled_set w \<subseteq> signalled_set v"
    unfolding v_def using env_stable_interfere [OF signalled_stable] by blast
  moreover have "signalled_set (wake_waiter a v) \<union> set as \<subseteq> signalled_set (wake_each P as (wake_waiter a v))"
    using Cons.prems len by (intro Cons.IH) (auto simp: wake_waiter_def)
  ultimately have "signalled_set w \<union> set (a # as) \<subseteq> signalled_set (wake_each P as (wake_waiter a v))"
    by (auto simp: wake)
  then show ?case by (simp add: v_def)
qed

section \<open>The thread's own state\<close>

context state_backend
begin

lemma idle_take_one: "idle P w \<Longrightarrow> idle P (snd (bwr_take_one w))"
proof -
  assume w: "idle P w"
  have "queue_inv (snd (bwr_take_one w))"
    using w queue_inv_take_one [of w P]
    by (cases "active w") (auto simp: idle_def world_inv_def bwr_take_one_eq queue_inv_def)
  then show ?thesis
    using w by (cases "active w")
      (auto simp: idle_def world_inv_def lock_inv_def regs_within_def bwr_take_one_eq)
qed

lemma idle_take_all: "idle P w \<Longrightarrow> idle P (snd (bwr_take_all w))"
proof -
  assume w: "idle P w"
  have "queue_inv (snd (bwr_take_all w))"
    using w queue_inv_take_all [of w P]
    by (auto simp: idle_def world_inv_def bwr_take_all_eq queue_inv_def)
  then show ?thesis
    using w by (auto simp: idle_def world_inv_def lock_inv_def regs_within_def bwr_take_all_eq)
qed

lemma idle_wake: "idle P w \<Longrightarrow> idle P (wake_waiter a w)"
  by (simp add: idle_def world_inv_def lock_inv_def regs_within_def wake_waiter_def queue_inv_arena)

lemma idle_wake_each: "idle P w \<Longrightarrow> idle P (wake_each P as w)"
  by (induction as arbitrary: w) (simp_all add: idle_wake idle_interfere)

text \<open>A notification keeps the caller's state and signals every waiter it selects.\<close>

lemma notify_one_spec:
  assumes "idle P w"
  shows "\<exists>w'. bwr_notify_one P w = (Return (), w') \<and> idle P w' \<and>
    snd ` set (take 1 (active (interfere P w))) \<subseteq> signalled_set w'"
proof -
  define v where "v = interfere P w"
  have v: "idle P v" using assms unfolding v_def by (rule idle_interfere)
  show ?thesis
  proof (cases "active v")
    case Nil
    then show ?thesis
      using idle_take_one [OF v]
      by (simp add: bwr_notify_one_def v_def [symmetric] bwr_take_one_eq)
  next
    case (Cons e q)
    define u where "u = snd (bwr_take_one v)"
    have "length (arena u) \<le> length (arena (interfere P u))"
      using env_stable_interfere [OF arena_stable order_refl] .
    moreover have "snd e < length (arena u)"
      using v Cons queue_invD(3) [of v] by (simp add: u_def bwr_take_one_eq idle_def world_inv_def)
    ultimately have "snd e \<in> signalled_set (wake_waiter (snd e) (interfere P u))"
      by (simp add: signalled_set_wake)
    moreover have "idle P (wake_waiter (snd e) (interfere P u))"
      unfolding u_def by (intro idle_wake idle_interfere idle_take_one v)
    moreover have "bwr_notify_one P w = (Return (), wake_waiter (snd e) (interfere P u))"
      using Cons by (simp add: bwr_notify_one_def v_def [symmetric] u_def bwr_take_one_eq)
    ultimately show ?thesis using Cons by (simp add: v_def [symmetric])
  qed
qed

lemma notify_all_spec:
  assumes "idle P w"
  shows "\<exists>w'. bwr_notify_all P w = (Return (), w') \<and> idle P w' \<and>
    snd ` set (active (interfere P w)) \<subseteq> signalled_set w'"
proof -
  define v where "v = interfere P w"
  define u where "u = snd (bwr_take_all v)"
  have v: "idle P v" using assms unfolding v_def by (rule idle_interfere)
  have eq: "bwr_notify_all P w = (Return (), wake_each P (map snd (active v)) u)"
    by (simp add: bwr_notify_all_def v_def [symmetric] u_def bwr_take_all_eq)
  have "\<forall>a \<in> set (map snd (active v)). a < length (arena u)"
    using v queue_invD(3) [of v] by (auto simp: u_def bwr_take_all_eq idle_def world_inv_def)
  then have "set (map snd (active v)) \<subseteq> signalled_set (wake_each P (map snd (active v)) u)"
    using wake_each_signals by blast
  moreover have "idle P (wake_each P (map snd (active v)) u)"
    unfolding u_def by (intro idle_wake_each idle_take_all v)
  ultimately show ?thesis using eq by (simp add: v_def [symmetric])
qed

section \<open>Closures\<close>

text \<open>\<^verbatim>\<open>with_write\<close>: the action runs once, on the value the acquisition found.\<close>

lemma with_write_spec:
  assumes "idle P w"
    and "and_then (acquire_guard (lock_state P) w) (\<lambda>_ w. end_scope P (run_action P f w)) = (r, w')"
  shows "(\<exists>v. acquire_guard (lock_state P) w = (Return (), v) \<and> f (data P v) = (r, data P w') \<and>
            (if r = Blocked then held P w' else idle P w')) \<or>
         (r = Blocked \<and> stuck_locking P w')"
proof -
  obtain o1 v where acq: "acquire_guard (lock_state P) w = (o1, v)" by fastforce
  from acquire_spec [OF assms(1) acq] show ?thesis
  proof (elim disjE conjE)
    assume o1: "o1 = Return ()" and v: "held P v"
    obtain o2 u where run: "run_action P f v = (o2, u)" by fastforce
    note h = run_action_held [OF v run]
    have "end_scope P (o2, u) = (r, w')" using assms(2) acq o1 run by simp
    note e = end_scope_held [OF h(1) this]
    show ?thesis using acq o1 h(2) e by auto
  next
    assume "o1 = Blocked" and "idle P v" "env_holds v" "sched v = []"
    then show ?thesis using acq assms(2) by (auto simp: stuck_locking_def)
  qed
qed

text \<open>Writing and notifying is writing, then notifying after the guard is gone.\<close>

lemma acquire_occupies: "acquire_guard lock w = (Return x, v) \<Longrightarrow> inner v \<noteq> None"
  by (auto simp: acquire_guard_def elim!: and_then_ReturnD)

lemma run_action_inner: "run_action P f v = (r, u) \<Longrightarrow> inner u = inner v"
  by (auto simp: run_action_def split: outcome.splits prod.splits)

lemma write_then_notify:
  "and_then (acquire_guard (lock_state P) w) (\<lambda>_ w.
     and_then (on_unwind (drop_guard P True) (run_action P f w)) (\<lambda>result w.
     and_then (and_then (release_guard P m w) (\<lambda>_ w. notify w)) (\<lambda>_ w. (Return result, w)))) =
   and_then (and_then (acquire_guard (lock_state P) w) (\<lambda>_ w. end_scope P (run_action P f w)))
     (\<lambda>result w. and_then (notify w) (\<lambda>_ w. (Return result, w)))"
proof (cases "acquire_guard (lock_state P) w" rule: outcome_pair_cases)
  case (Return x v)
  then obtain g where g: "inner v = Some g" using acquire_occupies by fastforce
  show ?thesis
  proof (cases "run_action P f v" rule: outcome_pair_cases)
    case r: (Return y u)
    then have "inner u = Some g" using run_action_inner g by fastforce
    then show ?thesis using Return r by (simp add: release_guard_def)
  qed (simp_all add: Return)
qed simp_all

end

end
