(* ===== verification/Monitor_Regions.thy ===== *)
theory Monitor_Regions
  imports Monitor_Ops_Spec
begin

text \<open>
  What a blocking monitor does to the protected value while other threads write it too. The other
  threads are constrained by a rely: each of their writes is some number of steps \<open>S\<close>. Then a call
  is steps of the others, the caller's own closure applied once, atomically, and again steps of the
  others: a conditional critical region. This is what a client of the monitor reasons with.
\<close>

section \<open>Regions\<close>

text \<open>Every write another thread is going to make is a sequence of steps of \<open>S\<close>.\<close>

definition writes_within :: "('t \<Rightarrow> 't \<Rightarrow> bool) \<Rightarrow> ('m, 't, 'k) world \<Rightarrow> bool" where
  "writes_within S w \<longleftrightarrow>
     (\<forall>as \<in> set (sched w). \<forall>g. EnvWrite g \<in> set as \<longrightarrow> (\<forall>d. S\<^sup>*\<^sup>* d (g d)))"

text \<open>From \<open>w\<close> to \<open>w'\<close> only the other threads have changed the value.\<close>

definition drift ::
  "('m, 't, 'k, 'i, 'f, 'e) platform \<Rightarrow> ('t \<Rightarrow> 't \<Rightarrow> bool) \<Rightarrow> ('m, 't, 'k) world \<Rightarrow>
   ('m, 't, 'k) world \<Rightarrow> bool"
where
  "drift P S w w' \<longleftrightarrow>
     (writes_within S w \<longrightarrow> writes_within S w' \<and> S\<^sup>*\<^sup>* (data P w) (data P w'))"

text \<open>Between the values \<open>a\<close> and \<open>b\<close> the action ran once, on a value the predicate had released.\<close>

definition acts_within ::
  "('t \<Rightarrow> 't \<Rightarrow> bool) \<Rightarrow> ('p, 't) predicate \<Rightarrow> ('t, 'r) action \<Rightarrow> 't \<Rightarrow> 'r outcome \<Rightarrow> 't \<Rightarrow> bool"
where
  "acts_within S waiting f a r b \<longleftrightarrow>
     (\<exists>d d' q q'. S\<^sup>*\<^sup>* a d \<and> waiting q d = (Return False, q') \<and> f d = (r, d') \<and> S\<^sup>*\<^sup>* d' b)"

text \<open>Between the values \<open>a\<close> and \<open>b\<close> the predicate was seen to block, and nothing was done.\<close>

definition seen_blocking ::
  "('t \<Rightarrow> 't \<Rightarrow> bool) \<Rightarrow> ('p, 't) predicate \<Rightarrow> 't \<Rightarrow> 't \<Rightarrow> bool"
where
  "seen_blocking S waiting a b \<longleftrightarrow>
     (\<exists>d q q'. S\<^sup>*\<^sup>* a d \<and> waiting q d = (Return True, q') \<and> S\<^sup>*\<^sup>* d b)"

definition wait_region ::
  "('t \<Rightarrow> 't \<Rightarrow> bool) \<Rightarrow> ('p, 't) predicate \<Rightarrow> ('t, 'r) action \<Rightarrow> 't \<Rightarrow> 'r outcome \<Rightarrow> 't \<Rightarrow> bool"
where
  "wait_region S waiting f a r b = (case r of
       Return x \<Rightarrow> acts_within S waiting f a (Return x) b
     | Panic m \<Rightarrow> S\<^sup>*\<^sup>* a b \<or> acts_within S waiting f a (Panic m) b
     | Blocked \<Rightarrow> S\<^sup>*\<^sup>* a b \<or> acts_within S waiting f a Blocked b)"

definition timed_region ::
  "('t \<Rightarrow> 't \<Rightarrow> bool) \<Rightarrow> ('p, 't) predicate \<Rightarrow> ('t, 'r) action \<Rightarrow> 't \<Rightarrow>
   ('e + 'r WaitTimeoutResult) outcome \<Rightarrow> 't \<Rightarrow> bool"
where
  "timed_region S waiting f a r b = (case r of
       Return (Inl e) \<Rightarrow> S\<^sup>*\<^sup>* a b
     | Return (Inr TimedOut) \<Rightarrow> seen_blocking S waiting a b
     | Return (Inr (Ready x)) \<Rightarrow> acts_within S waiting f a (Return x) b
     | Panic m \<Rightarrow> S\<^sup>*\<^sup>* a b \<or> acts_within S waiting f a (Panic m) b
     | Blocked \<Rightarrow> S\<^sup>*\<^sup>* a b \<or> acts_within S waiting f a Blocked b)"

lemmas region_defs = wait_region_def timed_region_def

lemma acts_before: "S\<^sup>*\<^sup>* a b \<Longrightarrow> acts_within S waiting f b r c \<Longrightarrow> acts_within S waiting f a r c"
  unfolding acts_within_def by (meson rtranclp_trans)

lemma acts_after: "acts_within S waiting f a r b \<Longrightarrow> S\<^sup>*\<^sup>* b c \<Longrightarrow> acts_within S waiting f a r c"
  unfolding acts_within_def by (meson rtranclp_trans)

lemma seen_blocking_before: "S\<^sup>*\<^sup>* a b \<Longrightarrow> seen_blocking S waiting b c \<Longrightarrow> seen_blocking S waiting a c"
  unfolding seen_blocking_def by (meson rtranclp_trans)

lemmas region_intros = acts_before acts_after seen_blocking_before rtranclp_trans

lemma wait_region_before:
  "S\<^sup>*\<^sup>* a b \<Longrightarrow> wait_region S waiting f b r c \<Longrightarrow> wait_region S waiting f a r c"
  by (cases r) (auto simp: wait_region_def intro: region_intros)

lemma timed_region_before:
  "S\<^sup>*\<^sup>* a b \<Longrightarrow> timed_region S waiting f b r c \<Longrightarrow> timed_region S waiting f a r c"
  by (auto simp: timed_region_def intro: region_intros
      split: outcome.splits sum.splits WaitTimeoutResult.splits)

text \<open>
  An invariant of the value that the steps of the others and the action keep is kept by the whole
  call, whatever its outcome.
\<close>

lemma steps_invariant:
  assumes "S\<^sup>*\<^sup>* a b" and "\<And>d d'. I d \<Longrightarrow> S d d' \<Longrightarrow> I d'" and "I a"
  shows "I b"
  using assms(1,3) by (induction rule: rtranclp_induct) (auto intro: assms(2))

lemma wait_region_invariant:
  assumes "wait_region S waiting f a r b" and "I a"
    and "\<And>d d'. I d \<Longrightarrow> S d d' \<Longrightarrow> I d'"
    and "\<And>q q' d r d'. I d \<Longrightarrow> waiting q d = (Return False, q') \<Longrightarrow> f d = (r, d') \<Longrightarrow> I d'"
  shows "I b"
proof -
  have steps: "I y" if "S\<^sup>*\<^sup>* x y" "I x" for x y
    using steps_invariant [of S x y I] that assms(3) by blast
  have "I b" if "acts_within S waiting f a r b"
    using that assms(2,4) steps unfolding acts_within_def by metis
  then show ?thesis using assms(1,2) steps by (cases r) (auto simp: wait_region_def)
qed

section \<open>Drift\<close>

lemma drift_refl [simp]: "drift P S w w"
  by (simp add: drift_def)

lemma drift_trans [trans]: "drift P S u v \<Longrightarrow> drift P S v w \<Longrightarrow> drift P S u w"
  unfolding drift_def by (meson rtranclp_trans)

lemma drift_frame: "data P w' = data P w \<Longrightarrow> sched w' = sched w \<Longrightarrow> drift P S w w'"
  by (simp add: drift_def writes_within_def)

context state_backend
begin

lemma env_step_data:
  "data P (env_step P a w) = data P w \<or> (\<exists>g. a = EnvWrite g \<and> data P (env_step P a w) = g (data P w))"
  by (cases a)
    (auto simp: bwr_register_def bwr_take_one_def bwr_take_all_def bwr_unregister_def
      wake_waiter_def wake_waiters_eq Let_def split: outcome.splits option.splits prod.splits)

lemma env_run_data:
  "(\<And>g d. EnvWrite g \<in> set as \<Longrightarrow> S\<^sup>*\<^sup>* d (g d)) \<Longrightarrow> S\<^sup>*\<^sup>* (data P w) (data P (env_run P as w))"
proof (induction as arbitrary: w)
  case Nil
  then show ?case by (simp add: env_run_def)
next
  case (Cons a as)
  have "S\<^sup>*\<^sup>* (data P w) (data P (env_step P a w))"
    using env_step_data [of a w] Cons.prems by (metis list.set_intros(1) rtranclp.rtrancl_refl)
  also have "S\<^sup>*\<^sup>* (data P (env_step P a w)) (data P (env_run P as (env_step P a w)))"
    using Cons.prems by (intro Cons.IH) simp
  finally show ?case by (simp add: env_run_def)
qed

lemma drift_turn: "sched w = as # rest \<Longrightarrow> drift P S w (env_run P as (w\<lparr>sched := rest\<rparr>))"
  using env_run_data [of as S "w\<lparr>sched := rest\<rparr>"] by (auto simp: drift_def writes_within_def)

lemma drift_interfere: "drift P S w (interfere P w)"
  by (simp add: interfere_def drift_turn split: list.split)

lemma drift_block_until: "block_until P ready w = (ok, w') \<Longrightarrow> drift P S w w'"
proof (induction "length (sched w)" arbitrary: w rule: less_induct)
  case less
  show ?case
  proof (cases "ready w \<or> sched w = []")
    case True
    then show ?thesis using less.prems by (auto simp: block_until.simps [of P ready w] split: if_splits)
  next
    case False
    then obtain as rest where s: "sched w = as # rest" by (cases "sched w") auto
    have "drift P S (env_run P as (w\<lparr>sched := rest\<rparr>)) w'"
      using False less.prems s by (intro less.hyps) (simp_all add: block_until.simps [of P ready w])
    then show ?thesis using drift_trans [OF drift_turn [OF s]] by blast
  qed
qed

subsection \<open>Steps of the calling thread\<close>

lemma drift_after_interfere:
  "data P w' = data P (interfere P w) \<Longrightarrow> sched w' = sched (interfere P w) \<Longrightarrow> drift P S w w'"
  using drift_interfere drift_frame by (metis drift_trans)

lemma drift_acquire:
  assumes "acquire_guard (lock_state P) w = (r, w')"
  shows "drift P S w w'"
proof -
  obtain ok v where block:
    "block_until P (\<lambda>v. bk_free (bk P) (mon_state v)) (interfere P w) = (ok, v)" by fastforce
  have "drift P S w v" using drift_trans [OF drift_interfere drift_block_until [OF block]] .
  also have "drift P S v w'"
  proof -
    obtain g m where lock: "bk_lock (bk P) (mon_state v) = (g, m)" by fastforce
    have "bk_deref (bk P) m = data P v" using lock_keeps [of "mon_state v", unfolded lock] by simp
    then show ?thesis
      using assms block lock
      by (auto simp: acquire_guard_def lock_state_def split: if_splits intro!: drift_frame)
  qed
  finally show ?thesis .
qed

lemma drift_drop_guard: "drift P S w (drop_guard P b w)"
  by (auto simp: drop_guard_def Let_def split: option.split intro!: drift_after_interfere)

lemma drift_release_guard: "release_guard P m w = (r, w') \<Longrightarrow> drift P S w w'"
  using drift_drop_guard by (auto simp: release_guard_def split: option.splits)

lemma drift_end_scope: "end_scope P (r, w) = (r', w') \<Longrightarrow> r' = r \<and> drift P S w w'"
  using drift_drop_guard by (cases r) (auto simp: end_scope_def)

lemma drift_register: "register_waiter P w = (r, w') \<Longrightarrow> drift P S w w'"
  by (auto simp: register_waiter_def bwr_register_def Let_def split: prod.splits
      intro!: drift_after_interfere)

lemma drift_registration_drop: "drift P S w (registration_drop P g w)"
  by (auto simp: registration_drop_def bwr_unregister_def Let_def split: prod.splits
      intro!: drift_after_interfere)

lemma drift_wait_loop: "waiter_wait_loop P a w = (r, w') \<Longrightarrow> drift P S w w'"
proof (induction "length (sched w)" arbitrary: w rule: less_induct)
  case less
  let ?w = "w\<lparr>arena := (arena w)[a := waiter_park (arena w ! a)]\<rparr>"
  have parked: "drift P S w ?w" by (rule drift_frame) simp_all
  show ?case
  proof (cases "is_signalled (arena w ! a) \<or> sched w = []")
    case True
    then show ?thesis
      using less.prems parked by (auto simp: waiter_wait_loop.simps [of P a w] Let_def split: if_splits)
  next
    case False
    then obtain as rest where s: "sched w = as # rest" by (cases "sched w") auto
    obtain ok v where block: "block_until P (\<lambda>v. waiter_woken (arena v ! a))
        (env_run P as (?w\<lparr>sched := rest\<rparr>)) = (ok, v)" by fastforce
    have "drift P S ?w v"
      using drift_trans [OF drift_turn drift_block_until [OF block]] s by simp
    then have v: "drift P S w v" using drift_trans [OF parked] by blast
    show ?thesis
    proof (cases ok)
      case True
      let ?v = "v\<lparr>arena := (arena v)[a := waiter_resume (arena v ! a)]\<rparr>"
      have "length (sched v) < length (sched w)" using block_until_sched [OF block] s by simp
      moreover have "waiter_wait_loop P a ?v = (r, w')"
        using less.prems False s block True by (simp add: waiter_wait_loop.simps [of P a w])
      ultimately have "drift P S ?v w'" by (intro less.hyps) simp_all
      moreover have "drift P S v ?v" by (rule drift_frame) simp_all
      ultimately show ?thesis using v drift_trans by blast
    next
      case False
      then show ?thesis
        using less.prems \<open>\<not> (is_signalled (arena w ! a) \<or> sched w = [])\<close> s block v
        by (simp add: waiter_wait_loop.simps [of P a w])
    qed
  qed
qed

lemma drift_waiter_wait: "waiter_wait P a w = (r, w') \<Longrightarrow> drift P S w w'"
  unfolding waiter_wait_def using drift_trans [OF drift_interfere drift_wait_loop] .

lemma drift_timer:
  "timer_now P w = (x, w') \<Longrightarrow> drift P S w w'"
  "timer_deadline_after P du w = (x1, w') \<Longrightarrow> drift P S w w'"
  "timer_at P i w = (y, w') \<Longrightarrow> drift P S w w'"
  "poll_timer_without_waiter P fu w = (pr, fu', w') \<Longrightarrow> drift P S w w'"
  "poll_timer P a fu w = (pr, fu', w') \<Longrightarrow> drift P S w w'"
  by (auto simp: timer_now_def timer_deadline_after_def timer_at_def poll_timer_without_waiter_def
      poll_timer_def poll_future_def Let_def split: prod.splits intro!: drift_after_interfere)

lemma drift_notify_one: "bwr_notify_one P w = (r, w') \<Longrightarrow> drift P S w w'"
proof -
  assume notify: "bwr_notify_one P w = (r, w')"
  obtain x v where take: "bwr_take_one (interfere P w) = (x, v)" by fastforce
  have v: "drift P S w v"
    using take by (auto simp: bwr_take_one_def split: prod.splits intro!: drift_after_interfere)
  show ?thesis
  proof (cases x)
    case None
    then show ?thesis using notify take v by (simp add: bwr_notify_one_def)
  next
    case (Some a)
    then have "drift P S v w'"
      using notify take by (auto simp: bwr_notify_one_def wake_waiter_def intro!: drift_after_interfere)
    then show ?thesis using drift_trans [OF v] by blast
  qed
qed

lemma drift_wake_each: "drift P S w (wake_each P as w)"
proof (induction as arbitrary: w)
  case (Cons a as)
  have "drift P S w (wake_waiter a (interfere P w))"
    by (rule drift_after_interfere) (simp_all add: wake_waiter_def)
  then show ?case using drift_trans Cons.IH by fastforce
qed simp

lemma drift_notify_all: "bwr_notify_all P w = (r, w') \<Longrightarrow> drift P S w w'"
proof -
  assume notify: "bwr_notify_all P w = (r, w')"
  obtain as v where take: "bwr_take_all (interfere P w) = (as, v)" by fastforce
  have "drift P S w v"
    using take by (auto simp: bwr_take_all_def split: prod.splits intro!: drift_after_interfere)
  then show ?thesis
    using notify take drift_trans [OF _ drift_wake_each] by (auto simp: bwr_notify_all_def)
qed

subsection \<open>Suspensions\<close>

lemma drift_suspend:
  assumes "and_then (on_unwind (registration_drop P g) (release_guard P m w)) (\<lambda>_ w.
     and_then (waiter_wait P a w) (\<lambda>_ w.
     acquire_guard (lock_state P) (registration_drop P g w))) = (r, w')"
  shows "drift P S w w'"
proof (cases "release_guard P m w" rule: outcome_pair_cases)
  case (Return x v)
  have v: "drift P S w v" using drift_release_guard [OF Return] .
  show ?thesis
  proof (cases "waiter_wait P a v" rule: outcome_pair_cases)
    case wait: (Return y u)
    have "drift P S v u" using drift_waiter_wait [OF wait] .
    also have "drift P S u (registration_drop P g u)" by (rule drift_registration_drop)
    also have "drift P S (registration_drop P g u) w'"
      using assms Return wait by (intro drift_acquire) simp
    finally show ?thesis using drift_trans [OF v] by blast
  qed (use assms Return v drift_waiter_wait drift_trans in \<open>auto; blast\<close>)+
qed (use assms drift_release_guard drift_registration_drop drift_trans in \<open>auto; blast\<close>)+

lemma drift_wait_for_notification:
  assumes "wait_for_notification P m (lock_state P) w = (r, w')"
  shows "drift P S w w'"
proof (cases "register_waiter P w" rule: outcome_pair_cases)
  case (Return g v)
  then have "drift P S v w'"
    using assms by (intro drift_suspend) (simp add: wait_for_notification_def)
  then show ?thesis using drift_trans [OF drift_register [OF Return]] by blast
qed (use assms drift_register in \<open>auto simp: wait_for_notification_def\<close>)

lemma drift_wait_with_timer:
  assumes "wait_with_timer P m (lock_state P) future w = (r, w')"
  shows "drift P S w w'"
proof -
  obtain p1 f1 w1 where poll1: "poll_timer_without_waiter P future w = (p1, f1, w1)"
    by (cases "poll_timer_without_waiter P future w")
  have d1: "drift P S w w1" using drift_timer(4) [OF poll1] .
  show ?thesis
  proof (cases p1)
    case (Poll_ready result)
    then show ?thesis using assms poll1 d1 by (simp add: wait_with_timer_def)
  next
    case Poll_pending
    show ?thesis
    proof (cases "register_waiter P w1" rule: outcome_pair_cases)
      case (Return g w2)
      have d2: "drift P S w w2" using drift_trans [OF d1 drift_register [OF Return]] .
      obtain p3 f3 w3 where poll3: "poll_timer P (waiter g) f1 w2 = (p3, f3, w3)"
        by (cases "poll_timer P (waiter g) f1 w2")
      have d3: "drift P S w w3" using drift_trans [OF d2 drift_timer(5) [OF poll3]] .
      show ?thesis
      proof (cases p3)
        case r: (Poll_ready result)
        have "w' = registration_drop P g w3"
          using assms poll1 Poll_pending Return poll3 r by (simp add: wait_with_timer_def)
        then show ?thesis using drift_trans [OF d3 drift_registration_drop] by blast
      next
        case p: Poll_pending
        let ?rest = "and_then (on_unwind (registration_drop P g) (release_guard P m w3)) (\<lambda>_ w.
           and_then (waiter_wait P (waiter g) w) (\<lambda>_ w.
           acquire_guard (lock_state P) (registration_drop P g w)))"
        obtain o4 w4 where rest: "?rest = (o4, w4)" by fastforce
        have d4: "drift P S w w4" using drift_trans [OF d3 drift_suspend [OF rest]] .
        have "and_then ?rest (\<lambda>_ w. case poll_timer P (waiter g) f3 w of
                (Poll_ready result, future, w) \<Rightarrow> (Return (timed_out_result result, future), w)
              | (Poll_pending, future, w) \<Rightarrow> (Return (Inr Woken, future), w)) = (r, w')"
          using assms poll1 Poll_pending Return poll3 p by (simp add: wait_with_timer_def and_then_assoc Let_def)
        then show ?thesis
          using rest d4 drift_trans [OF d4 drift_timer(5)]
          by (cases o4) (auto split: prod.splits poll.splits)
      qed
    qed (use assms poll1 Poll_pending d1 drift_register drift_trans in
        \<open>auto simp: wait_with_timer_def; blast\<close>)+
  qed
qed

subsection \<open>Closures and loops\<close>

text \<open>Running the action and leaving the guard's scope.\<close>

lemma run_action_value:
  "run_action P f w = (r, w') \<Longrightarrow>
   sched w' = sched w \<and> (f (data P w) = (r, data P w') \<or> data P w' = data P w \<and> is_panic r \<and> inner w = None)"
  by (auto simp: run_action_def guard_deref_def is_panic_def split: option.splits prod.splits outcome.splits)

lemma eval_predicate_value:
  "inner w \<noteq> None \<Longrightarrow> eval_predicate P waiting p w = waiting p (data P w)"
  by (auto simp: eval_predicate_def guard_deref_def)

lemma drift_D: "drift P S w w' \<Longrightarrow> writes_within S w \<Longrightarrow> writes_within S w' \<and> S\<^sup>*\<^sup>* (data P w) (data P w')"
  by (simp add: drift_def)

lemma act_and_leave:
  assumes "writes_within S w" and "inner w \<noteq> None" and "waiting q (data P w) = (Return False, q')"
    and "end_scope P (run_action P f w) = (r, w')"
  shows "writes_within S w' \<and> acts_within S waiting f (data P w) r (data P w')"
proof -
  obtain r1 v where run: "run_action P f w = (r1, v)" by fastforce
  note ran = run_action_value [OF run]
  have v: "writes_within S v" using ran assms(1) by (simp add: writes_within_def)
  note leave = drift_end_scope [OF assms(4) [unfolded run], of S]
  then have "writes_within S w'" "S\<^sup>*\<^sup>* (data P v) (data P w')" "r1 = r" using drift_D [OF _ v] by auto
  moreover have "f (data P w) = (r1, data P v)" using ran assms(2) by auto
  ultimately show ?thesis using assms(3) unfolding acts_within_def by blast
qed

lemma leave_scope:
  assumes "writes_within S w" and "end_scope P (r, w) = (r', w')"
  shows "writes_within S w' \<and> S\<^sup>*\<^sup>* (data P w) (data P w') \<and> r' = r"
  using drift_end_scope [OF assms(2), of S] drift_D [OF _ assms(1)] by auto

text \<open>A wait that nobody can make block is just a write.\<close>

lemma acquire_and_wait_released:
  assumes "idle P w" and "writes_within S w"
    and "\<And>s. S\<^sup>*\<^sup>* (data P w) s \<Longrightarrow> fst (waiting p s) = Return False"
  shows "and_then_loop (acquire_guard (lock_state P) w) (\<lambda>_. wait_while_locked P waiting p f wait) =
    Some (and_then (acquire_guard (lock_state P) w) (\<lambda>_ w. end_scope P (run_action P f w)))"
proof (cases "acquire_guard (lock_state P) w" rule: outcome_pair_cases)
  case (Return u v)
  then have "held P v" using acquire_spec [OF assms(1) Return] by auto
  then have inner: "inner v \<noteq> None" by (simp add: held_def holds_guard_def)
  have "S\<^sup>*\<^sup>* (data P w) (data P v)" using drift_acquire [OF Return] drift_D assms(2) by blast
  then have "fst (waiting p (data P v)) = Return False" by (rule assms(3))
  then have "wait_while_locked P waiting p f wait v = Some (end_scope P (run_action P f v))"
    by (cases "waiting p (data P v)")
      (simp add: wait_while_locked.simps [of P waiting p f wait v] eval_predicate_value [OF inner])
  then show ?thesis using Return by simp
qed simp_all

end

text \<open>A suspension that only lets the others run and gives the guard back.\<close>

locale drifting_suspension = guard_suspension P wait
  for P :: "('m, 't, 'k, 'i, 'f, 'e) platform" and wait :: "('m, 't, 'k, unit) call" +
  assumes wait_drift: "wait w = (r, w') \<Longrightarrow> drift P S w w'"
begin

lemma wait_while_locked_region:
  assumes "held P w" and "writes_within S w"
    and "wait_while_locked P waiting p f wait w = Some (r, w')"
  shows "writes_within S w' \<and> wait_region S waiting f (data P w) r (data P w')"
  using assms
proof (induction "length (sched w)" arbitrary: p w rule: less_induct)
  case less
  have inner: "inner w \<noteq> None" using less.prems(1) by (simp add: held_def holds_guard_def)
  note step = wait_while_locked.simps [of P waiting p f wait w] eval_predicate_value [OF inner]
  obtain o1 p' where eval: "waiting p (data P w) = (o1, p')" by fastforce
  show ?case
  proof (cases o1)
    case (Return b)
    show ?thesis
    proof (cases b)
      case True
      obtain o2 v where wait: "wait w = (o2, v)" by fastforce
      have v: "writes_within S v" "S\<^sup>*\<^sup>* (data P w) (data P v)"
        using wait_drift [OF wait] drift_D less.prems(2) by blast+
      from suspension [OF less.prems(1) wait] show ?thesis
      proof (elim disjE conjE)
        assume h: "o2 = Return ()" "held P v" "length (sched v) < length (sched w)"
        then have "wait_while_locked P waiting p' f wait v = Some (r, w')"
          using less.prems(3) eval Return True wait by (simp add: step)
        then show ?thesis using less.hyps [OF h(3,2) v(1)] wait_region_before [OF v(2)] by blast
      next
        assume h: "o2 = Panic ''monitor waiter identifiers exhausted''" "held P v"
        then have "end_scope P (Panic ''monitor waiter identifiers exhausted'', v) = (r, w')"
          using less.prems(3) eval Return True wait by (auto simp: step)
        from leave_scope [OF v(1) this] show ?thesis
          using v(2) by (auto simp: wait_region_def intro: rtranclp_trans)
      next
        assume "o2 = Blocked"
        then show ?thesis using less.prems(3) eval Return True wait v by (auto simp: step wait_region_def)
      qed (use less.prems(3) eval Return True wait v in \<open>auto simp: step wait_region_def\<close>)
    next
      case False
      then have "end_scope P (run_action P f w) = (r, w')"
        using less.prems(3) eval Return by (simp add: step)
      from act_and_leave [OF less.prems(2) inner _ this, of waiting p p'] eval Return False show ?thesis
        by (cases r) (auto simp: wait_region_def)
    qed
  next
    case (Panic m)
    then have "end_scope P (Panic m, w) = (r, w')" using less.prems(3) eval by (auto simp: step)
    from leave_scope [OF less.prems(2) this] show ?thesis by (auto simp: wait_region_def)
  next
    case Blocked
    then show ?thesis using less.prems(2,3) eval by (simp add: step wait_region_def)
  qed
qed

lemma acquire_and_wait_region:
  assumes "idle P w" and "writes_within S w"
    and "and_then_loop (acquire_guard (lock_state P) w) (\<lambda>_. wait_while_locked P waiting p f wait) =
      Some (r, w')"
  shows "writes_within S w' \<and> wait_region S waiting f (data P w) r (data P w')"
proof -
  obtain o1 v where acq: "acquire_guard (lock_state P) w = (o1, v)" by fastforce
  have v: "writes_within S v" "S\<^sup>*\<^sup>* (data P w) (data P v)"
    using drift_acquire [OF acq] drift_D assms(2) by blast+
  from acquire_spec [OF assms(1) acq] show ?thesis
  proof (elim disjE conjE)
    assume h: "o1 = Return ()" "held P v"
    then have "wait_while_locked P waiting p f wait v = Some (r, w')" using assms(3) acq by simp
    from wait_while_locked_region [OF h(2) v(1) this] show ?thesis
      using wait_region_before [OF v(2)] by blast
  next
    assume "o1 = Blocked"
    then show ?thesis using assms(3) acq v by (auto simp: wait_region_def)
  qed
qed

end

sublocale state_backend \<subseteq> notified: drifting_suspension P "wait_for_notification P m (lock_state P)" for m
  by unfold_locales (rule drift_wait_for_notification)

locale drifting_timed_suspension = timed_suspension P wait
  for P :: "('m, 't, 'k, 'i, 'f, 'e) platform"
    and wait :: "'f \<Rightarrow> ('m, 't, 'k, ('e + WaitTimeoutStatus) \<times> 'f) call" +
  assumes wait_drift: "wait future w = (r, w') \<Longrightarrow> drift P S w w'"
begin

abbreviation ends :: "('t \<Rightarrow> 't \<Rightarrow> bool) \<Rightarrow> ('p, 't) predicate \<Rightarrow> ('t, 'r) action \<Rightarrow> ('m, 't, 'k) world \<Rightarrow>
   ('e + 'r WaitTimeoutResult) outcome \<Rightarrow> ('m, 't, 'k) world \<Rightarrow> bool"
where
  "ends S waiting f w r w' \<equiv> writes_within S w' \<and> timed_region S waiting f (data P w) r (data P w')"

lemma leave_timed_region:
  assumes "writes_within S w" and "end_scope P (r0, w) = (r, w')"
  shows "r0 = Return (Inl e) \<Longrightarrow> ends S waiting f w r w'"
    and "r0 = Panic m \<Longrightarrow> ends S waiting f w r w'"
    and "r0 = Return (Inr TimedOut) \<Longrightarrow> waiting q (data P w) = (Return True, q') \<Longrightarrow> ends S waiting f w r w'"
  using leave_scope [OF assms] by (auto simp: timed_region_def seen_blocking_def)

text \<open>One evaluation of the predicate under the guard.\<close>

lemma turn_region:
  assumes "writes_within S v" and "inner v \<noteq> None"
    and turn: "(case eval_predicate P waiting p v of
             (Return blocking, p') \<Rightarrow>
               (if \<not> blocking
                then Some (end_scope P (apfst (map_outcome (\<lambda>r. Inr (Ready r))) (run_action P f v)))
                else rest p')
           | (Panic m, p') \<Rightarrow> Some (end_scope P (Panic m, v))
           | (Blocked, p') \<Rightarrow> Some (Blocked, v)) = Some (r, w')"
    and rest: "\<And>p'. waiting p (data P v) = (Return True, p') \<Longrightarrow> rest p' = Some (r, w') \<Longrightarrow>
      ends S waiting f v r w'"
  shows "ends S waiting f v r w'"
proof -
  obtain o1 p' where eval: "waiting p (data P v) = (o1, p')" by fastforce
  note step = eval_predicate_value [OF assms(2)]
  show ?thesis
  proof (cases o1)
    case (Return b)
    show ?thesis
    proof (cases b)
      case True
      then show ?thesis using rest turn eval Return by (simp add: step)
    next
      case False
      obtain o2 u where run: "run_action P f v = (o2, u)" by fastforce
      obtain o3 u' where leave: "end_scope P (o2, u) = (o3, u')" by fastforce
      have "o3 = o2" using drift_end_scope [OF leave] by blast
      then have "r = map_outcome (\<lambda>r. Inr (Ready r)) o2 \<and> w' = u'"
        using turn eval Return False run leave by (cases o2) (auto simp: step end_scope_def)
      then show ?thesis
        using act_and_leave [OF assms(1,2), of waiting p p' f o3 u'] eval Return False run leave \<open>o3 = o2\<close>
        by (cases o2) (auto simp: timed_region_def)
    qed
  next
    case (Panic m)
    then show ?thesis
      using leave_timed_region(2) [OF assms(1), of "Panic m" r w' m waiting f] turn eval by (simp add: step)
  next
    case Blocked
    then show ?thesis using turn eval assms(1) by (auto simp: step timed_region_def)
  qed
qed

lemma timer_loop_region:
  assumes "held P w" and "writes_within S w"
    and "wait_while_with_timer_locked P future waiting p f wait w = Some (r, w')"
  shows "ends S waiting f w r w'"
  using assms
proof (induction "length (sched w)" arbitrary: p w future rule: less_induct)
  case less
  note step = wait_while_with_timer_locked.simps [of P future waiting p f wait w]
  obtain o1 v where wait: "wait future w = (o1, v)" by fastforce
  have v: "writes_within S v" "S\<^sup>*\<^sup>* (data P w) (data P v)"
    using wait_drift [OF wait] drift_D less.prems(2) by blast+
  have "ends S waiting f v r w'"
    using suspension [OF less.prems(1) wait]
  proof (elim disjE conjE exE)
    fix res future'
    assume o1: "o1 = Return (res, future')" and h: "held P v"
      and short: "res = Inr Woken \<longrightarrow> length (sched v) < length (sched w)"
    show ?thesis
    proof (cases res)
      case (Inl e)
      then show ?thesis
        using leave_timed_region(1) [OF v(1), of "Return (Inl e)" r w' e waiting f] less.prems(3) wait o1
        by (simp add: step)
    next
      case (Inr status)
      have inner: "inner v \<noteq> None" using h by (simp add: held_def holds_guard_def)
      show ?thesis
      proof (rule turn_region [OF v(1) inner])
        show "(case eval_predicate P waiting p v of
             (Return blocking, p') \<Rightarrow>
               (if \<not> blocking
                then Some (end_scope P (apfst (map_outcome (\<lambda>r. Inr (Ready r))) (run_action P f v)))
                else if status_is_timed_out status then Some (end_scope P (Return (Inr TimedOut), v))
                else wait_while_with_timer_locked P future' waiting p' f wait v)
           | (Panic m, p') \<Rightarrow> Some (end_scope P (Panic m, v))
           | (Blocked, p') \<Rightarrow> Some (Blocked, v)) = Some (r, w')"
          using less.prems(3) wait o1 Inr by (simp add: step)
        show "ends S waiting f v r w'" if "waiting p (data P v) = (Return True, p')"
          and "(if status_is_timed_out status then Some (end_scope P (Return (Inr TimedOut), v))
             else wait_while_with_timer_locked P future' waiting p' f wait v) = Some (r, w')" for p'
          using that less.hyps [OF _ h v(1), of future' p'] short Inr
            leave_timed_region(3) [OF v(1), of "Return (Inr TimedOut)" r w' waiting p p' f]
          by (cases status) auto
      qed
    qed
  next
    assume "o1 = Panic ''monitor waiter identifiers exhausted''"
    then show ?thesis
      using leave_timed_region(2) [OF v(1), of "Panic ''monitor waiter identifiers exhausted''" r w'
          "''monitor waiter identifiers exhausted''" waiting f] less.prems(3) wait
      by (simp add: step)
  qed (use less.prems(3) wait v in \<open>auto simp: step timed_region_def\<close>)
  then show ?case using timed_region_before [OF v(2)] by blast
qed

text \<open>The entry points: acquire, look at the predicate, arm the Timer, loop.\<close>

lemma acquire_and_turn_region:
  assumes "idle P w" and "writes_within S w"
    and "and_then_loop (acquire_guard (lock_state P) w) (\<lambda>_. body) = Some (r, w')"
    and body: "\<And>v. held P v \<Longrightarrow> writes_within S v \<Longrightarrow> body v = Some (r, w') \<Longrightarrow> ends S waiting f v r w'"
  shows "ends S waiting f w r w'"
proof -
  obtain o1 v where acq: "acquire_guard (lock_state P) w = (o1, v)" by fastforce
  have v: "writes_within S v" "S\<^sup>*\<^sup>* (data P w) (data P v)"
    using drift_acquire [OF acq] drift_D assms(2) by blast+
  from acquire_spec [OF assms(1) acq] show ?thesis
  proof (elim disjE conjE)
    assume h: "o1 = Return ()" "held P v"
    then have "body v = Some (r, w')" using assms(3) acq by simp
    from body [OF h(2) v(1) this] show ?thesis using timed_region_before [OF v(2)] by blast
  next
    assume "o1 = Blocked"
    then show ?thesis using assms(3) acq v by (auto simp: timed_region_def)
  qed
qed

lemma arm_region:
  assumes "held P v" and "writes_within S v"
    and armed: "(case timer_at P deadline v of
         (Inl e, w) \<Rightarrow> Some (end_scope P (Return (Inl e), w))
       | (Inr future, w) \<Rightarrow> rest future w) = Some (r, w')"
    and rest: "\<And>future u. held P u \<Longrightarrow> writes_within S u \<Longrightarrow> data P u = data P v \<Longrightarrow>
      rest future u = Some (r, w') \<Longrightarrow> ends S waiting f u r w'"
  shows "ends S waiting f v r w'"
proof -
  obtain y u where at: "timer_at P deadline v = (y, u)" by fastforce
  have u: "held P u" "data P u = data P v" using timer_calls_held(2) [OF assms(1) at] by simp_all
  have wu: "writes_within S u" using drift_timer(3) [OF at] drift_D assms(2) by blast
  have "ends S waiting f u r w'"
  proof (cases y)
    case (Inl e)
    then show ?thesis
      using leave_timed_region(1) [OF wu, of "Return (Inl e)" r w' e waiting f] armed at by simp
  next
    case (Inr future)
    then show ?thesis using rest [OF u(1) wu u(2)] armed at by simp
  qed
  then show ?thesis using u(2) by simp
qed

lemma wait_while_for_region:
  assumes "idle P w" and "writes_within S w"
    and "wait_while_for P timeout (acquire_guard (lock_state P)) waiting p f wait w = Some (r, w')"
  shows "ends S waiting f w r w'"
  using assms(3) unfolding wait_while_for_def
proof (rule acquire_and_turn_region [OF assms(1,2)])
  fix v assume v: "held P v" "writes_within S v"
  obtain started u where now: "timer_now P v = (started, u)" by fastforce
  have u: "held P u" "data P u = data P v" using timer_calls_held(1) [OF v(1) now] by simp_all
  have wu: "writes_within S u" using drift_timer(1) [OF now] drift_D v(2) by blast
  have inner: "inner u \<noteq> None" using u(1) by (simp add: held_def holds_guard_def)
  let ?rest = "\<lambda>p'. if duration_is_zero timeout then Some (end_scope P (Return (Inr TimedOut), u))
    else case tm_checked_add (tm P) started timeout of
       Inl e \<Rightarrow> Some (end_scope P (Return (Inl e), u))
     | Inr deadline \<Rightarrow> (case timer_at P deadline u of
          (Inl e, w) \<Rightarrow> Some (end_scope P (Return (Inl e), w))
        | (Inr future, w) \<Rightarrow> wait_while_with_timer_locked P future waiting p' f wait w)"
  assume "(let (started_at, w) = timer_now P v in
           case eval_predicate P waiting p w of
             (Panic m, p) \<Rightarrow> Some (end_scope P (Panic m, w))
           | (Blocked, p) \<Rightarrow> Some (Blocked, w)
           | (Return blocking, p) \<Rightarrow>
               (if \<not> blocking
                then Some (end_scope P (apfst (map_outcome (\<lambda>r. Inr (Ready r))) (run_action P f w)))
                else if duration_is_zero timeout
                then Some (end_scope P (Return (Inr TimedOut), w))
                else case tm_checked_add (tm P) started_at timeout of
                       Inl e \<Rightarrow> Some (end_scope P (Return (Inl e), w))
                     | Inr deadline \<Rightarrow>
                         (case timer_at P deadline w of
                            (Inl e, w) \<Rightarrow> Some (end_scope P (Return (Inl e), w))
                          | (Inr future, w) \<Rightarrow>
                              wait_while_with_timer_locked P future waiting p f wait w))) = Some (r, w')"
  then have turn: "(case eval_predicate P waiting p u of
             (Return blocking, p') \<Rightarrow>
               (if \<not> blocking
                then Some (end_scope P (apfst (map_outcome (\<lambda>r. Inr (Ready r))) (run_action P f u)))
                else ?rest p')
           | (Panic m, p') \<Rightarrow> Some (end_scope P (Panic m, u))
           | (Blocked, p') \<Rightarrow> Some (Blocked, u)) = Some (r, w')"
    unfolding now Let_def case_prod_conv .
  have "ends S waiting f u r w'"
  proof (rule turn_region [OF wu inner turn])
    fix p' assume eval: "waiting p (data P u) = (Return True, p')" and rest: "?rest p' = Some (r, w')"
    show "ends S waiting f u r w'"
    proof (cases "duration_is_zero timeout")
      case True
      then show ?thesis
        using leave_timed_region(3) [OF wu, of "Return (Inr TimedOut)" r w' waiting p p' f] rest eval by simp
    next
      case False
      show ?thesis
      proof (cases "tm_checked_add (tm P) started timeout")
        case (Inl e)
        then show ?thesis
          using leave_timed_region(1) [OF wu, of "Return (Inl e)" r w' e waiting f] rest False by simp
      next
        case (Inr deadline)
        then have "(case timer_at P deadline u of
            (Inl e, w) \<Rightarrow> Some (end_scope P (Return (Inl e), w))
          | (Inr future, w) \<Rightarrow> wait_while_with_timer_locked P future waiting p' f wait w) = Some (r, w')"
          using rest False by simp
        then show ?thesis by (rule arm_region [OF u(1) wu]) (rule timer_loop_region)
      qed
    qed
  qed
  then show "ends S waiting f v r w'" using u(2) by simp
qed

lemma wait_while_with_deadline_region:
  assumes "idle P w" and "writes_within S w"
    and "wait_while_with_deadline P deadline (acquire_guard (lock_state P)) waiting p f wait w = Some (r, w')"
  shows "ends S waiting f w r w'"
  using assms(3) unfolding wait_while_with_deadline_def
proof (rule acquire_and_turn_region [OF assms(1,2)])
  fix v assume v: "held P v" "writes_within S v"
  have inner: "inner v \<noteq> None" using v(1) by (simp add: held_def holds_guard_def)
  let ?probe = "\<lambda>p' future u. case poll_timer_without_waiter P future u of
       (Poll_ready (Inl e), future, w) \<Rightarrow> Some (end_scope P (Return (Inl e), w))
     | (Poll_ready (Inr _), future, w) \<Rightarrow> Some (end_scope P (Return (Inr TimedOut), w))
     | (Poll_pending, future, w) \<Rightarrow> wait_while_with_timer_locked P future waiting p' f wait w"
  let ?rest = "\<lambda>p'. case timer_at P deadline v of
       (Inl e, w) \<Rightarrow> Some (end_scope P (Return (Inl e), w))
     | (Inr future, w) \<Rightarrow> ?probe p' future w"
  assume turn: "(case eval_predicate P waiting p v of
             (Panic m, p) \<Rightarrow> Some (end_scope P (Panic m, v))
           | (Blocked, p) \<Rightarrow> Some (Blocked, v)
           | (Return blocking, p) \<Rightarrow>
               (if \<not> blocking
                then Some (end_scope P (apfst (map_outcome (\<lambda>r. Inr (Ready r))) (run_action P f v)))
                else ?rest p)) = Some (r, w')"
  show "ends S waiting f v r w'"
  proof (rule turn_region [OF v(2) inner turn])
    fix p' assume eval: "waiting p (data P v) = (Return True, p')" and rest: "?rest p' = Some (r, w')"
    from rest show "ends S waiting f v r w'"
    proof (rule arm_region [OF v])
      fix future u assume u: "held P u" "writes_within S u" "data P u = data P v"
        and probe: "?probe p' future u = Some (r, w')"
      obtain pr future' x where poll: "poll_timer_without_waiter P future u = (pr, future', x)"
        by (cases "poll_timer_without_waiter P future u")
      have x: "held P x" "data P x = data P u" using timer_calls_held(4) [OF u(1) poll] by simp_all
      have wx: "writes_within S x" using drift_timer(4) [OF poll] drift_D u(2) by blast
      have "ends S waiting f x r w'"
        using probe poll timer_loop_region [OF x(1) wx, of future' waiting p' f r w']
          leave_timed_region(1) [OF wx, of _ r w' _ waiting f]
          leave_timed_region(3) [OF wx, of "Return (Inr TimedOut)" r w' waiting p p' f] eval u(3) x(2)
        by (auto split: poll.splits sum.splits)
      then show "ends S waiting f u r w'" using x(2) by simp
    qed
  qed
qed

end

sublocale state_backend \<subseteq> timed: drifting_timed_suspension P "wait_with_timer P m (lock_state P)" for m
  by unfold_locales (rule drift_wait_with_timer)

context state_backend
begin

text \<open>Reading and writing without a condition.\<close>

lemma with_write_region:
  assumes "idle P w" and "writes_within S w"
    and "and_then (acquire_guard (lock_state P) w) (\<lambda>_ w. end_scope P (run_action P f w)) = (r, w')"
  shows "writes_within S w' \<and> wait_region S (\<lambda>p _. (Return False, p)) f (data P w) r (data P w')"
proof -
  obtain o1 v where acq: "acquire_guard (lock_state P) w = (o1, v)" by fastforce
  have v: "writes_within S v" "S\<^sup>*\<^sup>* (data P w) (data P v)"
    using drift_acquire [OF acq] drift_D assms(2) by blast+
  from acquire_spec [OF assms(1) acq] show ?thesis
  proof (elim disjE conjE)
    assume h: "o1 = Return ()" "held P v"
    have inner: "inner v \<noteq> None" using h(2) by (simp add: held_def holds_guard_def)
    have "end_scope P (run_action P f v) = (r, w')" using assms(3) acq h by simp
    from act_and_leave [OF v(1) inner _ this, of "\<lambda>p _. (Return False, p)"] show ?thesis
      using v(2) by (cases r) (auto simp: wait_region_def intro: acts_before)
  next
    assume "o1 = Blocked"
    then show ?thesis using assms(3) acq v by (auto simp: wait_region_def)
  qed
qed

end

end
