(* ===== verification/Std_Monitor.thy ===== *)
theory Std_Monitor
  imports Monitor_Regions
begin

text \<open>
  \<^verbatim>\<open>src/monitor/std_monitor.rs\<close> and \<^verbatim>\<open>src/monitor/std_monitor_guard.rs\<close>: the monitor over a
  poison-recovering \<^verbatim>\<open>std::sync::Mutex\<close>. The operations of a monitor act on a world whose state
  mutex is a \<open>mutex\<close>; the monitor's Timer is the parameter \<open>T\<close>.
\<close>

section \<open>The backend\<close>

text \<open>\<^verbatim>\<open>recover(monitor.state.lock())\<close>\<close>

definition std_state_lock :: "'t mutex \<Rightarrow> guard \<times> 't mutex" where
  "std_state_lock m = (let (result, m') = mutex_lock m in (recover result, m'))"

abbreviation std_slot_message :: string where
  "std_slot_message \<equiv> ''standard monitor guard slot must be occupied''"

definition std_backend :: "('t mutex, 't) backend" where
  "std_backend = \<lparr>bk_free = (\<lambda>m. \<not> mx_locked m), bk_lock = std_state_lock,
     bk_drop = mutex_guard_drop, bk_deref = mx_data, bk_deref_mut = (\<lambda>d m. m\<lparr>mx_data := d\<rparr>),
     bk_clear_poison = clear_poison, bk_slot_message = std_slot_message\<rparr>"

definition std_platform ::
  "('k, 'i, 'f, 'e) timer_ops \<Rightarrow> ('t mutex, 't, 'k, 'i, 'f, 'e) platform"
where
  "std_platform T = \<lparr>bk = std_backend, tm = T\<rparr>"

type_synonym ('t, 'k, 'a) std_call = "('t mutex, 't, 'k, 'a) call"
type_synonym ('t, 'k) std_world = "('t mutex, 't, 'k) world"

lemma std_platform_simps [simp]:
  "bk_free (bk (std_platform T)) m = (\<not> mx_locked m)"
  "bk_lock (bk (std_platform T)) m = (Guard, m\<lparr>mx_locked := True\<rparr>)"
  "bk_drop (bk (std_platform T)) b m = mutex_guard_drop b m"
  "bk_deref (bk (std_platform T)) m = mx_data m"
  "bk_deref_mut (bk (std_platform T)) d m = m\<lparr>mx_data := d\<rparr>"
  "bk_clear_poison (bk (std_platform T)) m = clear_poison m"
  "bk_slot_message (bk (std_platform T)) = std_slot_message"
  "tm (std_platform T) = T"
  by (simp_all add: std_platform_def std_backend_def std_state_lock_def mutex_lock_def recover_def)

interpretation std: state_backend "std_platform T" for T
  by unfold_locales (simp_all add: mutex_guard_drop_def clear_poison_def)

section \<open>Construction\<close>

record ('t, 'k, 'i, 'f, 'e) StdMonitor =
  sm_state :: "'t mutex"
  sm_waiters :: "nat WaiterRegistry mutex"
  sm_timer :: "('k, 'i, 'f, 'e) timer_ops"

definition std_with_timer ::
  "'t \<Rightarrow> ('k, 'i, 'f, 'e) timer_ops \<Rightarrow> ('t, 'k, 'i, 'f, 'e) StdMonitor"
where
  "std_with_timer state timer =
     \<lparr>sm_state = mutex_new state, sm_waiters = BlockingWaiterRegistry_new, sm_timer = timer\<rparr>"

text \<open>\<^verbatim>\<open>default_timer()\<close> hands out one process-wide Timer, the parameter \<open>default_timer\<close>.\<close>

definition std_new ::
  "('k, 'i, 'f, 'e) timer_ops \<Rightarrow> 't \<Rightarrow> ('t, 'k, 'i, 'f, 'e) StdMonitor"
where
  "std_new default_timer state = std_with_timer state default_timer"

definition std_timer :: "('t, 'k, 'i, 'f, 'e) StdMonitor \<Rightarrow> ('k, 'i, 'f, 'e) timer_ops" where
  "std_timer m = sm_timer m"

definition std_from ::
  "('k, 'i, 'f, 'e) timer_ops \<Rightarrow> 't \<Rightarrow> ('t, 'k, 'i, 'f, 'e) StdMonitor"
where
  "std_from default_timer value = std_new default_timer value"

definition std_default ::
  "('k, 'i, 'f, 'e) timer_ops \<Rightarrow> 't \<Rightarrow> ('t, 'k, 'i, 'f, 'e) StdMonitor"
where
  "std_default default_timer t_default = std_new default_timer t_default"

text \<open>The world of a thread that has just been handed the monitor.\<close>

definition std_world_of ::
  "('t, 'k, 'i, 'f, 'e) StdMonitor \<Rightarrow> 'k \<Rightarrow> ('t, 'k) env_action list list \<Rightarrow> ('t, 'k) std_world"
where
  "std_world_of m k sc = \<lparr>mon_state = sm_state m, mon_waiters = sm_waiters m, arena = [],
     inner = None, in_flight = [], env_holds = False, env_regs = [], clock = k, sched = sc\<rparr>"

section \<open>Guard operations\<close>

definition std_lock :: "('k, 'i, 'f, 'e) timer_ops \<Rightarrow> ('t, 'k, unit) std_call" where
  "std_lock T w = acquire_guard (lock_state (std_platform T)) w"

definition std_notify_one :: "('k, 'i, 'f, 'e) timer_ops \<Rightarrow> ('t, 'k, unit) std_call" where
  "std_notify_one T w = bwr_notify_one (std_platform T) w"

definition std_notify_all :: "('k, 'i, 'f, 'e) timer_ops \<Rightarrow> ('t, 'k, unit) std_call" where
  "std_notify_all T w = bwr_notify_all (std_platform T) w"

definition std_guard_notify_one :: "('k, 'i, 'f, 'e) timer_ops \<Rightarrow> ('t, 'k, unit) std_call" where
  "std_guard_notify_one T w =
     and_then (release_guard (std_platform T) std_slot_message w) (\<lambda>_ w. std_notify_one T w)"

definition std_guard_notify_all :: "('k, 'i, 'f, 'e) timer_ops \<Rightarrow> ('t, 'k, unit) std_call" where
  "std_guard_notify_all T w =
     and_then (release_guard (std_platform T) std_slot_message w) (\<lambda>_ w. std_notify_all T w)"

definition std_guard_wait :: "('k, 'i, 'f, 'e) timer_ops \<Rightarrow> ('t, 'k, unit) std_call" where
  "std_guard_wait T w =
     wait_for_notification (std_platform T) std_slot_message (lock_state (std_platform T)) w"

definition std_guard_wait_with_timer ::
  "('k, 'i, 'f, 'e) timer_ops \<Rightarrow> 'f \<Rightarrow> ('t, 'k, ('e + WaitTimeoutStatus) \<times> 'f) std_call"
where
  "std_guard_wait_with_timer T future w =
     wait_with_timer (std_platform T) std_slot_message (lock_state (std_platform T)) future w"

definition std_guard_wait_for ::
  "('k, 'i, 'f, 'e) timer_ops \<Rightarrow> duration \<Rightarrow> ('t, 'k, 'e + WaitTimeoutStatus) std_call"
where
  "std_guard_wait_for T timeout w =
     (case timer_after (std_platform T) timeout w of
        (Inl e, w) \<Rightarrow> (Return (Inl e), w)
      | (Inr future, w) \<Rightarrow> apfst (map_outcome fst) (std_guard_wait_with_timer T future w))"

definition std_guard_wait_until ::
  "('k, 'i, 'f, 'e) timer_ops \<Rightarrow> 'i \<Rightarrow> ('t, 'k, 'e + WaitTimeoutStatus) std_call"
where
  "std_guard_wait_until T deadline w =
     (case timer_at (std_platform T) deadline w of
        (Inl e, w) \<Rightarrow> (Return (Inl e), w)
      | (Inr future, w) \<Rightarrow> apfst (map_outcome fst) (std_guard_wait_with_timer T future w))"

definition std_guard_deref :: "('k, 'i, 'f, 'e) timer_ops \<Rightarrow> ('t, 'k) std_world \<Rightarrow> 't outcome" where
  "std_guard_deref T w = (case inner w of
       Some _ \<Rightarrow> Return (mx_data (mon_state w))
     | None \<Rightarrow> Panic std_slot_message)"

text \<open>Writing \<open>d\<close> through \<^verbatim>\<open>deref_mut\<close>.\<close>

definition std_guard_deref_mut ::
  "('k, 'i, 'f, 'e) timer_ops \<Rightarrow> 't \<Rightarrow> ('t, 'k, unit) std_call"
where
  "std_guard_deref_mut T d w = (case inner w of
       Some _ \<Rightarrow> (Return (), w\<lparr>mon_state := (mon_state w)\<lparr>mx_data := d\<rparr>\<rparr>)
     | None \<Rightarrow> (Panic std_slot_message, w))"

section \<open>Monitor operations\<close>

definition std_is_poisoned :: "('k, 'i, 'f, 'e) timer_ops \<Rightarrow> ('t, 'k, bool) std_call" where
  "std_is_poisoned T w =
     (let w1 = interfere (std_platform T) w in (Return (is_poisoned (mon_state w1)), w1))"

definition std_clear_poison :: "('k, 'i, 'f, 'e) timer_ops \<Rightarrow> ('t, 'k, unit) std_call" where
  "std_clear_poison T w =
     (let w1 = interfere (std_platform T) w
      in (Return (), w1\<lparr>mon_state := clear_poison (mon_state w1)\<rparr>))"

definition std_with_read ::
  "('k, 'i, 'f, 'e) timer_ops \<Rightarrow> ('t \<Rightarrow> 'r outcome) \<Rightarrow> ('t, 'k, 'r) std_call"
where
  "std_with_read T f w =
     and_then (std_lock T w) (\<lambda>_ w.
       end_scope (std_platform T) (run_action (std_platform T) (\<lambda>d. (f d, d)) w))"

definition std_with_write ::
  "('k, 'i, 'f, 'e) timer_ops \<Rightarrow> ('t, 'r) action \<Rightarrow> ('t, 'k, 'r) std_call"
where
  "std_with_write T f w =
     and_then (std_lock T w) (\<lambda>_ w.
       end_scope (std_platform T) (run_action (std_platform T) f w))"

text \<open>
  When the action panics, the guard is dropped and nobody is notified; otherwise the guard is
  consumed by its own \<^verbatim>\<open>notify\<close> method, which releases it first.
\<close>

definition std_with_write_notify_one ::
  "('k, 'i, 'f, 'e) timer_ops \<Rightarrow> ('t, 'r) action \<Rightarrow> ('t, 'k, 'r) std_call"
where
  "std_with_write_notify_one T f w =
     and_then (std_lock T w) (\<lambda>_ w.
     and_then (on_unwind (drop_guard (std_platform T) True)
                 (run_action (std_platform T) f w)) (\<lambda>result w.
     and_then (std_guard_notify_one T w) (\<lambda>_ w. (Return result, w))))"

definition std_with_write_notify_all ::
  "('k, 'i, 'f, 'e) timer_ops \<Rightarrow> ('t, 'r) action \<Rightarrow> ('t, 'k, 'r) std_call"
where
  "std_with_write_notify_all T f w =
     and_then (std_lock T w) (\<lambda>_ w.
     and_then (on_unwind (drop_guard (std_platform T) True)
                 (run_action (std_platform T) f w)) (\<lambda>result w.
     and_then (std_guard_notify_all T w) (\<lambda>_ w. (Return result, w))))"

definition std_wait_while ::
  "('k, 'i, 'f, 'e) timer_ops \<Rightarrow> ('p, 't) predicate \<Rightarrow> 'p \<Rightarrow> ('t, 'r) action \<Rightarrow>
   ('t, 'k) std_world \<Rightarrow> ('r outcome \<times> ('t, 'k) std_world) option"
where
  "std_wait_while T waiting p f w =
     and_then_loop (std_lock T w)
       (\<lambda>_. wait_while_locked (std_platform T) waiting p f (std_guard_wait T))"

definition std_wait_until ::
  "('k, 'i, 'f, 'e) timer_ops \<Rightarrow> ('p, 't) predicate \<Rightarrow> 'p \<Rightarrow> ('t, 'r) action \<Rightarrow>
   ('t, 'k) std_world \<Rightarrow> ('r outcome \<times> ('t, 'k) std_world) option"
where
  "std_wait_until T ready p f w = std_wait_while T (not_pred ready) p f w"

definition std_wait_until_ready ::
  "('k, 'i, 'f, 'e) timer_ops \<Rightarrow> ('p, 't) predicate \<Rightarrow> 'p \<Rightarrow>
   ('t, 'k) std_world \<Rightarrow> (unit outcome \<times> ('t, 'k) std_world) option"
where
  "std_wait_until_ready T ready p w = std_wait_until T ready p no_action w"

section \<open>Timed monitor operations\<close>

type_synonym ('t, 'k, 'e, 'r) std_timed =
  "('t, 'k) std_world \<Rightarrow> (('e + 'r WaitTimeoutResult) outcome \<times> ('t, 'k) std_world) option"

definition std_wait_while_for ::
  "('k, 'i, 'f, 'e) timer_ops \<Rightarrow> duration \<Rightarrow> ('p, 't) predicate \<Rightarrow> 'p \<Rightarrow> ('t, 'r) action \<Rightarrow>
   ('t, 'k, 'e, 'r) std_timed"
where
  "std_wait_while_for T timeout waiting p f w =
     wait_while_for (std_platform T) timeout (std_lock T) waiting p f (std_guard_wait_with_timer T) w"

definition std_wait_while_with_deadline ::
  "('k, 'i, 'f, 'e) timer_ops \<Rightarrow> 'i \<Rightarrow> ('p, 't) predicate \<Rightarrow> 'p \<Rightarrow> ('t, 'r) action \<Rightarrow>
   ('t, 'k, 'e, 'r) std_timed"
where
  "std_wait_while_with_deadline T deadline waiting p f w =
     wait_while_with_deadline (std_platform T) deadline (std_lock T) waiting p f
       (std_guard_wait_with_timer T) w"

definition std_wait_while_with_total_timeout ::
  "('k, 'i, 'f, 'e) timer_ops \<Rightarrow> duration \<Rightarrow> ('p, 't) predicate \<Rightarrow> 'p \<Rightarrow> ('t, 'r) action \<Rightarrow>
   ('t, 'k, 'e, 'r) std_timed"
where
  "std_wait_while_with_total_timeout T timeout waiting p f w =
     (case timer_deadline_after (std_platform T) timeout w of
        (Inl e, w) \<Rightarrow> Some (Return (Inl e), w)
      | (Inr deadline, w) \<Rightarrow> std_wait_while_with_deadline T deadline waiting p f w)"

definition std_wait_until_for ::
  "('k, 'i, 'f, 'e) timer_ops \<Rightarrow> duration \<Rightarrow> ('p, 't) predicate \<Rightarrow> 'p \<Rightarrow> ('t, 'r) action \<Rightarrow>
   ('t, 'k, 'e, 'r) std_timed"
where
  "std_wait_until_for T timeout ready p f w = std_wait_while_for T timeout (not_pred ready) p f w"

definition std_wait_until_with_total_timeout ::
  "('k, 'i, 'f, 'e) timer_ops \<Rightarrow> duration \<Rightarrow> ('p, 't) predicate \<Rightarrow> 'p \<Rightarrow> ('t, 'r) action \<Rightarrow>
   ('t, 'k, 'e, 'r) std_timed"
where
  "std_wait_until_with_total_timeout T timeout ready p f w =
     std_wait_while_with_total_timeout T timeout (not_pred ready) p f w"

definition std_wait_until_with_deadline ::
  "('k, 'i, 'f, 'e) timer_ops \<Rightarrow> 'i \<Rightarrow> ('p, 't) predicate \<Rightarrow> 'p \<Rightarrow> ('t, 'r) action \<Rightarrow>
   ('t, 'k, 'e, 'r) std_timed"
where
  "std_wait_until_with_deadline T deadline ready p f w =
     std_wait_while_with_deadline T deadline (not_pred ready) p f w"

definition std_wait_until_ready_for ::
  "('k, 'i, 'f, 'e) timer_ops \<Rightarrow> duration \<Rightarrow> ('p, 't) predicate \<Rightarrow> 'p \<Rightarrow>
   ('t, 'k, 'e, unit) std_timed"
where
  "std_wait_until_ready_for T timeout ready p w = std_wait_until_for T timeout ready p no_action w"

definition std_wait_until_ready_with_total_timeout ::
  "('k, 'i, 'f, 'e) timer_ops \<Rightarrow> duration \<Rightarrow> ('p, 't) predicate \<Rightarrow> 'p \<Rightarrow>
   ('t, 'k, 'e, unit) std_timed"
where
  "std_wait_until_ready_with_total_timeout T timeout ready p w =
     std_wait_until_with_total_timeout T timeout ready p no_action w"

definition std_wait_until_ready_with_deadline ::
  "('k, 'i, 'f, 'e) timer_ops \<Rightarrow> 'i \<Rightarrow> ('p, 't) predicate \<Rightarrow> 'p \<Rightarrow>
   ('t, 'k, 'e, unit) std_timed"
where
  "std_wait_until_ready_with_deadline T deadline ready p w =
     std_wait_until_with_deadline T deadline ready p no_action w"

section \<open>Trait implementations\<close>

text \<open>The required methods of the traits forward to the inherent operations.\<close>

definition std_Notifier_notify_one :: "('k, 'i, 'f, 'e) timer_ops \<Rightarrow> ('t, 'k, unit) std_call" where
  "std_Notifier_notify_one T w = std_notify_one T w"

definition std_Notifier_notify_all :: "('k, 'i, 'f, 'e) timer_ops \<Rightarrow> ('t, 'k, unit) std_call" where
  "std_Notifier_notify_all T w = std_notify_all T w"

definition std_ConditionWaiter_wait_while ::
  "('k, 'i, 'f, 'e) timer_ops \<Rightarrow> ('p, 't) predicate \<Rightarrow> 'p \<Rightarrow> ('t, 'r) action \<Rightarrow>
   ('t, 'k) std_world \<Rightarrow> ('r outcome \<times> ('t, 'k) std_world) option"
where
  "std_ConditionWaiter_wait_while T predicate p action w = std_wait_while T predicate p action w"

definition std_Monitor_with_read ::
  "('k, 'i, 'f, 'e) timer_ops \<Rightarrow> ('t \<Rightarrow> 'r outcome) \<Rightarrow> ('t, 'k, 'r) std_call"
where
  "std_Monitor_with_read T f w = std_with_read T f w"

definition std_Monitor_with_write ::
  "('k, 'i, 'f, 'e) timer_ops \<Rightarrow> ('t, 'r) action \<Rightarrow> ('t, 'k, 'r) std_call"
where
  "std_Monitor_with_write T f w = std_with_write T f w"

definition std_TimeoutConditionWaiter_wait_while_with_deadline ::
  "('k, 'i, 'f, 'e) timer_ops \<Rightarrow> 'i \<Rightarrow> ('p, 't) predicate \<Rightarrow> 'p \<Rightarrow> ('t, 'r) action \<Rightarrow>
   ('t, 'k, 'e, 'r) std_timed"
where
  "std_TimeoutConditionWaiter_wait_while_with_deadline T deadline predicate p action w =
     std_wait_while_with_deadline T deadline predicate p action w"

definition std_TimeoutConditionWaiter_wait_while_with_total_timeout ::
  "('k, 'i, 'f, 'e) timer_ops \<Rightarrow> duration \<Rightarrow> ('p, 't) predicate \<Rightarrow> 'p \<Rightarrow> ('t, 'r) action \<Rightarrow>
   ('t, 'k, 'e, 'r) std_timed"
where
  "std_TimeoutConditionWaiter_wait_while_with_total_timeout T timeout predicate p action w =
     std_wait_while_with_total_timeout T timeout predicate p action w"

definition std_TimeoutConditionWaiter_wait_while_for ::
  "('k, 'i, 'f, 'e) timer_ops \<Rightarrow> duration \<Rightarrow> ('p, 't) predicate \<Rightarrow> 'p \<Rightarrow> ('t, 'r) action \<Rightarrow>
   ('t, 'k, 'e, 'r) std_timed"
where
  "std_TimeoutConditionWaiter_wait_while_for T timeout predicate p action w =
     std_wait_while_for T timeout predicate p action w"

lemmas std_trait_defs =
  std_Notifier_notify_one_def std_Notifier_notify_all_def std_ConditionWaiter_wait_while_def
  std_Monitor_with_read_def std_Monitor_with_write_def
  std_TimeoutConditionWaiter_wait_while_with_deadline_def
  std_TimeoutConditionWaiter_wait_while_with_total_timeout_def
  std_TimeoutConditionWaiter_wait_while_for_def

end
