(* ===== verification/Timer_Contract.thy ===== *)
theory Timer_Contract
  imports Monitor_World
begin

text \<open>
  What the timing theorems need of a Timer, which is what its documentation promises: a future
  obtained for an instant completes only when the clock has reached that instant, and the clock
  does not go back. \<open>le\<close> is the order of instants of the Timer's clock domain, \<open>armed i f\<close> that
  \<open>f\<close> is a future for the instant \<open>i\<close>.
\<close>

definition honest_timer ::
  "('k, 'i, 'f, 'e) timer_ops \<Rightarrow> ('i \<Rightarrow> 'i \<Rightarrow> bool) \<Rightarrow> ('i \<Rightarrow> 'f \<Rightarrow> bool) \<Rightarrow> bool"
where
  "honest_timer T le armed \<longleftrightarrow>
     (\<forall>i k f k'. tm_at T i k = (Inr f, k') \<longrightarrow> armed i f) \<and>
     (\<forall>i wk f k r f' k'. armed i f \<and> tm_poll T wk f k = (r, f', k') \<longrightarrow>
        armed i f' \<and> (r = Poll_ready (Inr ()) \<longrightarrow> le i (tm_now T k'))) \<and>
     (\<forall>i k. le i (tm_now T k) \<longrightarrow>
        le i (tm_now T (fst (tm_tick T k))) \<and>
        (\<forall>j. le i (tm_now T (snd (tm_at T j k)))) \<and>
        (\<forall>d. le i (tm_now T (snd (tm_after T d k)))) \<and>
        (\<forall>wk f. le i (tm_now T (snd (snd (tm_poll T wk f k))))))"

lemma honest_timerD:
  assumes "honest_timer T le armed"
  shows "tm_at T i k = (Inr f, k') \<Longrightarrow> armed i f"
    and "armed i f \<Longrightarrow> tm_poll T wk f k = (r, f', k') \<Longrightarrow> armed i f'"
    and "armed i f \<Longrightarrow> tm_poll T wk f k = (Poll_ready (Inr ()), f', k') \<Longrightarrow> le i (tm_now T k')"
    and "le i (tm_now T k) \<Longrightarrow> le i (tm_now T (fst (tm_tick T k)))"
    and "le i (tm_now T k) \<Longrightarrow> le i (tm_now T (snd (tm_at T j k)))"
    and "le i (tm_now T k) \<Longrightarrow> le i (tm_now T (snd (snd (tm_poll T wk f k))))"
    and "le i (tm_now T k) \<Longrightarrow> timer_call T g \<Longrightarrow> le i (tm_now T (g k))"
  using assms by (fastforce simp: honest_timer_def timer_call_def)+

end
