(* ===== verification/Manual_Timer.thy ===== *)
theory Manual_Timer
  imports Timer_Contract
begin

text \<open>
  A Timer to run the models with, in the manner of \<^verbatim>\<open>qubit_clock::ManualMonotonicClock\<close>: time is
  a number of seconds that only a tick moves, an instant is such a number, a future is the instant
  it completes at, and a pending poll leaves its Waker to be invoked by the tick that reaches the
  deadline. It shows that what the theorems assume of a Timer can hold.
\<close>

record manual_clock =
  mc_now :: nat
  mc_wakers :: "(nat \<times> nat) list"

definition manual_poll ::
  "waker \<Rightarrow> nat \<Rightarrow> manual_clock \<Rightarrow> (string + unit) poll \<times> nat \<times> manual_clock"
where
  "manual_poll wk i k =
     (if i \<le> mc_now k then (Poll_ready (Inr ()), i, k)
      else (Poll_pending, i, (case wk of
          Waker_noop \<Rightarrow> k
        | Waker_of a \<Rightarrow> k\<lparr>mc_wakers := mc_wakers k @ [(i, a)]\<rparr>)))"

definition manual_tick :: "manual_clock \<Rightarrow> manual_clock \<times> nat list" where
  "manual_tick k =
     (let n = mc_now k + 1
      in (\<lparr>mc_now = n, mc_wakers = filter (\<lambda>e. n < fst e) (mc_wakers k)\<rparr>,
          map snd (filter (\<lambda>e. fst e \<le> n) (mc_wakers k))))"

text \<open>A deadline beyond \<open>2 ^ 64\<close> seconds is refused.\<close>

definition manual_deadline :: "nat \<Rightarrow> duration \<Rightarrow> string + nat" where
  "manual_deadline i d =
     (if int i + uint (secs d) < 2 ^ 64 then Inr (i + unat (secs d)) else Inl ''deadline overflow'')"

definition manual_timer :: "(manual_clock, nat, nat, string) timer_ops" where
  "manual_timer = \<lparr>tm_now = mc_now,
     tm_checked_add = manual_deadline,
     tm_deadline_after = (\<lambda>d k. manual_deadline (mc_now k) d),
     tm_at = (\<lambda>i k. (Inr i, k)),
     tm_after = (\<lambda>d k. (manual_deadline (mc_now k) d, k)),
     tm_poll = manual_poll,
     tm_tick = manual_tick\<rparr>"

definition manual_start :: manual_clock where
  "manual_start = \<lparr>mc_now = 0, mc_wakers = []\<rparr>"

lemma manual_timer_simps [simp]:
  "tm_now manual_timer k = mc_now k"
  "tm_checked_add manual_timer = manual_deadline"
  "tm_deadline_after manual_timer d k = manual_deadline (mc_now k) d"
  "tm_at manual_timer i k = (Inr i, k)"
  "tm_after manual_timer d k = (manual_deadline (mc_now k) d, k)"
  "tm_poll manual_timer = manual_poll"
  "tm_tick manual_timer = manual_tick"
  by (simp_all add: manual_timer_def)

lemma manual_timer_honest: "honest_timer manual_timer (\<le>) (=)"
  unfolding honest_timer_def
  by (auto simp: manual_poll_def manual_tick_def Let_def split: if_splits waker.splits)

end
