(* ===== verification/Std_Monitor_Spec.thy ===== *)
theory Std_Monitor_Spec
  imports Std_Monitor Manual_Timer
begin

text \<open>
  What the standard monitor guarantees, for every interleaving with other threads: its waits end
  with the predicate satisfied, with a timeout or with a traceable panic, a waiter that stays
  blocked has not been notified, notifications reach the oldest waiters, and a panic poisons
  without making the monitor unusable.
\<close>

lemma std_lock_eq [simp]: "std_lock T = acquire_guard (lock_state (std_platform T))"
  by (rule ext) (simp add: std_lock_def)

lemma std_guard_wait_eq [simp]:
  "std_guard_wait T =
     wait_for_notification (std_platform T) std_slot_message (lock_state (std_platform T))"
  by (rule ext) (simp add: std_guard_wait_def)

lemma std_guard_wait_with_timer_eq [simp]:
  "std_guard_wait_with_timer T =
     wait_with_timer (std_platform T) std_slot_message (lock_state (std_platform T))"
  by (rule ext)+ (simp add: std_guard_wait_with_timer_def)

text \<open>A new monitor is idle, whatever the other threads are going to do.\<close>

lemma std_world_of_idle: "idle (std_platform T) (std_world_of (std_with_timer s T') k sc)"
  by (simp add: idle_def world_inv_def lock_inv_def queue_inv_def regs_within_def std_world_of_def
      std_with_timer_def BlockingWaiterRegistry_new_def mutex_new_def WaiterRegistry_new_def
      registry_inv_def)

lemma std_wait_while_spec:
  "idle (std_platform T) w \<Longrightarrow>
   \<exists>r w'. std_wait_while T waiting p f w = Some (r, w') \<and>
     wait_post (std_platform T) waiting p f r w'"
  unfolding std_wait_while_def std_lock_eq std_guard_wait_eq
  by (rule std.notified.acquire_and_wait_spec)

section \<open>A world to run the monitor in\<close>

text \<open>
  Two worlds of a monitor protecting a counter: in the first another thread increments the counter
  and notifies while the caller is suspended; in the second nobody else runs.
\<close>

definition demo_producer :: "(nat, manual_clock) env_action list list" where
  "demo_producer = [[], [], [],
     [EnvLock, EnvWrite Suc, EnvUnlock False, EnvTakeOne, EnvWake 0], [], []]"

definition demo_world :: "(nat, manual_clock) env_action list list \<Rightarrow> (nat, manual_clock) std_world" where
  "demo_world sc = std_world_of (std_with_timer 0 manual_timer) manual_start sc"

definition demo_empty :: "(unit, nat) predicate" where
  "demo_empty = (\<lambda>p d. (Return (d = 0), p))"

definition demo_take :: "(nat, nat) action" where
  "demo_take = (\<lambda>d. (Return d, d - 1))"

lemma demo_idle: "idle (std_platform manual_timer) (demo_world sc)"
  unfolding demo_world_def by (rule std_world_of_idle)

section \<open>Waiting\<close>



text \<open>C1: when \<^verbatim>\<open>wait_while\<close> returns a value, the predicate had answered false and the action
  then ran, once, on exactly the value the predicate saw; what it wrote is the state the monitor
  is released with, and the thread keeps neither the guard nor a registration.\<close>

theorem std_wait_while_result:
  assumes "idle (std_platform T) w" and "std_wait_while T waiting p f w = Some (Return x, w')"
  shows "idle (std_platform T) w' \<and>
    (\<exists>ds q q' d. held_back waiting p ds = Some q \<and> waiting q d = (Return False, q') \<and>
       f d = (Return x, mx_data (mon_state w')))"
  using std_wait_while_spec [OF assms(1), of waiting p f] assms(2)
  by (auto simp: wait_post_def acted_def)

lemma demo_wait_while_value:
  "map_option fst (std_wait_while manual_timer demo_empty () demo_take (demo_world demo_producer)) =
     Some (Return 1)"
  by code_simp

theorem std_wait_while_result_witness:
  "\<exists>w'. std_wait_while manual_timer demo_empty () demo_take (demo_world demo_producer) =
      Some (Return 1, w') \<and> idle (std_platform manual_timer) w'"
proof -
  obtain w' where run: "std_wait_while manual_timer demo_empty () demo_take (demo_world demo_producer) =
      Some (Return 1, w')"
    using demo_wait_while_value by auto
  show ?thesis using run std_wait_while_result [OF demo_idle run] by blast
qed




text \<open>C32: a panic out of \<^verbatim>\<open>wait_while\<close> comes from the caller's predicate, from the caller's
  action or from exhausted waiter identifiers, never from the guard slot; it leaves the thread
  without guard and registration, and the monitor poisoned and unlocked.\<close>

theorem std_wait_while_panics:
  assumes "idle (std_platform T) w" and "std_wait_while T waiting p f w = Some (Panic m, w')"
  shows "idle (std_platform T) w' \<and> is_poisoned (mon_state w') \<and> \<not> mx_locked (mon_state w') \<and>
    (m = ''monitor waiter identifiers exhausted'' \<or>
     (\<exists>q q' d. waiting q d = (Panic m, q')) \<or> (\<exists>d d'. f d = (Panic m, d')))"
proof -
  have post: "panic_post (std_platform T) waiting p f m w'"
    using std_wait_while_spec [OF assms(1), of waiting p f] assms(2) by (auto simp: wait_post_def)
  then obtain v where "held (std_platform T) v" and w': "w' = drop_guard (std_platform T) True v"
    by (auto simp: panic_post_def unwound_def)
  then have "is_poisoned (mon_state w')" and "\<not> mx_locked (mon_state w')"
    by (simp_all add: w' std.drop_guard_eq held_def mutex_guard_drop_def is_poisoned_def)
  then show ?thesis using post by (auto simp: panic_post_def observed_def acted_def)
qed

lemma demo_panic_value:
  "map_option fst (std_wait_while manual_timer (\<lambda>p d. (Panic ''boom'', p)) () demo_take
     (demo_world [])) = Some (Panic ''boom'')"
  by code_simp

theorem std_wait_while_panics_witness:
  "\<exists>w'. std_wait_while manual_timer (\<lambda>p d. (Panic ''boom'', p)) () demo_take (demo_world []) =
     Some (Panic ''boom'', w') \<and> is_poisoned (mon_state w')"
proof -
  obtain w' where run: "std_wait_while manual_timer (\<lambda>p d. (Panic ''boom'', p)) () demo_take
      (demo_world []) = Some (Panic ''boom'', w')"
    using demo_panic_value by auto
  show ?thesis using run std_wait_while_panics [OF demo_idle run] by blast
qed

end
