(* ===== verification/Std_Timed_Spec.thy ===== *)
theory Std_Timed_Spec
  imports Std_Monitor_Spec
begin

text \<open>
  The timed waits of the standard monitor: what each result means, and the order in which the
  predicate, the Timer and the registry are consulted.
\<close>

section \<open>Every timed wait meets its postcondition\<close>

text \<open>C21: \<^verbatim>\<open>wait_while_for\<close> always reaches an outcome, whatever the Timer and the other threads do,
  and each outcome means what it says: \<^verbatim>\<open>Ready\<close> that the action ran on a value the predicate had
  just released, \<^verbatim>\<open>TimedOut\<close> that the value the monitor is released with still blocks, a Timer
  error or a panic that the thread has given the monitor back.\<close>

theorem std_wait_while_for_outcome:
  assumes "idle (std_platform T) w"
  shows "\<exists>r w'. std_wait_while_for T timeout waiting p f w = Some (r, w') \<and>
    timed_post (std_platform T) waiting p f r w'"
  unfolding std_wait_while_for_def std_lock_eq std_guard_wait_with_timer_eq
  using assms by (rule std.timed.wait_while_for_spec)

theorem std_wait_while_for_outcome_witness:
  "\<exists>r w'. std_wait_while_for manual_timer \<lparr>secs = 1, nanos = 0\<rparr> demo_empty () demo_take
      (demo_world demo_producer) = Some (r, w') \<and>
    timed_post (std_platform manual_timer) demo_empty () demo_take r w'"
  by (rule std_wait_while_for_outcome [OF demo_idle])

lemma std_deadline_spec:
  "idle (std_platform T) w \<Longrightarrow>
   \<exists>r w'. std_wait_while_with_deadline T deadline waiting p f w = Some (r, w') \<and>
     timed_post (std_platform T) waiting p f r w'"
  unfolding std_wait_while_with_deadline_def std_lock_eq std_guard_wait_with_timer_eq
  by (rule std.timed.wait_while_with_deadline_spec)

text \<open>The same for \<^verbatim>\<open>wait_while_with_deadline\<close>.\<close>

theorem std_wait_while_with_deadline_outcome:
  assumes "idle (std_platform T) w"
  shows "\<exists>r w'. std_wait_while_with_deadline T deadline waiting p f w = Some (r, w') \<and>
    timed_post (std_platform T) waiting p f r w'"
  using assms by (rule std_deadline_spec)

theorem std_wait_while_with_deadline_outcome_witness:
  "\<exists>r w'. std_wait_while_with_deadline manual_timer 3 demo_empty () demo_take
      (demo_world demo_producer) = Some (r, w') \<and>
    timed_post (std_platform manual_timer) demo_empty () demo_take r w'"
  by (rule std_wait_while_with_deadline_outcome [OF demo_idle])

text \<open>The total timeout fixes its deadline before it locks: when the Timer refuses the deadline
  the call returns that error and has neither locked the monitor nor called a closure nor
  registered; otherwise it is the wait with that deadline, with its postcondition.\<close>

theorem std_wait_while_with_total_timeout_outcome:
  assumes "idle (std_platform T) w"
  shows "(case tm_deadline_after T timeout (clock (interfere (std_platform T) w)) of
      Inl e \<Rightarrow> std_wait_while_with_total_timeout T timeout waiting p f w =
                Some (Return (Inl e), interfere (std_platform T) w)
    | Inr deadline \<Rightarrow> std_wait_while_with_total_timeout T timeout waiting p f w =
                std_wait_while_with_deadline T deadline waiting p f (interfere (std_platform T) w)) \<and>
    (\<exists>r w'. std_wait_while_with_total_timeout T timeout waiting p f w = Some (r, w') \<and>
       timed_post (std_platform T) waiting p f r w')"
proof -
  have i: "idle (std_platform T) (interfere (std_platform T) w)"
    using assms by (rule std.idle_interfere)
  show ?thesis
    using i std_deadline_spec [OF i, of _ waiting p f]
    by (auto simp: std_wait_while_with_total_timeout_def timer_deadline_after_def Let_def
        timed_post_def split: sum.split)
qed

theorem std_wait_while_with_total_timeout_outcome_witness:
  "std_wait_while_with_total_timeout manual_timer \<lparr>secs = u64_max, nanos = 0\<rparr> demo_empty () demo_take
     ((demo_world [])\<lparr>clock := \<lparr>mc_now = 1, mc_wakers = []\<rparr>\<rparr>) =
   Some (Return (Inl ''deadline overflow''), (demo_world [])\<lparr>clock := \<lparr>mc_now = 1, mc_wakers = []\<rparr>\<rparr>)"
proof -
  let ?w = "(demo_world [])\<lparr>clock := \<lparr>mc_now = 1, mc_wakers = []\<rparr>\<rparr>"
  have "manual_deadline 1 \<lparr>secs = u64_max, nanos = 0\<rparr> = Inl ''deadline overflow''" by code_simp
  moreover have "interfere (std_platform manual_timer) ?w = ?w"
    by (simp add: demo_world_def std_world_of_def)
  moreover have "idle (std_platform manual_timer) ?w" using demo_idle by simp
  ultimately show ?thesis
    using std_wait_while_with_total_timeout_outcome
      [of manual_timer ?w "\<lparr>secs = u64_max, nanos = 0\<rparr>" demo_empty "()" demo_take]
    by simp
qed

section \<open>Order of consultation\<close>

text \<open>With nobody else running, acquiring a free monitor and giving it back changes nothing.\<close>

lemma std_acquire_quiet:
  assumes "idle (std_platform T) w" and "sched w = []" and "\<not> env_holds w"
  shows "acquire_guard (lock_state (std_platform T)) w =
    (Return (), w\<lparr>mon_state := (mon_state w)\<lparr>mx_locked := True\<rparr>, inner := Some Guard\<rparr>)"
  using assms
  by (simp add: acquire_guard_def lock_state_def block_until.simps idle_def world_inv_def lock_inv_def)

lemma std_release_quiet:
  assumes "idle (std_platform T) w" and "sched w = []" and "\<not> env_holds w"
  shows "drop_guard (std_platform T) False
    (w\<lparr>mon_state := (mon_state w)\<lparr>mx_locked := True\<rparr>, inner := Some Guard, clock := k\<rparr>) =
    w\<lparr>clock := k\<rparr>"
  using assms
  by (simp add: drop_guard_def Let_def idle_def world_inv_def lock_inv_def mutex_guard_drop_def)

lemma std_release_quiet':
  assumes "idle (std_platform T) w" and "sched w = []" and "\<not> env_holds w"
  shows "drop_guard (std_platform T) False
    (w\<lparr>mon_state := (mon_state w)\<lparr>mx_locked := True\<rparr>, inner := Some Guard\<rparr>) = w"
  using std_release_quiet [OF assms, of "clock w"] by simp

text \<open>A zero timeout is a probe. If the predicate blocks, the call reports \<^verbatim>\<open>TimedOut\<close> and the
  world is exactly as before: no waiter was allocated or registered, the Timer was not armed and
  the Timer's arithmetic cannot fail the call.\<close>

theorem std_zero_timeout_probe:
  assumes "idle (std_platform T) w" and "sched w = []" and "\<not> env_holds w"
    and "duration_is_zero timeout" and "waiting p (mx_data (mon_state w)) = (Return True, p')"
  shows "std_wait_while_for T timeout waiting p f w = Some (Return (Inr TimedOut), w)"
  using std_acquire_quiet [OF assms(1-3)] std_release_quiet' [OF assms(1-3)] assms(2,4,5)
  by (simp add: std_wait_while_for_def wait_while_for_def timer_now_def Let_def eval_predicate_def
      guard_deref_def end_scope_def)

theorem std_zero_timeout_probe_witness:
  "std_wait_while_for manual_timer \<lparr>secs = 0, nanos = 0\<rparr> demo_empty () demo_take (demo_world []) =
     Some (Return (Inr TimedOut), demo_world [])"
  by (rule std_zero_timeout_probe [OF demo_idle, of _ _ _ _ "()"])
    (simp_all add: demo_world_def std_world_of_def std_with_timer_def mutex_new_def
      duration_is_zero_def demo_empty_def)

text \<open>A ready predicate wins. If the first check under the guard finds the predicate false, the
  deadline is never looked at: the call does what \<^verbatim>\<open>wait_while\<close> does and reports it as
  \<^verbatim>\<open>Ready\<close>, even with an expired or invalid deadline.\<close>

theorem std_ready_beats_deadline:
  assumes "std_lock T w = (Return (), v)"
    and "waiting p (mx_data (mon_state v)) = (Return False, p')"
  shows "std_wait_while_with_deadline T deadline waiting p f w =
    map_option (apfst (map_outcome (\<lambda>x. Inr (Ready x)))) (std_wait_while T waiting p f w)"
proof -
  obtain g where g: "inner v = Some g"
    using std.acquire_occupies assms(1) by fastforce
  then have eval: "eval_predicate (std_platform T) waiting p v = (Return False, p')"
    using assms(2) by (simp add: eval_predicate_def guard_deref_def)
  show ?thesis
    using assms(1) eval
    by (cases "run_action (std_platform T) f v" rule: outcome_pair_cases)
      (simp_all add: std_wait_while_with_deadline_def wait_while_with_deadline_def std_wait_while_def
        wait_while_locked.simps)
qed

theorem std_ready_beats_deadline_witness:
  "\<exists>v. std_lock manual_timer (demo_world []) = (Return (), v) \<and>
    std_wait_while_with_deadline manual_timer 0 (\<lambda>p d. (Return False, p)) () demo_take (demo_world []) =
    map_option (apfst (map_outcome (\<lambda>x. Inr (Ready x))))
      (std_wait_while manual_timer (\<lambda>p d. (Return False, p)) () demo_take (demo_world []))"
proof -
  have quiet: "sched (demo_world []) = []" "\<not> env_holds (demo_world [])"
    by (simp_all add: demo_world_def std_world_of_def)
  obtain v where v: "std_lock manual_timer (demo_world []) = (Return (), v)"
    using std_acquire_quiet [OF demo_idle quiet] by simp
  show ?thesis
    using v std_ready_beats_deadline [OF v, of "\<lambda>p d. (Return False, p)" "()" "()" 0 demo_take]
    by simp
qed

text \<open>A deadline that has passed is reported without suspending: when the predicate blocks and
  the Timer completes the first poll, the call returns at once with \<^verbatim>\<open>TimedOut\<close> or the Timer's
  error, and nothing but the Timer's own state has changed: no waiter was registered.\<close>

theorem std_expired_deadline:
  assumes "idle (std_platform T) w" and "sched w = []" and "\<not> env_holds w"
    and "waiting p (mx_data (mon_state w)) = (Return True, p')"
    and "tm_at T deadline (clock w) = (Inr future, k1)"
    and "tm_poll T Waker_noop future k1 = (Poll_ready result, future', k2)"
  shows "std_wait_while_with_deadline T deadline waiting p f w =
    Some (Return (map_sum id (\<lambda>_. TimedOut) result), w\<lparr>clock := k2\<rparr>)"
proof -
  define v where "v = w\<lparr>mon_state := (mon_state w)\<lparr>mx_locked := True\<rparr>, inner := Some Guard\<rparr>"
  have v: "sched v = []" "clock v = clock w" "inner v = Some Guard"
    "mx_data (mon_state v) = mx_data (mon_state w)"
    using assms(2) by (simp_all add: v_def)
  have at: "timer_at (std_platform T) deadline v = (Inr future, v\<lparr>clock := k1\<rparr>)"
    using assms(5) v by (simp add: timer_at_def)
  have poll: "poll_timer_without_waiter (std_platform T) future (v\<lparr>clock := k1\<rparr>) =
      (Poll_ready result, future', v\<lparr>clock := k2\<rparr>)"
    using assms(6) v by (simp add: poll_timer_without_waiter_def poll_future_def)
  have drop: "drop_guard (std_platform T) False (v\<lparr>clock := k2\<rparr>) = w\<lparr>clock := k2\<rparr>"
    using std_release_quiet [OF assms(1-3), of k2] by (simp add: v_def)
  show ?thesis
    using std_acquire_quiet [OF assms(1-3)] assms(4) v at poll drop
    by (simp add: std_wait_while_with_deadline_def wait_while_with_deadline_def eval_predicate_def
        guard_deref_def end_scope_def v_def [symmetric] split: sum.split)
qed

theorem std_expired_deadline_witness:
  "std_wait_while_with_deadline manual_timer 0 demo_empty () demo_take (demo_world []) =
     Some (Return (Inr TimedOut), demo_world [])"
proof -
  have quiet: "sched (demo_world []) = []" "\<not> env_holds (demo_world [])"
    "demo_empty () (mx_data (mon_state (demo_world []))) = (Return True, ())"
    by (simp_all add: demo_world_def std_world_of_def std_with_timer_def mutex_new_def demo_empty_def)
  show ?thesis
    using std_expired_deadline [OF demo_idle quiet(1,2), of demo_empty "()" "()", OF quiet(3), of 0 0 "clock (demo_world [])" "Inr ()" 0
        "clock (demo_world [])" demo_take]
    by (simp add: manual_poll_def)
qed

end
