(* ===== verification/Std_Guard_Spec.thy ===== *)
theory Std_Guard_Spec
  imports Std_Timed_Spec
begin

text \<open>
  The guard, notification and poison behaviour of the standard monitor.
\<close>

section \<open>Spurious wake-ups\<close>

text \<open>The steps of other threads that can set a latch.\<close>

fun waking :: "('t, 'k) env_action \<Rightarrow> bool" where
  "waking (EnvWake _) = True"
| "waking EnvTick = True"
| "waking _ = False"

definition no_wakes :: "('t, 'k) env_action list list \<Rightarrow> bool" where
  "no_wakes sc \<longleftrightarrow> (\<forall>as \<in> set sc. \<forall>s \<in> set as. \<not> waking s)"

definition unsignalled :: "nat \<Rightarrow> ('m, 't, 'k) world \<Rightarrow> bool" where
  "unsignalled a w \<longleftrightarrow> a < length (arena w) \<and> \<not> is_signalled (arena w ! a) \<and> no_wakes (sched w)"

lemma unsignalled_step:
  "unsignalled a w \<Longrightarrow> \<not> waking s \<Longrightarrow> unsignalled a (env_step P s w)"
proof (cases s)
  case (EnvSpurious b)
  then show "unsignalled a w \<Longrightarrow> ?thesis"
    by (cases "b = a") (auto simp: unsignalled_def is_signalled_def)
qed (auto simp: unsignalled_def bwr_register_def bwr_take_one_eq bwr_take_all_eq bwr_unregister_def
    nth_append Let_def split: outcome.splits option.splits prod.splits list.splits)

lemma unsignalled_run:
  "unsignalled a w \<Longrightarrow> \<forall>s \<in> set as. \<not> waking s \<Longrightarrow> unsignalled a (env_run P as w)"
  unfolding env_run_def by (induction as arbitrary: w) (auto simp: unsignalled_step)

lemma unsignalled_next:
  assumes "unsignalled a w" and "sched w = as # rest"
  shows "unsignalled a (env_run P as (w\<lparr>sched := rest\<rparr>))"
  using assms by (intro unsignalled_run) (auto simp: unsignalled_def no_wakes_def)

lemma unsignalled_interfere: "unsignalled a w \<Longrightarrow> unsignalled a (interfere P w)"
  by (auto simp: interfere_def unsignalled_next split: list.split)

lemma unsignalled_block_until:
  "unsignalled a w \<Longrightarrow> block_until P ready w = (ok, w') \<Longrightarrow> unsignalled a w'"
proof (induction P ready w rule: block_until.induct)
  case (1 P ready w)
  show ?case
  proof (cases "ready w \<or> sched w = []")
    case True
    then show ?thesis
      using "1.prems" by (auto simp: block_until.simps [of P ready w] split: if_splits)
  next
    case False
    then obtain as rest where s: "sched w = as # rest" by (cases "sched w") auto
    show ?thesis
      using "1.IH" [OF _ s] False "1.prems" s unsignalled_next [OF "1.prems"(1) s]
      by (auto simp: block_until.simps [of P ready w])
  qed
qed

lemma unsignalled_cell:
  "is_signalled c = is_signalled (arena w ! a) \<Longrightarrow>
   unsignalled a (w\<lparr>arena := (arena w)[a := c]\<rparr>) = unsignalled a w"
  by (auto simp: unsignalled_def)

lemma waiter_wait_loop_unsignalled:
  "unsignalled a w \<Longrightarrow> fst (waiter_wait_loop P a w) = Blocked"
proof (induction "length (sched w)" arbitrary: w rule: less_induct)
  case less
  define w1 where "w1 = w\<lparr>arena := (arena w)[a := waiter_park (arena w ! a)]\<rparr>"
  have u1: "unsignalled a w1" using less.prems by (simp add: w1_def unsignalled_cell)
  have latch: "\<not> is_signalled (arena w ! a)" using less.prems by (simp add: unsignalled_def)
  show ?case
  proof (cases "sched w")
    case Nil
    then show ?thesis using latch by (simp add: waiter_wait_loop.simps [of P a w] Let_def)
  next
    case (Cons as rest)
    define w2 where "w2 = env_run P as (w1\<lparr>sched := rest\<rparr>)"
    have u2: "unsignalled a w2"
      unfolding w2_def using u1 by (rule unsignalled_next) (simp add: w1_def Cons)
    obtain ok w3 where block: "block_until P (\<lambda>v. waiter_woken (arena v ! a)) w2 = (ok, w3)"
      by fastforce
    have u3: "unsignalled a w3" using u2 block by (rule unsignalled_block_until)
    have "length (sched w3) < length (sched w)"
      using block_until_sched [OF block] by (simp add: w2_def Cons)
    then have "fst (waiter_wait_loop P a (w3\<lparr>arena := (arena w3)[a := waiter_resume (arena w3 ! a)]\<rparr>)) =
        Blocked"
      using u3 by (intro less.hyps) (simp_all add: unsignalled_cell)
    then show ?thesis
      using latch Cons block
      by (cases ok) (simp_all add: waiter_wait_loop.simps [of P a w] Let_def w2_def w1_def)
  qed
qed

context state_backend
begin

lemma no_spurious_return:
  assumes "held P w" and "no_wakes (sched w)"
  shows "fst (wait_for_notification P m (lock_state P) w) \<noteq> Return ()"
proof
  assume "fst (wait_for_notification P m (lock_state P) w) = Return ()"
  then obtain w' where "wait_for_notification P m (lock_state P) w = (Return (), w')"
    by (cases "wait_for_notification P m (lock_state P) w") auto
  then obtain g w1 v u where reg: "register_waiter P w = (Return g, w1)"
    and rel: "on_unwind (registration_drop P g) (release_guard P m w1) = (Return (), v)"
    and wait: "waiter_wait P (waiter g) v = (Return (), u)"
    by (auto simp: wait_for_notification_def elim!: and_then_ReturnD)
  have g: "enrolled P g w1" "holds_guard w1" "\<not> is_signalled (arena w1 ! waiter g)"
    using register_spec [OF assms(1) reg] by auto
  have "sched w1 = sched (interfere P w)"
    using reg by (auto simp: register_waiter_def bwr_register_def Let_def split: prod.splits)
  then have "no_wakes (sched w1)"
    using assms(2) by (auto simp: interfere_def no_wakes_def split: list.split)
  then have u1: "unsignalled (waiter g) w1"
    using g by (simp add: unsignalled_def enrolled_def attended_def)
  have v: "v = drop_guard P False w1" using rel release_enrolled [OF g(1,2)] by simp
  have "unsignalled (waiter g) v"
    using unsignalled_interfere [OF u1, of P]
    by (simp add: v drop_guard_eq [OF g(2)]) (simp add: unsignalled_def)
  then have "fst (waiter_wait P (waiter g) v) = Blocked"
    unfolding waiter_wait_def by (intro waiter_wait_loop_unsignalled unsignalled_interfere)
  then show False using wait by simp
qed

end


definition demo_held :: "(nat, manual_clock) env_action list list \<Rightarrow> (nat, manual_clock) std_world" where
  "demo_held sc = (snd (std_lock manual_timer (demo_world [])))\<lparr>sched := sc\<rparr>"

lemma demo_held: "held (std_platform manual_timer) (demo_held sc)"
proof -
  have quiet: "sched (demo_world []) = []" "\<not> env_holds (demo_world [])"
    by (simp_all add: demo_world_def std_world_of_def)
  have "held (std_platform manual_timer) (snd (std_lock manual_timer (demo_world [])))"
    using std.acquire_spec [OF demo_idle std_acquire_quiet [OF demo_idle quiet]]
      std_acquire_quiet [OF demo_idle quiet] by auto
  then show ?thesis
    by (simp add: demo_held_def held_def world_inv_def lock_inv_def regs_within_def holds_guard_def)
qed


section \<open>Guards\<close>

text \<open>\<^verbatim>\<open>StdMonitorGuard::wait\<close> hands the guard back: when it returns, and also when it panics
  because identifiers are exhausted, the thread holds the monitor and has no registration left; the
  only other possibility is that it is still suspended.\<close>

theorem std_guard_wait_keeps_guard:
  assumes "held (std_platform T) w" and "std_guard_wait T w = (r, w')"
  shows "(r = Return () \<and> held (std_platform T) w') \<or>
    (r = Panic ''monitor waiter identifiers exhausted'' \<and> held (std_platform T) w') \<or>
    (r = Blocked \<and> (stuck_waiting (std_platform T) w' \<or> stuck_locking (std_platform T) w'))"
  using std.wait_for_notification_spec [OF assms(1)] assms(2) by simp

theorem std_guard_wait_keeps_guard_witness:
  "\<exists>w'. std_guard_wait manual_timer (demo_held demo_producer) = (Return (), w') \<and>
     held (std_platform manual_timer) w'"
proof -
  have "fst (std_guard_wait manual_timer (demo_held demo_producer)) = Return ()"
    by code_simp
  then obtain w' where run: "std_guard_wait manual_timer (demo_held demo_producer) = (Return (), w')"
    by (cases "std_guard_wait manual_timer (demo_held demo_producer)") auto
  show ?thesis using run std_guard_wait_keeps_guard [OF demo_held run] by simp
qed

lemma std_timed_guard:
  assumes "held (std_platform T) w"
    and "apfst (map_outcome fst) (std_guard_wait_with_timer T future w) = (r, w')"
  shows "(\<exists>res. r = Return res \<and> held (std_platform T) w') \<or>
    (r = Panic ''monitor waiter identifiers exhausted'' \<and> held (std_platform T) w') \<or>
    (r = Blocked \<and> (stuck_waiting (std_platform T) w' \<or> stuck_locking (std_platform T) w'))"
proof -
  obtain r1 w1 where run: "wait_with_timer (std_platform T) std_slot_message
      (lock_state (std_platform T)) future w = (r1, w1)" by fastforce
  show ?thesis using std.wait_with_timer_spec [OF assms(1) run] assms(2) run by auto
qed

text \<open>The timed guard waits \<^verbatim>\<open>wait_for\<close> and \<^verbatim>\<open>wait_until\<close> report a status or a Timer error
  only while the thread holds the monitor, also when the Timer fails after the guard had been
  released.\<close>

theorem std_guard_timed_waits_keep_guard:
  assumes "held (std_platform T) w"
    and "std_guard_wait_for T timeout w = (r, w') \<or> std_guard_wait_until T deadline w = (r, w')"
  shows "(\<exists>res. r = Return res \<and> held (std_platform T) w') \<or>
    (r = Panic ''monitor waiter identifiers exhausted'' \<and> held (std_platform T) w') \<or>
    (r = Blocked \<and> (stuck_waiting (std_platform T) w' \<or> stuck_locking (std_platform T) w'))"
proof -
  obtain x v where after: "timer_after (std_platform T) timeout w = (x, v)" by fastforce
  obtain y u where at: "timer_at (std_platform T) deadline w = (y, u)" by fastforce
  have h: "held (std_platform T) v" "held (std_platform T) u"
    using std.timer_calls_held(3) [OF assms(1) after] std.timer_calls_held(2) [OF assms(1) at]
    by simp_all
  show ?thesis
    using assms(2)
  proof
    assume "std_guard_wait_for T timeout w = (r, w')"
    then show ?thesis
      using std_timed_guard [OF h(1)] h(1) after
      by (cases x) (auto simp: std_guard_wait_for_def simp del: std_guard_wait_with_timer_eq)
  next
    assume "std_guard_wait_until T deadline w = (r, w')"
    then show ?thesis
      using std_timed_guard [OF h(2)] h(2) at
      by (cases y) (auto simp: std_guard_wait_until_def simp del: std_guard_wait_with_timer_eq)
  qed
qed

lemma demo_guard_times_out:
  "fst (std_guard_wait_for manual_timer \<lparr>secs = 1, nanos = 0\<rparr>
     (demo_held [[], [], [], [], [], [EnvTick], [], []])) = Return (Inr StatusTimedOut)"
  by code_simp

theorem std_guard_timed_waits_keep_guard_witness:
  "\<exists>w'. std_guard_wait_for manual_timer \<lparr>secs = 1, nanos = 0\<rparr>
      (demo_held [[], [], [], [], [], [EnvTick], [], []]) = (Return (Inr StatusTimedOut), w') \<and>
    held (std_platform manual_timer) w'"
proof -
  let ?w = "demo_held [[], [], [], [], [], [EnvTick], [], []]"
  obtain w' where run: "std_guard_wait_for manual_timer \<lparr>secs = 1, nanos = 0\<rparr> ?w =
      (Return (Inr StatusTimedOut), w')"
    using demo_guard_times_out
    by (cases "std_guard_wait_for manual_timer \<lparr>secs = 1, nanos = 0\<rparr> ?w") auto
  show ?thesis
    using run std_guard_timed_waits_keep_guard [OF demo_held disjI1 [OF run]] by simp
qed

end
