(* ===== verification/Monitor_Traits.thy ===== *)
theory Monitor_Traits
  imports Monitor_World
begin

text \<open>
  The provided methods of the blocking monitor traits (\<^verbatim>\<open>Notifier\<close>, \<^verbatim>\<open>ConditionWaiter\<close>,
  \<^verbatim>\<open>TimeoutConditionWaiter\<close>, \<^verbatim>\<open>Monitor\<close>) and their implementations for \<^verbatim>\<open>Arc<M>\<close>. A provided
  method is a function of the required methods it calls, which are its first arguments; \<open>'c\<close> is
  the type of the remaining call, a function of the implementor's world.
\<close>

section \<open>condition_waiter.rs\<close>

type_synonym ('p, 't, 'r, 'c) wait_method = "('p, 't) predicate \<Rightarrow> 'p \<Rightarrow> ('t, 'r) action \<Rightarrow> 'c"

definition ConditionWaiter_wait_until ::
  "('p, 't, 'r, 'c) wait_method \<Rightarrow> ('p, 't, 'r, 'c) wait_method"
where
  "ConditionWaiter_wait_until wait_while predicate p action =
     wait_while (not_pred predicate) p action"

definition ConditionWaiter_wait_until_ready ::
  "('p, 't, unit, 'c) wait_method \<Rightarrow> ('p, 't) predicate \<Rightarrow> 'p \<Rightarrow> 'c"
where
  "ConditionWaiter_wait_until_ready wait_until predicate p = wait_until predicate p no_action"

definition Arc_wait_while :: "('p, 't, 'r, 'c) wait_method \<Rightarrow> ('p, 't, 'r, 'c) wait_method" where
  "Arc_wait_while wait_while predicate p action = wait_while predicate p action"

section \<open>timeout_condition_waiter.rs\<close>

text \<open>The bound \<open>'b\<close> is a timeout or a deadline.\<close>

definition TimeoutConditionWaiter_wait_until_with_deadline ::
  "('i \<Rightarrow> ('p, 't, 'r, 'c) wait_method) \<Rightarrow> 'i \<Rightarrow> ('p, 't, 'r, 'c) wait_method"
where
  "TimeoutConditionWaiter_wait_until_with_deadline wait_while_with_deadline deadline predicate p action =
     wait_while_with_deadline deadline (not_pred predicate) p action"

definition TimeoutConditionWaiter_wait_until_ready_with_deadline ::
  "('i \<Rightarrow> ('p, 't, unit, 'c) wait_method) \<Rightarrow> 'i \<Rightarrow> ('p, 't) predicate \<Rightarrow> 'p \<Rightarrow> 'c"
where
  "TimeoutConditionWaiter_wait_until_ready_with_deadline wait_until_with_deadline deadline predicate p =
     wait_until_with_deadline deadline predicate p no_action"

definition TimeoutConditionWaiter_wait_until_with_total_timeout ::
  "(duration \<Rightarrow> ('p, 't, 'r, 'c) wait_method) \<Rightarrow> duration \<Rightarrow> ('p, 't, 'r, 'c) wait_method"
where
  "TimeoutConditionWaiter_wait_until_with_total_timeout wait_while_with_total_timeout timeout predicate p
     action = wait_while_with_total_timeout timeout (not_pred predicate) p action"

definition TimeoutConditionWaiter_wait_until_ready_with_total_timeout ::
  "(duration \<Rightarrow> ('p, 't, unit, 'c) wait_method) \<Rightarrow> duration \<Rightarrow> ('p, 't) predicate \<Rightarrow> 'p \<Rightarrow> 'c"
where
  "TimeoutConditionWaiter_wait_until_ready_with_total_timeout wait_until_with_total_timeout timeout
     predicate p = wait_until_with_total_timeout timeout predicate p no_action"

definition TimeoutConditionWaiter_wait_until_for ::
  "(duration \<Rightarrow> ('p, 't, 'r, 'c) wait_method) \<Rightarrow> duration \<Rightarrow> ('p, 't, 'r, 'c) wait_method"
where
  "TimeoutConditionWaiter_wait_until_for wait_while_for timeout predicate p action =
     wait_while_for timeout (not_pred predicate) p action"

definition TimeoutConditionWaiter_wait_until_ready_for ::
  "(duration \<Rightarrow> ('p, 't, unit, 'c) wait_method) \<Rightarrow> duration \<Rightarrow> ('p, 't) predicate \<Rightarrow> 'p \<Rightarrow> 'c"
where
  "TimeoutConditionWaiter_wait_until_ready_for wait_until_for timeout predicate p =
     wait_until_for timeout predicate p no_action"

definition Arc_wait_while_with_deadline ::
  "('i \<Rightarrow> ('p, 't, 'r, 'c) wait_method) \<Rightarrow> 'i \<Rightarrow> ('p, 't, 'r, 'c) wait_method"
where
  "Arc_wait_while_with_deadline wait_while_with_deadline deadline predicate p action =
     wait_while_with_deadline deadline predicate p action"

definition Arc_wait_while_with_total_timeout ::
  "(duration \<Rightarrow> ('p, 't, 'r, 'c) wait_method) \<Rightarrow> duration \<Rightarrow> ('p, 't, 'r, 'c) wait_method"
where
  "Arc_wait_while_with_total_timeout wait_while_with_total_timeout timeout predicate p action =
     wait_while_with_total_timeout timeout predicate p action"

definition Arc_wait_while_for ::
  "(duration \<Rightarrow> ('p, 't, 'r, 'c) wait_method) \<Rightarrow> duration \<Rightarrow> ('p, 't, 'r, 'c) wait_method"
where
  "Arc_wait_while_for wait_while_for timeout predicate p action =
     wait_while_for timeout predicate p action"

section \<open>notifier.rs and monitor.rs\<close>

definition Arc_notify_one :: "('s \<Rightarrow> unit outcome \<times> 's) \<Rightarrow> 's \<Rightarrow> unit outcome \<times> 's" where
  "Arc_notify_one notify_one s = notify_one s"

definition Arc_notify_all :: "('s \<Rightarrow> unit outcome \<times> 's) \<Rightarrow> 's \<Rightarrow> unit outcome \<times> 's" where
  "Arc_notify_all notify_all s = notify_all s"

definition Monitor_with_write_notify_one ::
  "(('t, 'r) action \<Rightarrow> 's \<Rightarrow> 'r outcome \<times> 's) \<Rightarrow> ('s \<Rightarrow> unit outcome \<times> 's) \<Rightarrow>
   ('t, 'r) action \<Rightarrow> 's \<Rightarrow> 'r outcome \<times> 's"
where
  "Monitor_with_write_notify_one with_write notify_one f s =
     and_then (with_write f s) (\<lambda>result s.
     and_then (notify_one s) (\<lambda>_ s. (Return result, s)))"

definition Monitor_with_write_notify_all ::
  "(('t, 'r) action \<Rightarrow> 's \<Rightarrow> 'r outcome \<times> 's) \<Rightarrow> ('s \<Rightarrow> unit outcome \<times> 's) \<Rightarrow>
   ('t, 'r) action \<Rightarrow> 's \<Rightarrow> 'r outcome \<times> 's"
where
  "Monitor_with_write_notify_all with_write notify_all f s =
     and_then (with_write f s) (\<lambda>result s.
     and_then (notify_all s) (\<lambda>_ s. (Return result, s)))"

definition Arc_with_read ::
  "(('t \<Rightarrow> 'r outcome) \<Rightarrow> 's \<Rightarrow> 'r outcome \<times> 's) \<Rightarrow> ('t \<Rightarrow> 'r outcome) \<Rightarrow> 's \<Rightarrow> 'r outcome \<times> 's"
where
  "Arc_with_read with_read f s = with_read f s"

definition Arc_with_write ::
  "(('t, 'r) action \<Rightarrow> 's \<Rightarrow> 'r outcome \<times> 's) \<Rightarrow> ('t, 'r) action \<Rightarrow> 's \<Rightarrow> 'r outcome \<times> 's"
where
  "Arc_with_write with_write f s = with_write f s"

lemmas trait_method_defs =
  ConditionWaiter_wait_until_def ConditionWaiter_wait_until_ready_def
  TimeoutConditionWaiter_wait_until_with_deadline_def
  TimeoutConditionWaiter_wait_until_ready_with_deadline_def
  TimeoutConditionWaiter_wait_until_with_total_timeout_def
  TimeoutConditionWaiter_wait_until_ready_with_total_timeout_def
  TimeoutConditionWaiter_wait_until_for_def TimeoutConditionWaiter_wait_until_ready_for_def
  Monitor_with_write_notify_one_def Monitor_with_write_notify_all_def

lemmas arc_method_defs =
  Arc_wait_while_def Arc_wait_while_with_deadline_def Arc_wait_while_with_total_timeout_def
  Arc_wait_while_for_def Arc_notify_one_def Arc_notify_all_def Arc_with_read_def Arc_with_write_def

end
