(* ===== verification/Std_Notify_Spec.thy ===== *)
theory Std_Notify_Spec
  imports Std_Guard_Spec Monitor_Traits
begin

text \<open>
  Notification, closure access and poisoning of the standard monitor, and the agreement of its
  inherent methods with the trait methods reached through \<^verbatim>\<open>Arc\<close>.
\<close>

section \<open>Notification\<close>


definition demo_waiters :: "nat \<Rightarrow> (nat, manual_clock) std_world" where
  "demo_waiters n = env_run (std_platform manual_timer) (replicate n EnvRegister) (demo_world [])"

lemma demo_waiters_idle: "idle (std_platform manual_timer) (demo_waiters n)" "sched (demo_waiters n) = []"
proof -
  have "sched (demo_world []) = []" by (simp add: demo_world_def std_world_of_def)
  then show "sched (demo_waiters n) = []" by (simp add: demo_waiters_def)
  show "idle (std_platform manual_timer) (demo_waiters n)"
    using env_stable_run [OF std.stable_regs [of manual_timer "{}"]] demo_idle [of "[]"]
    by (auto simp: demo_waiters_def idle_def)
qed


text \<open>\<^verbatim>\<open>notify_all\<close> empties the registry and sets the latch of every waiter that was registered,
  and of no other.\<close>

theorem std_notify_all_everyone:
  assumes "idle (std_platform T) w" and "sched w = []"
  shows "\<exists>w'. std_notify_all T w = (Return (), w') \<and> idle (std_platform T) w' \<and>
    active w' = [] \<and> signalled_set w' = signalled_set w \<union> snd ` set (active w) \<and>
    mon_state w' = mon_state w"
proof -
  obtain w' where run: "bwr_notify_all (std_platform T) w = (Return (), w')"
    and idle': "idle (std_platform T) w'"
    using std.notify_all_spec [OF assms(1)] by blast
  have "queue_inv w" using assms(1) by (simp add: idle_def world_inv_def)
  note q = notify_all_quiet [OF this assms(2) run]
  show ?thesis using run idle' q by (simp add: std_notify_all_def)
qed

theorem std_notify_all_everyone_witness:
  "\<exists>w'. std_notify_all manual_timer (demo_waiters 2) = (Return (), w') \<and>
     active w' = [] \<and> signalled_set w' = signalled_set (demo_waiters 2) \<union> {0, 1}"
proof -
  have "active (demo_waiters 2) = [(1, 0), (2, 1)]" by code_simp
  then show ?thesis
    using std_notify_all_everyone [OF demo_waiters_idle, of 2] by auto
qed

text \<open>Under any interference, a notification reaches the waiters that are registered at the
  moment it selects: \<^verbatim>\<open>notify_one\<close> the oldest of them, \<^verbatim>\<open>notify_all\<close> each of them; their latches
  are set when the call returns.\<close>

theorem std_notify_reaches_selected:
  assumes "idle (std_platform T) w"
  shows "(\<exists>w'. std_notify_one T w = (Return (), w') \<and> idle (std_platform T) w' \<and>
      snd ` set (take 1 (active (interfere (std_platform T) w))) \<subseteq> signalled_set w') \<and>
    (\<exists>w'. std_notify_all T w = (Return (), w') \<and> idle (std_platform T) w' \<and>
      snd ` set (active (interfere (std_platform T) w)) \<subseteq> signalled_set w')"
  using std.notify_one_spec [OF assms] std.notify_all_spec [OF assms]
  by (simp add: std_notify_one_def std_notify_all_def)

theorem std_notify_reaches_selected_witness:
  "\<exists>w'. std_notify_all manual_timer ((demo_waiters 2)\<lparr>sched := [[EnvTakeOne], [EnvWake 0]]\<rparr>) =
     (Return (), w') \<and> idle (std_platform manual_timer) w'"
proof -
  have "idle (std_platform manual_timer) ((demo_waiters 2)\<lparr>sched := [[EnvTakeOne], [EnvWake 0]]\<rparr>)"
    using demo_waiters_idle [of 2]
    by (simp add: idle_def world_inv_def lock_inv_def regs_within_def)
  from std_notify_reaches_selected [OF this] show ?thesis by blast
qed

section \<open>Closures and poison\<close>

text \<open>\<^verbatim>\<open>with_write\<close> runs the action exactly once, on the value the acquisition found, and keeps
  what it wrote, also when it panics; a panic poisons the monitor. A poisoned monitor is acquired
  like any other: the only way not to run the action is that another thread keeps the monitor.\<close>

theorem std_with_write_outcome:
  assumes "idle (std_platform T) w" and "std_with_write T f w = (r, w')"
  shows "(\<exists>v. std_lock T w = (Return (), v) \<and>
      f (mx_data (mon_state v)) = (r, mx_data (mon_state w')) \<and>
      (if r = Blocked then held (std_platform T) w' else idle (std_platform T) w') \<and>
      (is_panic r \<longrightarrow> is_poisoned (mon_state w'))) \<or>
    (r = Blocked \<and> stuck_locking (std_platform T) w')"
proof -
  have run: "and_then (acquire_guard (lock_state (std_platform T)) w)
      (\<lambda>_ w. end_scope (std_platform T) (run_action (std_platform T) f w)) = (r, w')"
    using assms(2) by (simp add: std_with_write_def)
  have poison: "is_poisoned (mon_state w')"
    if v: "acquire_guard (lock_state (std_platform T)) w = (Return (), v)" and p: "is_panic r" for v
  proof -
    obtain o2 u where act: "run_action (std_platform T) f v = (o2, u)" by fastforce
    have "inner u \<noteq> None" using std.run_action_inner [OF act] std.acquire_occupies [OF v] by simp
    then show ?thesis
      using run v act p
      by (cases o2) (auto simp: std.drop_guard_eq holds_guard_def mutex_guard_drop_def is_poisoned_def)
  qed
  show ?thesis using std.with_write_spec [OF assms(1) run] poison by auto
qed

theorem std_with_write_outcome_witness:
  "\<exists>w'. std_with_write manual_timer (\<lambda>d. (Panic ''boom'', d + 5)) (demo_world []) =
      (Panic ''boom'' :: unit outcome, w') \<and> is_poisoned (mon_state w')"
proof -
  let ?f = "\<lambda>d :: nat. (Panic ''boom'' :: unit outcome, d + 5)"
  have "fst (std_with_write manual_timer ?f (demo_world [])) = Panic ''boom''"
    by code_simp
  then obtain w' where run: "std_with_write manual_timer ?f (demo_world []) = (Panic ''boom'', w')"
    by (cases "std_with_write manual_timer ?f (demo_world [])") auto
  show ?thesis using run std_with_write_outcome [OF demo_idle run] by auto
qed

text \<open>Reading and writing without interference, exactly: the result and the stored value are
  those of the closure, the poison marker is set by a panic and never reset, and nothing else
  changes; in particular a poisoned monitor stays usable.\<close>

theorem std_access_exact:
  assumes "idle (std_platform T) w" and "sched w = []" and "\<not> env_holds w"
    and "f (mx_data (mon_state w)) = (r, d')" and "r \<noteq> Blocked"
    and "g (mx_data (mon_state w)) = s" and "s \<noteq> Blocked"
  shows "std_with_write T f w =
      (r, w\<lparr>mon_state := (mon_state w)
         \<lparr>mx_data := d', mx_poisoned := (is_poisoned (mon_state w) \<or> is_panic r)\<rparr>\<rparr>) \<and>
    std_with_read T g w =
      (s, w\<lparr>mon_state := (mon_state w)
         \<lparr>mx_poisoned := (is_poisoned (mon_state w) \<or> is_panic s)\<rparr>\<rparr>)"
proof -
  have free: "\<not> mx_locked (mon_state w)" "inner w = None"
    using assms(1,3) by (simp_all add: idle_def world_inv_def lock_inv_def)
  have "std_with_write T f w =
      (r, w\<lparr>mon_state := (mon_state w)
         \<lparr>mx_data := d', mx_poisoned := (is_poisoned (mon_state w) \<or> is_panic r)\<rparr>\<rparr>)"
    using std_acquire_quiet [OF assms(1-3)] assms(2,4,5) free
    by (cases r) (simp_all add: std_with_write_def run_action_def guard_deref_def drop_guard_def
        mutex_guard_drop_def is_poisoned_def)
  moreover have "std_with_read T g w =
      (s, w\<lparr>mon_state := (mon_state w)
         \<lparr>mx_poisoned := (is_poisoned (mon_state w) \<or> is_panic s)\<rparr>\<rparr>)"
    using std_acquire_quiet [OF assms(1-3)] assms(2,6,7) free
    by (cases s) (simp_all add: std_with_read_def run_action_def guard_deref_def drop_guard_def
        mutex_guard_drop_def is_poisoned_def)
  ultimately show ?thesis ..
qed

definition demo_poisoned :: "(nat, manual_clock) std_world" where
  "demo_poisoned = (demo_world [])\<lparr>mon_state := (mutex_new 4)\<lparr>mx_poisoned := True\<rparr>\<rparr>"

theorem std_access_exact_witness:
  "std_with_write manual_timer (\<lambda>d. (Return (d + 1), d * 2)) demo_poisoned =
     (Return 5, demo_poisoned\<lparr>mon_state := (mutex_new 8)\<lparr>mx_poisoned := True\<rparr>\<rparr>)"
proof -
  have idle: "idle (std_platform manual_timer) demo_poisoned"
    using demo_idle [of "[]"]
    by (simp add: demo_poisoned_def idle_def world_inv_def lock_inv_def regs_within_def mutex_new_def)
      (simp add: demo_world_def std_world_of_def)
  have quiet: "sched demo_poisoned = []" "\<not> env_holds demo_poisoned"
    by (simp_all add: demo_poisoned_def demo_world_def std_world_of_def)
  show ?thesis
    using std_access_exact [OF idle quiet, of "\<lambda>d. (Return (d + 1), d * 2)" "Return 5" 8 Return
        "Return 4"]
    by (simp add: demo_poisoned_def mutex_new_def is_poisoned_def)
qed

text \<open>\<^verbatim>\<open>clear_poison\<close> resets the marker and keeps the value and every registration; afterwards
  \<^verbatim>\<open>is_poisoned\<close> answers false until a closure panics.\<close>

theorem std_clear_poison_exact:
  assumes "std_clear_poison T w = (r, w')"
  shows "r = Return () \<and> \<not> is_poisoned (mon_state w') \<and>
    mx_data (mon_state w') = mx_data (mon_state (interfere (std_platform T) w)) \<and>
    mx_locked (mon_state w') = mx_locked (mon_state (interfere (std_platform T) w)) \<and>
    mon_waiters w' = mon_waiters (interfere (std_platform T) w) \<and>
    (sched w' = [] \<longrightarrow> std_is_poisoned T w' = (Return False, w'))"
  using assms
  by (auto simp: std_clear_poison_def std_is_poisoned_def clear_poison_def is_poisoned_def Let_def)

theorem std_clear_poison_exact_witness:
  "\<exists>w'. std_clear_poison manual_timer demo_poisoned = (Return (), w') \<and>
     \<not> is_poisoned (mon_state w') \<and> mx_data (mon_state w') = 4"
proof -
  obtain r w' where run: "std_clear_poison manual_timer demo_poisoned = (r, w')" by fastforce
  have "interfere (std_platform manual_timer) demo_poisoned = demo_poisoned"
    by (simp add: demo_poisoned_def demo_world_def std_world_of_def)
  then show ?thesis
    using run std_clear_poison_exact [OF run] by (simp add: demo_poisoned_def mutex_new_def)
qed

section \<open>Inherent and trait methods agree\<close>

text \<open>The inherent \<^verbatim>\<open>with_write_notify_one\<close> and \<^verbatim>\<open>with_write_notify_all\<close>, which run through
  the guard, behave exactly like the provided trait methods, which write and then notify, also when
  those are reached through an \<^verbatim>\<open>Arc\<close>: the guard is released before anyone is notified, and a
  panicking action notifies nobody.\<close>

theorem std_write_notify_is_trait_default:
  "std_with_write_notify_one T f =
     Monitor_with_write_notify_one (Arc_with_write (std_Monitor_with_write T))
       (Arc_notify_one (std_Notifier_notify_one T)) f \<and>
   std_with_write_notify_all T f =
     Monitor_with_write_notify_all (Arc_with_write (std_Monitor_with_write T))
       (Arc_notify_all (std_Notifier_notify_all T)) f"
  by (intro conjI ext)
    (simp_all add: trait_method_defs arc_method_defs std_trait_defs std_with_write_def
      std_with_write_notify_one_def std_with_write_notify_all_def std_guard_notify_one_def
      std_guard_notify_all_def std.write_then_notify)

end
