(* ===== verification/Raw_Locks.thy ===== *)
theory Raw_Locks
  imports Std_Sync
begin

text \<open>
  Mutexes of other crates. \<^verbatim>\<open>parking_lot::Mutex\<close> and \<^verbatim>\<open>tokio::sync::Mutex\<close> are not part of this
  repository: their operations are a parameter, and what is relied on is the locale \<open>raw_mutex\<close>.
  Neither of them has a poison marker, and the acquired guard gives access to the data that was
  last written.
\<close>

record ('m, 't) raw_mutex_ops =
  rm_new :: "'t \<Rightarrow> 'm"
  rm_free :: "'m \<Rightarrow> bool"
  rm_lock :: "'m \<Rightarrow> 'm"
  rm_unlock :: "'m \<Rightarrow> 'm"
  rm_data :: "'m \<Rightarrow> 't"
  rm_set :: "'t \<Rightarrow> 'm \<Rightarrow> 'm"

text \<open>
  \<open>rm_free\<close> is whether an acquisition (\<^verbatim>\<open>lock\<close>, \<^verbatim>\<open>try_lock\<close>) succeeds now; \<open>rm_unlock\<close> is the
  guard's destructor; \<open>rm_data\<close> and \<open>rm_set\<close> are reads and writes through the guard.
\<close>

locale raw_mutex =
  fixes B :: "('m, 't) raw_mutex_ops"
  assumes new_free: "rm_free B (rm_new B t)"
    and new_data: "rm_data B (rm_new B t) = t"
    and lock_excludes: "rm_free B m \<Longrightarrow> \<not> rm_free B (rm_lock B m)"
    and lock_data: "rm_data B (rm_lock B m) = rm_data B m"
    and unlock_frees: "rm_free B (rm_unlock B m)"
    and unlock_data: "rm_data B (rm_unlock B m) = rm_data B m"
    and set_data: "rm_data B (rm_set B d m) = d"
    and set_free: "rm_free B (rm_set B d m) = rm_free B m"
begin

lemmas raw_laws [simp] =
  new_free new_data lock_excludes lock_data unlock_frees unlock_data set_data set_free

text \<open>An exclusive section leaves the mutex free, with the value the section wrote.\<close>

lemma section_frees:
  "rm_free B (rm_unlock B (rm_set B d (rm_lock B m)))"
  "rm_data B (rm_unlock B (rm_set B d (rm_lock B m))) = d"
  by simp_all

end

text \<open>
  The standard mutex, used without its poison marker, meets this contract.
\<close>

definition std_raw :: "('t mutex, 't) raw_mutex_ops" where
  "std_raw = \<lparr>rm_new = mutex_new, rm_free = (\<lambda>m. \<not> mx_locked m),
     rm_lock = (\<lambda>m. snd (mutex_lock m)), rm_unlock = mutex_guard_drop False,
     rm_data = mx_data, rm_set = (\<lambda>d m. m\<lparr>mx_data := d\<rparr>)\<rparr>"

interpretation std_raw: raw_mutex std_raw
  by unfold_locales (simp_all add: std_raw_def mutex_new_def mutex_lock_def mutex_guard_drop_def)

lemma std_raw_mutex: "raw_mutex std_raw"
  by (rule std_raw.raw_mutex_axioms)

section \<open>Reader-writer locks\<close>

record ('m, 't) raw_rwlock_ops =
  rr_new :: "'t \<Rightarrow> 'm"
  rr_read_free :: "'m \<Rightarrow> bool"
  rr_write_free :: "'m \<Rightarrow> bool"
  rr_read :: "'m \<Rightarrow> 'm"
  rr_write :: "'m \<Rightarrow> 'm"
  rr_read_drop :: "'m \<Rightarrow> 'm"
  rr_write_drop :: "'m \<Rightarrow> 'm"
  rr_data :: "'m \<Rightarrow> 't"
  rr_set :: "'t \<Rightarrow> 'm \<Rightarrow> 'm"

text \<open>
  Readers exclude writers and not readers; a writer excludes everybody. A section that gives its
  guard back restores who may enter.
\<close>

locale raw_rwlock =
  fixes L :: "('m, 't) raw_rwlock_ops"
  assumes new_free: "rr_write_free L (rr_new L t)"
    and new_data: "rr_data L (rr_new L t) = t"
    and write_free_read_free: "rr_write_free L m \<Longrightarrow> rr_read_free L m"
    and read_shares: "rr_read_free L m \<Longrightarrow> rr_read_free L (rr_read L m)"
    and read_excludes: "rr_read_free L m \<Longrightarrow> \<not> rr_write_free L (rr_read L m)"
    and write_excludes: "rr_write_free L m \<Longrightarrow> \<not> rr_read_free L (rr_write L m)"
    and read_drop_read: "rr_read_free L m \<Longrightarrow> rr_read_free L (rr_read_drop L (rr_read L m))"
    and read_drop_write:
      "rr_read_free L m \<Longrightarrow> rr_write_free L (rr_read_drop L (rr_read L m)) = rr_write_free L m"
    and write_drop_free: "rr_write_free L m \<Longrightarrow> rr_write_free L (rr_write_drop L (rr_set L d (rr_write L m)))"
    and read_data: "rr_data L (rr_read L m) = rr_data L m"
    and write_data: "rr_data L (rr_write L m) = rr_data L m"
    and read_drop_data: "rr_data L (rr_read_drop L m) = rr_data L m"
    and write_drop_data: "rr_data L (rr_write_drop L m) = rr_data L m"
    and set_data: "rr_data L (rr_set L d m) = d"
begin

lemmas raw_laws [simp] =
  new_free new_data write_free_read_free read_shares read_excludes write_excludes read_drop_read
  read_drop_write write_drop_free read_data write_data read_drop_data write_drop_data set_data

end

definition std_raw_rw :: "('t rwlock, 't) raw_rwlock_ops" where
  "std_raw_rw = \<lparr>rr_new = rwlock_new, rr_read_free = rwlock_read_free,
     rr_write_free = rwlock_write_free, rr_read = (\<lambda>l. snd (rwlock_read l)),
     rr_write = (\<lambda>l. snd (rwlock_write l)), rr_read_drop = rwlock_read_drop,
     rr_write_drop = rwlock_write_drop False, rr_data = rw_data,
     rr_set = (\<lambda>d l. l\<lparr>rw_data := d\<rparr>)\<rparr>"

interpretation std_raw_rw: raw_rwlock std_raw_rw
  by unfold_locales
    (simp_all add: std_raw_rw_def rwlock_new_def rwlock_read_free_def rwlock_write_free_def
      rwlock_read_def rwlock_write_def rwlock_read_drop_def rwlock_write_drop_def)

lemma std_raw_rwlock: "raw_rwlock std_raw_rw"
  by (rule std_raw_rw.raw_rwlock_axioms)

end
