(* ===== verification/Parking_Lot_Monitor.thy ===== *)
theory Parking_Lot_Monitor
  imports Monitor_Regions Raw_Locks
begin

text \<open>
  \<^verbatim>\<open>src/monitor/parking_lot_monitor.rs\<close> and \<^verbatim>\<open>parking_lot_monitor_guard.rs\<close>: the monitor over
  \<^verbatim>\<open>parking_lot::Mutex\<close>. The mutex belongs to another crate, so its operations are the parameter
  \<open>B\<close>; they have no poison marker, and neither has the monitor.
\<close>

section \<open>The backend\<close>

abbreviation pl_slot_message :: string where
  "pl_slot_message \<equiv> ''parking-lot monitor guard slot must be occupied''"

definition pl_platform ::
  "('m, 't) raw_mutex_ops \<Rightarrow> ('k, 'i, 'f, 'e) timer_ops \<Rightarrow> ('m, 't, 'k, 'i, 'f, 'e) platform"
where
  "pl_platform B T =
     \<lparr>bk = \<lparr>bk_free = rm_free B, bk_lock = (\<lambda>m. (Guard, rm_lock B m)),
        bk_drop = (\<lambda>_. rm_unlock B), bk_deref = rm_data B, bk_deref_mut = rm_set B,
        bk_clear_poison = (\<lambda>m. m), bk_slot_message = pl_slot_message\<rparr>,
      tm = T\<rparr>"

lemma pl_platform_simps [simp]:
  "bk_free (bk (pl_platform B T)) m = rm_free B m"
  "bk_lock (bk (pl_platform B T)) m = (Guard, rm_lock B m)"
  "bk_drop (bk (pl_platform B T)) b m = rm_unlock B m"
  "bk_deref (bk (pl_platform B T)) m = rm_data B m"
  "bk_deref_mut (bk (pl_platform B T)) d m = rm_set B d m"
  "bk_clear_poison (bk (pl_platform B T)) m = m"
  "bk_slot_message (bk (pl_platform B T)) = pl_slot_message"
  "tm (pl_platform B T) = T"
  by (simp_all add: pl_platform_def)

sublocale raw_mutex \<subseteq> pl: state_backend "pl_platform B T" for T
  by unfold_locales simp_all

section \<open>Construction\<close>

record ('m, 'k, 'i, 'f, 'e) ParkingLotMonitor =
  plm_state :: 'm
  plm_waiters :: "nat WaiterRegistry mutex"
  plm_timer :: "('k, 'i, 'f, 'e) timer_ops"

definition pl_with_timer ::
  "('m, 't) raw_mutex_ops \<Rightarrow> 't \<Rightarrow> ('k, 'i, 'f, 'e) timer_ops \<Rightarrow> ('m, 'k, 'i, 'f, 'e) ParkingLotMonitor"
where
  "pl_with_timer B state timer =
     \<lparr>plm_state = rm_new B state, plm_waiters = BlockingWaiterRegistry_new, plm_timer = timer\<rparr>"

definition pl_new ::
  "('m, 't) raw_mutex_ops \<Rightarrow> ('k, 'i, 'f, 'e) timer_ops \<Rightarrow> 't \<Rightarrow> ('m, 'k, 'i, 'f, 'e) ParkingLotMonitor"
where
  "pl_new B default_timer state = pl_with_timer B state default_timer"

definition pl_timer ::
  "('m, 'k, 'i, 'f, 'e) ParkingLotMonitor \<Rightarrow> ('k, 'i, 'f, 'e) timer_ops"
where
  "pl_timer m = plm_timer m"

definition pl_from ::
  "('m, 't) raw_mutex_ops \<Rightarrow> ('k, 'i, 'f, 'e) timer_ops \<Rightarrow> 't \<Rightarrow> ('m, 'k, 'i, 'f, 'e) ParkingLotMonitor"
where
  "pl_from B default_timer value = pl_new B default_timer value"

definition pl_default ::
  "('m, 't) raw_mutex_ops \<Rightarrow> ('k, 'i, 'f, 'e) timer_ops \<Rightarrow> 't \<Rightarrow> ('m, 'k, 'i, 'f, 'e) ParkingLotMonitor"
where
  "pl_default B default_timer t_default = pl_new B default_timer t_default"

definition pl_world_of ::
  "('m, 'k, 'i, 'f, 'e) ParkingLotMonitor \<Rightarrow> 'k \<Rightarrow> ('t, 'k) env_action list list \<Rightarrow> ('m, 't, 'k) world"
where
  "pl_world_of m k sc = \<lparr>mon_state = plm_state m, mon_waiters = plm_waiters m, arena = [],
     inner = None, in_flight = [], env_holds = False, env_regs = [], clock = k, sched = sc\<rparr>"

section \<open>Guard operations\<close>

definition pl_lock ::
  "('m, 't) raw_mutex_ops \<Rightarrow> ('k, 'i, 'f, 'e) timer_ops \<Rightarrow> ('m, 't, 'k, unit) call"
where
  "pl_lock B T w = acquire_guard (lock_state (pl_platform B T)) w"

definition pl_notify_one ::
  "('m, 't) raw_mutex_ops \<Rightarrow> ('k, 'i, 'f, 'e) timer_ops \<Rightarrow> ('m, 't, 'k, unit) call"
where
  "pl_notify_one B T w = bwr_notify_one (pl_platform B T) w"

definition pl_notify_all ::
  "('m, 't) raw_mutex_ops \<Rightarrow> ('k, 'i, 'f, 'e) timer_ops \<Rightarrow> ('m, 't, 'k, unit) call"
where
  "pl_notify_all B T w = bwr_notify_all (pl_platform B T) w"

definition pl_guard_notify_one ::
  "('m, 't) raw_mutex_ops \<Rightarrow> ('k, 'i, 'f, 'e) timer_ops \<Rightarrow> ('m, 't, 'k, unit) call"
where
  "pl_guard_notify_one B T w =
     and_then (release_guard (pl_platform B T) pl_slot_message w) (\<lambda>_ w. pl_notify_one B T w)"

definition pl_guard_notify_all ::
  "('m, 't) raw_mutex_ops \<Rightarrow> ('k, 'i, 'f, 'e) timer_ops \<Rightarrow> ('m, 't, 'k, unit) call"
where
  "pl_guard_notify_all B T w =
     and_then (release_guard (pl_platform B T) pl_slot_message w) (\<lambda>_ w. pl_notify_all B T w)"

definition pl_guard_wait ::
  "('m, 't) raw_mutex_ops \<Rightarrow> ('k, 'i, 'f, 'e) timer_ops \<Rightarrow> ('m, 't, 'k, unit) call"
where
  "pl_guard_wait B T w =
     wait_for_notification (pl_platform B T) pl_slot_message (lock_state (pl_platform B T)) w"

definition pl_guard_wait_with_timer ::
  "('m, 't) raw_mutex_ops \<Rightarrow> ('k, 'i, 'f, 'e) timer_ops \<Rightarrow> 'f \<Rightarrow> ('m, 't, 'k, ('e + WaitTimeoutStatus) \<times> 'f) call"
where
  "pl_guard_wait_with_timer B T future w =
     wait_with_timer (pl_platform B T) pl_slot_message (lock_state (pl_platform B T)) future w"

definition pl_guard_wait_for ::
  "('m, 't) raw_mutex_ops \<Rightarrow> ('k, 'i, 'f, 'e) timer_ops \<Rightarrow> duration \<Rightarrow> ('m, 't, 'k, 'e + WaitTimeoutStatus) call"
where
  "pl_guard_wait_for B T timeout w =
     (case timer_after (pl_platform B T) timeout w of
        (Inl e, w) \<Rightarrow> (Return (Inl e), w)
      | (Inr future, w) \<Rightarrow> apfst (map_outcome fst) (pl_guard_wait_with_timer B T future w))"

definition pl_guard_wait_until ::
  "('m, 't) raw_mutex_ops \<Rightarrow> ('k, 'i, 'f, 'e) timer_ops \<Rightarrow> 'i \<Rightarrow> ('m, 't, 'k, 'e + WaitTimeoutStatus) call"
where
  "pl_guard_wait_until B T deadline w =
     (case timer_at (pl_platform B T) deadline w of
        (Inl e, w) \<Rightarrow> (Return (Inl e), w)
      | (Inr future, w) \<Rightarrow> apfst (map_outcome fst) (pl_guard_wait_with_timer B T future w))"

definition pl_guard_deref ::
  "('m, 't) raw_mutex_ops \<Rightarrow> ('k, 'i, 'f, 'e) timer_ops \<Rightarrow> ('m, 't, 'k) world \<Rightarrow> 't outcome"
where
  "pl_guard_deref B T w = (case inner w of
       Some _ \<Rightarrow> Return (rm_data B (mon_state w))
     | None \<Rightarrow> Panic pl_slot_message)"

text \<open>Writing \<open>d\<close> through \<^verbatim>\<open>deref_mut\<close>.\<close>

definition pl_guard_deref_mut ::
  "('m, 't) raw_mutex_ops \<Rightarrow> ('k, 'i, 'f, 'e) timer_ops \<Rightarrow> 't \<Rightarrow> ('m, 't, 'k, unit) call"
where
  "pl_guard_deref_mut B T d w = (case inner w of
       Some _ \<Rightarrow> (Return (), w\<lparr>mon_state := rm_set B d (mon_state w)\<rparr>)
     | None \<Rightarrow> (Panic pl_slot_message, w))"

section \<open>Monitor operations\<close>

definition pl_with_read ::
  "('m, 't) raw_mutex_ops \<Rightarrow> ('k, 'i, 'f, 'e) timer_ops \<Rightarrow> ('t \<Rightarrow> 'r outcome) \<Rightarrow> ('m, 't, 'k, 'r) call"
where
  "pl_with_read B T f w =
     and_then (pl_lock B T w) (\<lambda>_ w.
       end_scope (pl_platform B T) (run_action (pl_platform B T) (\<lambda>d. (f d, d)) w))"

definition pl_with_write ::
  "('m, 't) raw_mutex_ops \<Rightarrow> ('k, 'i, 'f, 'e) timer_ops \<Rightarrow> ('t, 'r) action \<Rightarrow> ('m, 't, 'k, 'r) call"
where
  "pl_with_write B T f w =
     and_then (pl_lock B T w) (\<lambda>_ w.
       end_scope (pl_platform B T) (run_action (pl_platform B T) f w))"

text \<open>
  When the action panics, the guard is dropped and nobody is notified; otherwise the guard is
  consumed by its own \<^verbatim>\<open>notify\<close> method, which releases it first.
\<close>

definition pl_with_write_notify_one ::
  "('m, 't) raw_mutex_ops \<Rightarrow> ('k, 'i, 'f, 'e) timer_ops \<Rightarrow> ('t, 'r) action \<Rightarrow> ('m, 't, 'k, 'r) call"
where
  "pl_with_write_notify_one B T f w =
     and_then (pl_lock B T w) (\<lambda>_ w.
     and_then (on_unwind (drop_guard (pl_platform B T) True)
                 (run_action (pl_platform B T) f w)) (\<lambda>result w.
     and_then (pl_guard_notify_one B T w) (\<lambda>_ w. (Return result, w))))"

definition pl_with_write_notify_all ::
  "('m, 't) raw_mutex_ops \<Rightarrow> ('k, 'i, 'f, 'e) timer_ops \<Rightarrow> ('t, 'r) action \<Rightarrow> ('m, 't, 'k, 'r) call"
where
  "pl_with_write_notify_all B T f w =
     and_then (pl_lock B T w) (\<lambda>_ w.
     and_then (on_unwind (drop_guard (pl_platform B T) True)
                 (run_action (pl_platform B T) f w)) (\<lambda>result w.
     and_then (pl_guard_notify_all B T w) (\<lambda>_ w. (Return result, w))))"

definition pl_wait_while ::
  "('m, 't) raw_mutex_ops \<Rightarrow> ('k, 'i, 'f, 'e) timer_ops \<Rightarrow>
   ('p, 't) predicate \<Rightarrow> 'p \<Rightarrow> ('t, 'r) action \<Rightarrow>
   ('m, 't, 'k) world \<Rightarrow> ('r outcome \<times> ('m, 't, 'k) world) option"
where
  "pl_wait_while B T waiting p f w =
     and_then_loop (pl_lock B T w)
       (\<lambda>_. wait_while_locked (pl_platform B T) waiting p f (pl_guard_wait B T))"

definition pl_wait_until ::
  "('m, 't) raw_mutex_ops \<Rightarrow> ('k, 'i, 'f, 'e) timer_ops \<Rightarrow>
   ('p, 't) predicate \<Rightarrow> 'p \<Rightarrow> ('t, 'r) action \<Rightarrow>
   ('m, 't, 'k) world \<Rightarrow> ('r outcome \<times> ('m, 't, 'k) world) option"
where
  "pl_wait_until B T ready p f w = pl_wait_while B T (not_pred ready) p f w"

definition pl_wait_until_ready ::
  "('m, 't) raw_mutex_ops \<Rightarrow> ('k, 'i, 'f, 'e) timer_ops \<Rightarrow>
   ('p, 't) predicate \<Rightarrow> 'p \<Rightarrow>
   ('m, 't, 'k) world \<Rightarrow> (unit outcome \<times> ('m, 't, 'k) world) option"
where
  "pl_wait_until_ready B T ready p w = pl_wait_until B T ready p no_action w"

section \<open>Timed monitor operations\<close>

type_synonym ('m, 't, 'k, 'e, 'r) pl_timed =
  "('m, 't, 'k) world \<Rightarrow> (('e + 'r WaitTimeoutResult) outcome \<times> ('m, 't, 'k) world) option"

definition pl_wait_while_for ::
  "('m, 't) raw_mutex_ops \<Rightarrow> ('k, 'i, 'f, 'e) timer_ops \<Rightarrow> duration \<Rightarrow>
   ('p, 't) predicate \<Rightarrow> 'p \<Rightarrow> ('t, 'r) action \<Rightarrow>
   ('m, 't, 'k, 'e, 'r) pl_timed"
where
  "pl_wait_while_for B T timeout waiting p f w =
     wait_while_for (pl_platform B T) timeout (pl_lock B T) waiting p f (pl_guard_wait_with_timer B T) w"

definition pl_wait_while_with_deadline ::
  "('m, 't) raw_mutex_ops \<Rightarrow> ('k, 'i, 'f, 'e) timer_ops \<Rightarrow> 'i \<Rightarrow>
   ('p, 't) predicate \<Rightarrow> 'p \<Rightarrow> ('t, 'r) action \<Rightarrow>
   ('m, 't, 'k, 'e, 'r) pl_timed"
where
  "pl_wait_while_with_deadline B T deadline waiting p f w =
     wait_while_with_deadline (pl_platform B T) deadline (pl_lock B T) waiting p f
       (pl_guard_wait_with_timer B T) w"

definition pl_wait_while_with_total_timeout ::
  "('m, 't) raw_mutex_ops \<Rightarrow> ('k, 'i, 'f, 'e) timer_ops \<Rightarrow> duration \<Rightarrow>
   ('p, 't) predicate \<Rightarrow> 'p \<Rightarrow> ('t, 'r) action \<Rightarrow>
   ('m, 't, 'k, 'e, 'r) pl_timed"
where
  "pl_wait_while_with_total_timeout B T timeout waiting p f w =
     (case timer_deadline_after (pl_platform B T) timeout w of
        (Inl e, w) \<Rightarrow> Some (Return (Inl e), w)
      | (Inr deadline, w) \<Rightarrow> pl_wait_while_with_deadline B T deadline waiting p f w)"

definition pl_wait_until_for ::
  "('m, 't) raw_mutex_ops \<Rightarrow> ('k, 'i, 'f, 'e) timer_ops \<Rightarrow> duration \<Rightarrow>
   ('p, 't) predicate \<Rightarrow> 'p \<Rightarrow> ('t, 'r) action \<Rightarrow>
   ('m, 't, 'k, 'e, 'r) pl_timed"
where
  "pl_wait_until_for B T timeout ready p f w = pl_wait_while_for B T timeout (not_pred ready) p f w"

definition pl_wait_until_with_total_timeout ::
  "('m, 't) raw_mutex_ops \<Rightarrow> ('k, 'i, 'f, 'e) timer_ops \<Rightarrow> duration \<Rightarrow>
   ('p, 't) predicate \<Rightarrow> 'p \<Rightarrow> ('t, 'r) action \<Rightarrow>
   ('m, 't, 'k, 'e, 'r) pl_timed"
where
  "pl_wait_until_with_total_timeout B T timeout ready p f w =
     pl_wait_while_with_total_timeout B T timeout (not_pred ready) p f w"

definition pl_wait_until_with_deadline ::
  "('m, 't) raw_mutex_ops \<Rightarrow> ('k, 'i, 'f, 'e) timer_ops \<Rightarrow> 'i \<Rightarrow>
   ('p, 't) predicate \<Rightarrow> 'p \<Rightarrow> ('t, 'r) action \<Rightarrow>
   ('m, 't, 'k, 'e, 'r) pl_timed"
where
  "pl_wait_until_with_deadline B T deadline ready p f w =
     pl_wait_while_with_deadline B T deadline (not_pred ready) p f w"

definition pl_wait_until_ready_for ::
  "('m, 't) raw_mutex_ops \<Rightarrow> ('k, 'i, 'f, 'e) timer_ops \<Rightarrow> duration \<Rightarrow>
   ('p, 't) predicate \<Rightarrow> 'p \<Rightarrow>
   ('m, 't, 'k, 'e, unit) pl_timed"
where
  "pl_wait_until_ready_for B T timeout ready p w = pl_wait_until_for B T timeout ready p no_action w"

definition pl_wait_until_ready_with_total_timeout ::
  "('m, 't) raw_mutex_ops \<Rightarrow> ('k, 'i, 'f, 'e) timer_ops \<Rightarrow> duration \<Rightarrow>
   ('p, 't) predicate \<Rightarrow> 'p \<Rightarrow>
   ('m, 't, 'k, 'e, unit) pl_timed"
where
  "pl_wait_until_ready_with_total_timeout B T timeout ready p w =
     pl_wait_until_with_total_timeout B T timeout ready p no_action w"

definition pl_wait_until_ready_with_deadline ::
  "('m, 't) raw_mutex_ops \<Rightarrow> ('k, 'i, 'f, 'e) timer_ops \<Rightarrow> 'i \<Rightarrow>
   ('p, 't) predicate \<Rightarrow> 'p \<Rightarrow>
   ('m, 't, 'k, 'e, unit) pl_timed"
where
  "pl_wait_until_ready_with_deadline B T deadline ready p w =
     pl_wait_until_with_deadline B T deadline ready p no_action w"

section \<open>Trait implementations\<close>

text \<open>The required methods of the traits forward to the inherent operations.\<close>

definition pl_Notifier_notify_one ::
  "('m, 't) raw_mutex_ops \<Rightarrow> ('k, 'i, 'f, 'e) timer_ops \<Rightarrow> ('m, 't, 'k, unit) call"
where
  "pl_Notifier_notify_one B T w = pl_notify_one B T w"

definition pl_Notifier_notify_all ::
  "('m, 't) raw_mutex_ops \<Rightarrow> ('k, 'i, 'f, 'e) timer_ops \<Rightarrow> ('m, 't, 'k, unit) call"
where
  "pl_Notifier_notify_all B T w = pl_notify_all B T w"

definition pl_ConditionWaiter_wait_while ::
  "('m, 't) raw_mutex_ops \<Rightarrow> ('k, 'i, 'f, 'e) timer_ops \<Rightarrow>
   ('p, 't) predicate \<Rightarrow> 'p \<Rightarrow> ('t, 'r) action \<Rightarrow>
   ('m, 't, 'k) world \<Rightarrow> ('r outcome \<times> ('m, 't, 'k) world) option"
where
  "pl_ConditionWaiter_wait_while B T predicate p action w = pl_wait_while B T predicate p action w"

definition pl_Monitor_with_read ::
  "('m, 't) raw_mutex_ops \<Rightarrow> ('k, 'i, 'f, 'e) timer_ops \<Rightarrow> ('t \<Rightarrow> 'r outcome) \<Rightarrow> ('m, 't, 'k, 'r) call"
where
  "pl_Monitor_with_read B T f w = pl_with_read B T f w"

definition pl_Monitor_with_write ::
  "('m, 't) raw_mutex_ops \<Rightarrow> ('k, 'i, 'f, 'e) timer_ops \<Rightarrow> ('t, 'r) action \<Rightarrow> ('m, 't, 'k, 'r) call"
where
  "pl_Monitor_with_write B T f w = pl_with_write B T f w"

definition pl_TimeoutConditionWaiter_wait_while_with_deadline ::
  "('m, 't) raw_mutex_ops \<Rightarrow> ('k, 'i, 'f, 'e) timer_ops \<Rightarrow> 'i \<Rightarrow>
   ('p, 't) predicate \<Rightarrow> 'p \<Rightarrow> ('t, 'r) action \<Rightarrow>
   ('m, 't, 'k, 'e, 'r) pl_timed"
where
  "pl_TimeoutConditionWaiter_wait_while_with_deadline B T deadline predicate p action w =
     pl_wait_while_with_deadline B T deadline predicate p action w"

definition pl_TimeoutConditionWaiter_wait_while_with_total_timeout ::
  "('m, 't) raw_mutex_ops \<Rightarrow> ('k, 'i, 'f, 'e) timer_ops \<Rightarrow> duration \<Rightarrow>
   ('p, 't) predicate \<Rightarrow> 'p \<Rightarrow> ('t, 'r) action \<Rightarrow>
   ('m, 't, 'k, 'e, 'r) pl_timed"
where
  "pl_TimeoutConditionWaiter_wait_while_with_total_timeout B T timeout predicate p action w =
     pl_wait_while_with_total_timeout B T timeout predicate p action w"

definition pl_TimeoutConditionWaiter_wait_while_for ::
  "('m, 't) raw_mutex_ops \<Rightarrow> ('k, 'i, 'f, 'e) timer_ops \<Rightarrow> duration \<Rightarrow>
   ('p, 't) predicate \<Rightarrow> 'p \<Rightarrow> ('t, 'r) action \<Rightarrow>
   ('m, 't, 'k, 'e, 'r) pl_timed"
where
  "pl_TimeoutConditionWaiter_wait_while_for B T timeout predicate p action w =
     pl_wait_while_for B T timeout predicate p action w"

lemmas pl_trait_defs =
  pl_Notifier_notify_one_def pl_Notifier_notify_all_def pl_ConditionWaiter_wait_while_def
  pl_Monitor_with_read_def pl_Monitor_with_write_def
  pl_TimeoutConditionWaiter_wait_while_with_deadline_def
  pl_TimeoutConditionWaiter_wait_while_with_total_timeout_def
  pl_TimeoutConditionWaiter_wait_while_for_def

end
