(* ===== verification/Deadline_Spec.thy ===== *)
theory Deadline_Spec
  imports Std_Timed_Spec
begin

text \<open>
  A timed wait of a blocking monitor never gives up early, given an honest Timer.
\<close>

text \<open>The instant \<open>i\<close> has been reached.\<close>

definition passed ::
  "('m, 't, 'k, 'i, 'f, 'e) platform \<Rightarrow> ('i \<Rightarrow> 'i \<Rightarrow> bool) \<Rightarrow> 'i \<Rightarrow> ('m, 't, 'k) world \<Rightarrow> bool"
where
  "passed P le i w \<longleftrightarrow> le i (tm_now (tm P) (clock w))"

lemma env_step_clock:
  "clock (env_step P a w) = (case a of EnvTick \<Rightarrow> fst (tm_tick (tm P) (clock w))
     | EnvTimer g \<Rightarrow> if timer_call (tm P) g then g (clock w) else clock w | _ \<Rightarrow> clock w)"
  by (cases a)
    (auto simp: bwr_register_def bwr_take_one_def bwr_take_all_def bwr_unregister_def
      wake_waiter_def wake_waiters_eq Let_def split: outcome.splits option.splits prod.splits)

lemma passed_stable:
  assumes "honest_timer (tm P) le armed"
  shows "env_stable P (passed P le i)"
proof (rule env_stableI)
  show "passed P le i (env_step P a w)" if "passed P le i w" for w a
    using that honest_timerD(4,7) [OF assms]
    unfolding passed_def env_step_clock by (simp split: env_action.split)
  show "passed P le i (w\<lparr>sched := sc\<rparr>)" if "passed P le i w" for w sc
    using that by (simp add: passed_def)
qed

text \<open>No step of the calling thread turns the clock back.\<close>

lemma passed_steps:
  assumes "honest_timer (tm P) le armed" and "passed P le i w"
  shows "passed P le i (interfere P w)" and "passed P le i (drop_guard P b w)"
    and "passed P le i (registration_drop P g w)"
    and "acquire_guard (lock_state P) w = (r, w1) \<Longrightarrow> passed P le i w1"
    and "timer_at P j w = (x, w2) \<Longrightarrow> passed P le i w2"
    and "poll_future P wk fu w = (pr, fu', w3) \<Longrightarrow> passed P le i w3"
proof -
  note stable = passed_stable [OF assms(1), of i]
  note inter = env_stable_interfere [OF stable assms(2)]
  show "passed P le i (interfere P w)" by (rule inter)
  show "passed P le i (drop_guard P b w)"
    using inter assms(2) by (auto simp: drop_guard_def Let_def passed_def split: option.split)
  show "passed P le i (registration_drop P g w)"
    using inter by (auto simp: registration_drop_def bwr_unregister_def Let_def passed_def
        split: prod.split)
  show "passed P le i w1" if "acquire_guard (lock_state P) w = (r, w1)"
  proof -
    obtain ok v where block:
      "block_until P (\<lambda>v. bk_free (bk P) (mon_state v)) (interfere P w) = (ok, v)" by fastforce
    have "passed P le i v" using env_stable_block_until [OF stable inter block] by simp
    then show ?thesis
      using that block
      by (auto simp: acquire_guard_def lock_state_def passed_def split: prod.splits if_splits)
  qed
  show "passed P le i w2" if "timer_at P j w = (x, w2)"
    using that inter honest_timerD(5) [OF assms(1), of i "clock (interfere P w)" j]
    by (auto simp: timer_at_def passed_def Let_def split: prod.splits)
  show "passed P le i w3" if "poll_future P wk fu w = (pr, fu', w3)"
    using that inter honest_timerD(6) [OF assms(1), of i "clock (interfere P w)" wk fu]
    by (auto simp: poll_future_def passed_def Let_def split: prod.splits)
qed

lemma poll_armed:
  assumes "honest_timer (tm P) le armed" and "armed i fu" and "poll_future P wk fu w = (pr, fu', w')"
  shows "armed i fu'" and "pr = Poll_ready result \<Longrightarrow> timed_out_result result = Inr StatusTimedOut \<Longrightarrow>
    passed P le i w'"
proof -
  obtain k where poll: "tm_poll (tm P) wk fu (clock (interfere P w)) = (pr, fu', k)"
    and w': "clock w' = k"
    using assms(3) by (auto simp: poll_future_def Let_def split: prod.splits)
  show "armed i fu'" using honest_timerD(2) [OF assms(1,2) poll] .
  show "passed P le i w'" if "pr = Poll_ready result" "timed_out_result result = Inr StatusTimedOut"
  proof -
    have "result = Inr ()" using that(2) by (cases result) (auto simp: timed_out_result_def)
    then show ?thesis
      using honest_timerD(3) [OF assms(1,2)] poll that(1) w' by (simp add: passed_def)
  qed
qed

text \<open>A suspension reports a timeout only when the instant has been reached.\<close>

lemma wait_with_timer_deadline:
  assumes "honest_timer (tm P) le armed" and "armed i fu"
    and "wait_with_timer P m (lock_state P) fu w = (Return (res, fu'), w')"
  shows "armed i fu' \<and> (res = Inr StatusTimedOut \<longrightarrow> passed P le i w')"
proof -
  obtain p1 f1 w1 where poll1: "poll_future P Waker_noop fu w = (p1, f1, w1)"
    by (cases "poll_future P Waker_noop fu w")
  note a1 = poll_armed [OF assms(1,2) poll1]
  show ?thesis
  proof (cases p1)
    case (Poll_ready result)
    then show ?thesis
      using assms(3) poll1 a1
      by (auto simp: wait_with_timer_def poll_timer_without_waiter_def)
  next
    case Poll_pending
    then obtain g w2 where rest: "(let a = waiter g in
          case poll_timer P a f1 w2 of
            (Poll_ready result, future, w) \<Rightarrow>
              (Return (timed_out_result result, future), registration_drop P g w)
          | (Poll_pending, future, w) \<Rightarrow>
              and_then (on_unwind (registration_drop P g) (release_guard P m w)) (\<lambda>_ w.
              and_then (waiter_wait P a w) (\<lambda>_ w.
              and_then (acquire_guard (lock_state P) (registration_drop P g w)) (\<lambda>_ w.
              case poll_timer P a future w of
                (Poll_ready result, future, w) \<Rightarrow> (Return (timed_out_result result, future), w)
              | (Poll_pending, future, w) \<Rightarrow> (Return (Inr Woken, future), w))))) = (Return (res, fu'), w')"
      using assms(3) poll1
      by (auto simp: wait_with_timer_def poll_timer_without_waiter_def elim!: and_then_ReturnD)
    obtain p3 f3 w3 where poll3: "poll_future P (Waker_of (waiter g)) f1 w2 = (p3, f3, w3)"
      by (cases "poll_future P (Waker_of (waiter g)) f1 w2")
    note a3 = poll_armed [OF assms(1) a1(1) poll3]
    show ?thesis
    proof (cases p3)
      case (Poll_ready result)
      then have "res = timed_out_result result" "fu' = f3" "w' = registration_drop P g w3"
        using rest poll3 by (simp_all add: poll_timer_def)
      then show ?thesis using a3 Poll_ready passed_steps(3) [OF assms(1)] by auto
    next
      case Poll_pending
      then obtain w4 where last: "(case poll_timer P (waiter g) f3 w4 of
                (Poll_ready result, future, w) \<Rightarrow> (Return (timed_out_result result, future), w)
              | (Poll_pending, future, w) \<Rightarrow> (Return (Inr Woken, future), w)) = (Return (res, fu'), w')"
        using rest poll3 by (auto simp: poll_timer_def Let_def elim!: and_then_ReturnD)
      obtain p5 f5 w5 where poll5: "poll_future P (Waker_of (waiter g)) f3 w4 = (p5, f5, w5)"
        by (cases "poll_future P (Waker_of (waiter g)) f3 w4")
      note a5 = poll_armed [OF assms(1) a3(1) poll5]
      show ?thesis using last poll5 a5 by (cases p5) (auto simp: poll_timer_def)
    qed
  qed
qed

context state_backend
begin

lemma timer_loop_deadline:
  assumes "honest_timer (tm P) le armed" and "armed i fu" and "held P w"
    and "wait_while_with_timer_locked P fu waiting p f (wait_with_timer P m (lock_state P)) w =
      Some (Return (Inr TimedOut), w')"
  shows "passed P le i w'"
  using assms(2-4)
proof (induction "length (sched w)" arbitrary: p w fu rule: less_induct)
  case less
  let ?wait = "wait_with_timer P m (lock_state P)"
  note step = wait_while_with_timer_locked.simps [of P fu waiting p f ?wait w]
  obtain r v where wait: "?wait fu w = (r, v)" by fastforce
  note s = wait_with_timer_spec [OF less.prems(2) wait]
  obtain status fu' where r: "r = Return (Inr status, fu')"
    using less.prems(3) wait s by (auto simp: step split: sum.splits)
  have v: "held P v" "status = Woken \<Longrightarrow> length (sched v) < length (sched w)"
    using s r by auto
  have a: "armed i fu'" "status = StatusTimedOut \<Longrightarrow> passed P le i v"
    using wait_with_timer_deadline [OF assms(1) less.prems(1) wait [unfolded r]] by simp_all
  obtain o2 p' where eval: "waiting p (data P v) = (o2, p')" by fastforce
  obtain o3 u where run: "run_action P f v = (o3, u)" by fastforce
  have o2: "o2 = Return True"
    using less.prems(3) wait r eval run eval_predicate_held [OF v(1), of waiting p]
    by (cases o2; cases o3) (auto simp: step split: if_splits)
  show ?case
  proof (cases status)
    case Woken
    then have "wait_while_with_timer_locked P fu' waiting p' f ?wait v = Some (Return (Inr TimedOut), w')"
      using less.prems(3) wait r eval o2 eval_predicate_held [OF v(1), of waiting p] by (simp add: step)
    then show ?thesis using less.hyps [OF v(2) [OF Woken] a(1) v(1)] by blast
  next
    case StatusTimedOut
    then have "w' = drop_guard P False v"
      using less.prems(3) wait r eval o2 eval_predicate_held [OF v(1), of waiting p] by (simp add: step)
    then show ?thesis using a(2) StatusTimedOut passed_steps(2) [OF assms(1)] by simp
  qed
qed

lemma enter_loop_deadline:
  assumes "honest_timer (tm P) le armed" and "held P v"
    and "(case timer_at P i v of
         (Inl e, w) \<Rightarrow> Some (end_scope P (Return (Inl e), w))
       | (Inr fu, w) \<Rightarrow> wait_while_with_timer_locked P fu waiting p f
           (wait_with_timer P m (lock_state P)) w) = Some (Return (Inr TimedOut), w')"
  shows "passed P le i w'"
proof -
  obtain y u where at: "timer_at P i v = (y, u)" by fastforce
  then obtain fu where y: "y = Inr fu" using assms(3) by (cases y) auto
  have "armed i fu"
    using at y honest_timerD(1) [OF assms(1)] by (auto simp: timer_at_def Let_def split: prod.splits)
  moreover have "held P u" using timer_calls_held(2) [OF assms(2) at] by simp
  ultimately show ?thesis using timer_loop_deadline [OF assms(1)] assms(3) at y by simp
qed

text \<open>The end of a turn that times out: the predicate has blocked, so \<open>rest\<close> produced the result.\<close>

lemma turn_timed_out:
  assumes "held P v"
    and "(case eval_predicate P waiting p v of
             (Return blocking, p') \<Rightarrow>
               (if \<not> blocking
                then Some (end_scope P (apfst (map_outcome (\<lambda>r. Inr (Ready r))) (run_action P f v)))
                else rest p')
           | (Panic m, p') \<Rightarrow> Some (end_scope P (Panic m, v))
           | (Blocked, p') \<Rightarrow> Some (Blocked, v)) = Some (Return (Inr TimedOut), w')"
  shows "\<exists>p'. rest p' = Some (Return (Inr TimedOut), w')"
proof -
  obtain o2 p' where eval: "waiting p (data P v) = (o2, p')" by fastforce
  obtain o3 u where run: "run_action P f v = (o3, u)" by fastforce
  show ?thesis
    using assms(2) eval run eval_predicate_held [OF assms(1), of waiting p]
    by (cases o2; cases o3) (auto split: if_splits)
qed

lemma wait_while_for_deadline:
  assumes "honest_timer (tm P) le armed" and "idle P w" and "\<not> duration_is_zero timeout"
    and "wait_while_for P timeout (acquire_guard (lock_state P)) waiting p f
      (wait_with_timer P m (lock_state P)) w = Some (Return (Inr TimedOut), w')"
  shows "\<exists>v deadline. (\<forall>i. passed P le i w \<longrightarrow> passed P le i v) \<and>
    tm_checked_add (tm P) (tm_now (tm P) (clock v)) timeout = Inr deadline \<and> passed P le deadline w'"
proof -
  obtain o1 u where acq: "acquire_guard (lock_state P) w = (o1, u)" by fastforce
  have o1: "o1 = Return ()" and u: "held P u"
    using acquire_spec [OF assms(2) acq] assms(4) acq by (auto simp: wait_while_for_def)
  define v where "v = interfere P u"
  have v: "held P v" using u unfolding v_def by (rule held_interfere)
  have later: "passed P le i v" if "passed P le i w" for i
    unfolding v_def using passed_steps(1,4) [OF assms(1)] that acq by blast
  obtain p' where rest: "(case tm_checked_add (tm P) (tm_now (tm P) (clock v)) timeout of
                       Inl e \<Rightarrow> Some (end_scope P (Return (Inl e), v))
                     | Inr deadline \<Rightarrow>
                         (case timer_at P deadline v of
                            (Inl e, w) \<Rightarrow> Some (end_scope P (Return (Inl e), w))
                          | (Inr future, w) \<Rightarrow>
                              wait_while_with_timer_locked P future waiting p' f
                                (wait_with_timer P m (lock_state P)) w)) = Some (Return (Inr TimedOut), w')"
    using turn_timed_out [OF v assms(4) [unfolded wait_while_for_def acq o1 timer_now_def Let_def
          and_then_loop_simps case_prod_conv v_def [symmetric]]] assms(3) by auto
  then obtain deadline where d: "tm_checked_add (tm P) (tm_now (tm P) (clock v)) timeout = Inr deadline"
    by (cases "tm_checked_add (tm P) (tm_now (tm P) (clock v)) timeout") auto
  have "passed P le deadline w'"
    using enter_loop_deadline [OF assms(1) v] rest d by simp
  then show ?thesis using later d by blast
qed

lemma wait_while_with_deadline_deadline:
  assumes "honest_timer (tm P) le armed" and "idle P w"
    and "wait_while_with_deadline P deadline (acquire_guard (lock_state P)) waiting p f
      (wait_with_timer P m (lock_state P)) w = Some (Return (Inr TimedOut), w')"
  shows "passed P le deadline w'"
proof -
  obtain o1 v where acq: "acquire_guard (lock_state P) w = (o1, v)" by fastforce
  have o1: "o1 = Return ()" and v: "held P v"
    using acquire_spec [OF assms(2) acq] assms(3) acq by (auto simp: wait_while_with_deadline_def)
  obtain p' where rest: "(case timer_at P deadline v of
                  (Inl e, w) \<Rightarrow> Some (end_scope P (Return (Inl e), w))
                | (Inr future, w) \<Rightarrow>
                    (case poll_timer_without_waiter P future w of
                       (Poll_ready (Inl e), future, w) \<Rightarrow> Some (end_scope P (Return (Inl e), w))
                     | (Poll_ready (Inr _), future, w) \<Rightarrow>
                         Some (end_scope P (Return (Inr TimedOut), w))
                     | (Poll_pending, future, w) \<Rightarrow>
                         wait_while_with_timer_locked P future waiting p' f
                           (wait_with_timer P m (lock_state P)) w)) = Some (Return (Inr TimedOut), w')"
    using turn_timed_out [OF v assms(3) [unfolded wait_while_with_deadline_def acq o1
          and_then_loop_simps]] by auto
  obtain y u where at: "timer_at P deadline v = (y, u)" by fastforce
  then obtain fu where y: "y = Inr fu" using rest by (cases y) auto
  have fu: "armed deadline fu"
    using at y honest_timerD(1) [OF assms(1)] by (auto simp: timer_at_def Let_def split: prod.splits)
  have u: "held P u" using timer_calls_held(2) [OF v at] by simp
  obtain pr fu' x where poll: "poll_future P Waker_noop fu u = (pr, fu', x)"
    by (cases "poll_future P Waker_noop fu u")
  note a = poll_armed [OF assms(1) fu poll]
  have x: "held P x" using poll_future_spec(1) [OF poll u] .
  show ?thesis
  proof (cases pr)
    case (Poll_ready result)
    then have "result = Inr ()" and "w' = drop_guard P False x"
      using rest at y poll by (auto simp: poll_timer_without_waiter_def split: sum.splits)
    then show ?thesis
      using a(2) [OF Poll_ready] passed_steps(2) [OF assms(1)] by (simp add: timed_out_result_def)
  next
    case Poll_pending
    then show ?thesis
      using timer_loop_deadline [OF assms(1) a(1) x] rest at y poll
      by (simp add: poll_timer_without_waiter_def)
  qed
qed

end

section \<open>The standard monitor\<close>

text \<open>C26: with a Timer that completes futures no earlier than their instant,
  \<^verbatim>\<open>wait_while_with_deadline\<close> reports \<^verbatim>\<open>TimedOut\<close> only once the deadline has been reached.\<close>

theorem std_deadline_not_early:
  assumes "honest_timer T le armed" and "idle (std_platform T) w"
    and "std_wait_while_with_deadline T deadline waiting p f w = Some (Return (Inr TimedOut), w')"
  shows "le deadline (tm_now T (clock w'))"
  using std.wait_while_with_deadline_deadline [of T le armed w deadline waiting p f] assms
  by (simp add: std_wait_while_with_deadline_def passed_def)

theorem std_deadline_not_early_witness:
  "\<exists>w'. std_wait_while_with_deadline manual_timer 1 demo_empty () demo_take
      (demo_world [[], [], [], [], [], [], [], [EnvTick], [], []]) = Some (Return (Inr TimedOut), w') \<and>
    1 \<le> mc_now (clock w')"
proof -
  let ?w = "demo_world [[], [], [], [], [], [], [], [EnvTick], [], []]"
  have "map_option fst (std_wait_while_with_deadline manual_timer 1 demo_empty () demo_take ?w) =
      Some (Return (Inr TimedOut))"
    by code_simp
  then obtain w' where run: "std_wait_while_with_deadline manual_timer 1 demo_empty () demo_take ?w =
      Some (Return (Inr TimedOut), w')"
    by auto
  show ?thesis using run std_deadline_not_early [OF manual_timer_honest demo_idle run] by simp
qed

text \<open>C27: \<^verbatim>\<open>wait_while_for\<close> with a positive timeout reports \<^verbatim>\<open>TimedOut\<close> only once the full timeout
  has elapsed since an instant that is not before the call.\<close>

theorem std_timeout_not_early:
  fixes w :: "('t, 'k) std_world"
  assumes "honest_timer T le armed" and "idle (std_platform T) w" and "\<not> duration_is_zero timeout"
    and "std_wait_while_for T timeout waiting p f w = Some (Return (Inr TimedOut), w')"
  shows "\<exists>k deadline. (\<forall>i. le i (tm_now T (clock w)) \<longrightarrow> le i (tm_now T k)) \<and>
    tm_checked_add T (tm_now T k) timeout = Inr deadline \<and> le deadline (tm_now T (clock w'))"
proof -
  obtain v :: "('t, 'k) std_world" and deadline where
    "\<forall>i. passed (std_platform T) le i w \<longrightarrow> passed (std_platform T) le i v"
    "tm_checked_add T (tm_now T (clock v)) timeout = Inr deadline"
    "passed (std_platform T) le deadline w'"
    using std.wait_while_for_deadline [of T le armed w timeout waiting p f std_slot_message w'] assms
    by (auto simp: std_wait_while_for_def)
  then show ?thesis by (intro exI [of _ "clock v"] exI [of _ deadline]) (simp add: passed_def)
qed

theorem std_timeout_not_early_witness:
  "\<exists>w'. std_wait_while_for manual_timer \<lparr>secs = 1, nanos = 0\<rparr> demo_empty () demo_take
      (demo_world [[EnvTick], [], [], [], [], [], [], [], [EnvTick], [], []]) =
        Some (Return (Inr TimedOut), w') \<and>
    (\<exists>(k :: manual_clock) deadline. manual_deadline (mc_now k) \<lparr>secs = 1, nanos = 0\<rparr> = Inr deadline \<and>
       deadline \<le> mc_now (clock w'))"
proof -
  let ?w = "demo_world [[EnvTick], [], [], [], [], [], [], [], [EnvTick], [], []]"
  have "map_option fst (std_wait_while_for manual_timer \<lparr>secs = 1, nanos = 0\<rparr> demo_empty () demo_take ?w) =
      Some (Return (Inr TimedOut))"
    by code_simp
  then obtain w' where run: "std_wait_while_for manual_timer \<lparr>secs = 1, nanos = 0\<rparr> demo_empty ()
      demo_take ?w = Some (Return (Inr TimedOut), w')"
    by auto
  have "\<not> duration_is_zero \<lparr>secs = 1, nanos = 0\<rparr>" by (simp add: duration_is_zero_def)
  then obtain k :: manual_clock and deadline where "manual_deadline (mc_now k) \<lparr>secs = 1, nanos = 0\<rparr> = Inr deadline"
    "deadline \<le> mc_now (clock w')"
    using std_timeout_not_early [OF manual_timer_honest demo_idle _ run] by auto
  then show ?thesis using run by blast
qed

end
