(* ===== verification/Parking_Lot_Spec.thy ===== *)
theory Parking_Lot_Spec
  imports Parking_Lot_Monitor Deadline_Spec Monitor_Traits
begin

text \<open>
  What the parking_lot monitor guarantees, for every mutex that meets \<open>raw_mutex\<close>. The standard
  mutex does, which also gives a concrete monitor to run.
\<close>

lemma pl_lock_eq [simp]: "pl_lock B T = acquire_guard (lock_state (pl_platform B T))"
  by (rule ext) (simp add: pl_lock_def)

lemma pl_guard_wait_eq [simp]:
  "pl_guard_wait B T =
     wait_for_notification (pl_platform B T) pl_slot_message (lock_state (pl_platform B T))"
  by (rule ext) (simp add: pl_guard_wait_def)

lemma pl_guard_wait_with_timer_eq [simp]:
  "pl_guard_wait_with_timer B T =
     wait_with_timer (pl_platform B T) pl_slot_message (lock_state (pl_platform B T))"
  by (rule ext)+ (simp add: pl_guard_wait_with_timer_def)

context raw_mutex
begin

lemma pl_world_of_idle: "idle (pl_platform B T) (pl_world_of (pl_with_timer B s T') k sc)"
  by (simp add: idle_def world_inv_def lock_inv_def queue_inv_def regs_within_def pl_world_of_def
      pl_with_timer_def BlockingWaiterRegistry_new_def mutex_new_def WaiterRegistry_new_def
      registry_inv_def)

lemma pl_wait_while_spec:
  "idle (pl_platform B T) w \<Longrightarrow>
   \<exists>r w'. pl_wait_while B T waiting p f w = Some (r, w') \<and>
     wait_post (pl_platform B T) waiting p f r w'"
  unfolding pl_wait_while_def pl_lock_eq pl_guard_wait_eq
  by (rule pl.notified.acquire_and_wait_spec)

lemma pl_wait_while_for_spec:
  "idle (pl_platform B T) w \<Longrightarrow>
   \<exists>r w'. pl_wait_while_for B T timeout waiting p f w = Some (r, w') \<and>
     timed_post (pl_platform B T) waiting p f r w'"
  unfolding pl_wait_while_for_def pl_lock_eq pl_guard_wait_with_timer_eq
  by (rule pl.timed.wait_while_for_spec)

lemma pl_wait_while_with_deadline_spec:
  "idle (pl_platform B T) w \<Longrightarrow>
   \<exists>r w'. pl_wait_while_with_deadline B T deadline waiting p f w = Some (r, w') \<and>
     timed_post (pl_platform B T) waiting p f r w'"
  unfolding pl_wait_while_with_deadline_def pl_lock_eq pl_guard_wait_with_timer_eq
  by (rule pl.timed.wait_while_with_deadline_spec)

lemma pl_wait_while_with_total_timeout_spec:
  assumes "idle (pl_platform B T) w"
  shows "\<exists>r w'. pl_wait_while_with_total_timeout B T timeout waiting p f w = Some (r, w') \<and>
     timed_post (pl_platform B T) waiting p f r w'"
proof -
  have "idle (pl_platform B T) (interfere (pl_platform B T) w)"
    using assms by (rule pl.idle_interfere)
  then show ?thesis
    using pl_wait_while_with_deadline_spec [of T "interfere (pl_platform B T) w" _ waiting p f]
    by (auto simp: pl_wait_while_with_total_timeout_def timer_deadline_after_def Let_def
        timed_post_def split: sum.split)
qed

lemma pl_with_write_spec:
  assumes "idle (pl_platform B T) w" and "pl_with_write B T f w = (r, w')"
  shows "(\<exists>v. pl_lock B T w = (Return (), v) \<and>
      f (rm_data B (mon_state v)) = (r, rm_data B (mon_state w')) \<and>
      (if r = Blocked then held (pl_platform B T) w' else idle (pl_platform B T) w')) \<or>
    (r = Blocked \<and> stuck_locking (pl_platform B T) w')"
  using pl.with_write_spec [OF assms(1), of f r w'] assms(2) by (simp add: pl_with_write_def)

lemma pl_guard_wait_spec:
  assumes "held (pl_platform B T) w" and "pl_guard_wait B T w = (r, w')"
  shows "(r = Return () \<and> held (pl_platform B T) w') \<or>
    (r = Panic ''monitor waiter identifiers exhausted'' \<and> held (pl_platform B T) w') \<or>
    (r = Blocked \<and> (stuck_waiting (pl_platform B T) w' \<or> stuck_locking (pl_platform B T) w'))"
  using pl.wait_for_notification_spec [OF assms(1)] assms(2) by simp

lemma pl_write_notify_eq:
  "pl_with_write_notify_one B T f w =
     Monitor_with_write_notify_one (Arc_with_write (pl_Monitor_with_write B T))
       (Arc_notify_one (pl_Notifier_notify_one B T)) f w"
  "pl_with_write_notify_all B T f w =
     Monitor_with_write_notify_all (Arc_with_write (pl_Monitor_with_write B T))
       (Arc_notify_all (pl_Notifier_notify_all B T)) f w"
  by (simp_all add: trait_method_defs arc_method_defs pl_trait_defs pl_with_write_def
      pl_with_write_notify_one_def pl_with_write_notify_all_def pl_guard_notify_one_def
      pl_guard_notify_all_def pl.write_then_notify)

lemma pl_deadline_not_early:
  assumes "honest_timer T le armed" and "idle (pl_platform B T) w"
    and "pl_wait_while_with_deadline B T deadline waiting p f w = Some (Return (Inr TimedOut), w')"
  shows "le deadline (tm_now T (clock w'))"
  using pl.wait_while_with_deadline_deadline [of T le armed w deadline waiting p f] assms
  by (simp add: pl_wait_while_with_deadline_def passed_def)

end

definition demo_pl_world :: "(nat, manual_clock) env_action list list \<Rightarrow> (nat mutex, nat, manual_clock) world" where
  "demo_pl_world sc = pl_world_of (pl_with_timer std_raw 0 manual_timer) manual_start sc"

lemma demo_pl_idle: "idle (pl_platform std_raw manual_timer) (demo_pl_world sc)"
  unfolding demo_pl_world_def by (rule raw_mutex.pl_world_of_idle [OF std_raw_mutex])

section \<open>Guarantees\<close>

text \<open>\<^verbatim>\<open>ParkingLotMonitor::wait_while\<close> always reaches an outcome; a returned value means that
  the action ran on a value the predicate had just released, a panic comes from a closure or from
  exhausted identifiers and leaves the thread without guard and registration, and a call that stays
  blocked has not been notified, waits for the monitor or is inside a closure.\<close>

theorem pl_wait_while_outcome:
  assumes "raw_mutex B" and "idle (pl_platform B T) w"
  shows "\<exists>r w'. pl_wait_while B T waiting p f w = Some (r, w') \<and>
    wait_post (pl_platform B T) waiting p f r w'"
  using raw_mutex.pl_wait_while_spec [OF assms] .

theorem pl_wait_while_outcome_witness:
  "\<exists>r w'. pl_wait_while std_raw manual_timer demo_empty () demo_take (demo_pl_world demo_producer) =
      Some (r, w') \<and>
    wait_post (pl_platform std_raw manual_timer) demo_empty () demo_take r w'"
  by (rule pl_wait_while_outcome [OF std_raw_mutex demo_pl_idle])

text \<open>The three timed waits of the parking_lot monitor always reach an outcome, and each outcome
  means what it says, as for the standard monitor.\<close>

theorem pl_timed_waits_outcome:
  assumes "raw_mutex B" and "idle (pl_platform B T) w"
  shows "(\<exists>r w'. pl_wait_while_for B T timeout waiting p f w = Some (r, w') \<and>
      timed_post (pl_platform B T) waiting p f r w') \<and>
    (\<exists>r w'. pl_wait_while_with_deadline B T deadline waiting p f w = Some (r, w') \<and>
      timed_post (pl_platform B T) waiting p f r w') \<and>
    (\<exists>r w'. pl_wait_while_with_total_timeout B T timeout waiting p f w = Some (r, w') \<and>
      timed_post (pl_platform B T) waiting p f r w')"
  using raw_mutex.pl_wait_while_for_spec [OF assms, of timeout waiting p f]
    raw_mutex.pl_wait_while_with_deadline_spec [OF assms, of deadline waiting p f]
    raw_mutex.pl_wait_while_with_total_timeout_spec [OF assms, of timeout waiting p f]
  by blast

theorem pl_timed_waits_outcome_witness:
  "\<exists>r w'. pl_wait_while_for std_raw manual_timer \<lparr>secs = 1, nanos = 0\<rparr> demo_empty () demo_take
      (demo_pl_world demo_producer) = Some (r, w') \<and>
    timed_post (pl_platform std_raw manual_timer) demo_empty () demo_take r w'"
  using pl_timed_waits_outcome [OF std_raw_mutex demo_pl_idle [of demo_producer],
      where timeout = "\<lparr>secs = 1, nanos = 0\<rparr>" and waiting = demo_empty and p = "()" and f = demo_take]
  by blast

text \<open>\<^verbatim>\<open>ParkingLotMonitor::with_write\<close> runs the action once, on the value the acquisition found,
  and keeps what it wrote; a panicking action leaves the monitor unlocked and unpoisoned, so the
  thread is idle again.\<close>

theorem pl_with_write_outcome:
  assumes "raw_mutex B" and "idle (pl_platform B T) w" and "pl_with_write B T f w = (r, w')"
  shows "(\<exists>v. pl_lock B T w = (Return (), v) \<and>
      f (rm_data B (mon_state v)) = (r, rm_data B (mon_state w')) \<and>
      (if r = Blocked then held (pl_platform B T) w' else idle (pl_platform B T) w')) \<or>
    (r = Blocked \<and> stuck_locking (pl_platform B T) w')"
  using raw_mutex.pl_with_write_spec [OF assms] .

theorem pl_with_write_outcome_witness:
  "\<exists>w'. pl_with_write std_raw manual_timer (\<lambda>d. (Panic ''boom'', d + 5)) (demo_pl_world []) =
      (Panic ''boom'' :: unit outcome, w') \<and> idle (pl_platform std_raw manual_timer) w'"
proof -
  let ?f = "\<lambda>d :: nat. (Panic ''boom'' :: unit outcome, d + 5)"
  have "fst (pl_with_write std_raw manual_timer ?f (demo_pl_world [])) = Panic ''boom''"
    by code_simp
  then obtain w' where run:
    "pl_with_write std_raw manual_timer ?f (demo_pl_world []) = (Panic ''boom'', w')"
    by (cases "pl_with_write std_raw manual_timer ?f (demo_pl_world [])") auto
  show ?thesis
    using run pl_with_write_outcome [OF std_raw_mutex demo_pl_idle run] by auto
qed

text \<open>The inherent write-and-notify methods of the parking_lot monitor behave exactly like the
  provided trait methods reached through an \<^verbatim>\<open>Arc\<close>.\<close>

theorem pl_write_notify_is_trait_default:
  assumes "raw_mutex B"
  shows "pl_with_write_notify_one B T f w =
      Monitor_with_write_notify_one (Arc_with_write (pl_Monitor_with_write B T))
        (Arc_notify_one (pl_Notifier_notify_one B T)) f w \<and>
    pl_with_write_notify_all B T f w =
      Monitor_with_write_notify_all (Arc_with_write (pl_Monitor_with_write B T))
        (Arc_notify_all (pl_Notifier_notify_all B T)) f w"
  using raw_mutex.pl_write_notify_eq [OF assms] by blast

theorem pl_write_notify_is_trait_default_witness:
  "pl_with_write_notify_one std_raw manual_timer demo_take (demo_pl_world demo_producer) =
     Monitor_with_write_notify_one (Arc_with_write (pl_Monitor_with_write std_raw manual_timer))
       (Arc_notify_one (pl_Notifier_notify_one std_raw manual_timer)) demo_take
       (demo_pl_world demo_producer)"
  using pl_write_notify_is_trait_default [OF std_raw_mutex] by blast

end
