(* ===== verification/Sync_Locks.thy ===== *)
theory Sync_Locks
  imports Raw_Locks
begin

text \<open>
  The synchronous locks of \<^verbatim>\<open>src/lock/\<close>: closure access (\<^verbatim>\<open>DataLock\<close>), guard access
  (\<^verbatim>\<open>Lock\<close>, \<^verbatim>\<open>ReadWriteLock\<close>) and the read/write adapters, for the standard and the parking_lot
  primitives. A call is a function of the state of the lock it is made on; when the acquisition
  cannot succeed in that state the blocking calls are \<open>Blocked\<close> and leave the lock alone.
\<close>

section \<open>try_lock_error.rs\<close>

datatype TryLockError = WouldBlock | Poisoned

fun TryLockError_fmt :: "TryLockError \<Rightarrow> string" where
  "TryLockError_fmt WouldBlock = ''lock acquisition would block''"
| "TryLockError_fmt Poisoned = ''lock is poisoned''"

section \<open>lock.rs and read_write_lock.rs: guard access\<close>

text \<open>\<^verbatim>\<open>unwrap()\<close> of a \<^verbatim>\<open>PoisonError\<close>: the error owns the guard, which the unwinding drops.\<close>

abbreviation unwrap_poisoned :: string where
  "unwrap_poisoned \<equiv> ''called `Result::unwrap()` on an `Err` value: PoisonError { .. }''"

definition mutex_Lock_lock :: "'t mutex \<Rightarrow> guard outcome \<times> 't mutex" where
  "mutex_Lock_lock m =
     (if mx_locked m then (Blocked, m)
      else case mutex_lock m of
             (Ok g, m1) \<Rightarrow> (Return g, m1)
           | (Poisoned_guard g, m1) \<Rightarrow> (Panic unwrap_poisoned, mutex_guard_drop True m1))"

text \<open>A poisoned \<^verbatim>\<open>try_lock\<close> also owns a guard; it is dropped when the match ends.\<close>

definition mutex_Lock_try_lock :: "'t mutex \<Rightarrow> (TryLockError + guard) \<times> 't mutex" where
  "mutex_Lock_try_lock m = (case mutex_try_lock m of
       (Try_ok g, m1) \<Rightarrow> (Inr g, m1)
     | (Try_would_block, m1) \<Rightarrow> (Inl WouldBlock, m1)
     | (Try_poisoned g, m1) \<Rightarrow> (Inl Poisoned, mutex_guard_drop False m1))"

definition pl_Lock_lock :: "('m, 't) raw_mutex_ops \<Rightarrow> 'm \<Rightarrow> guard outcome \<times> 'm" where
  "pl_Lock_lock B m = (if rm_free B m then (Return Guard, rm_lock B m) else (Blocked, m))"

text \<open>\<^verbatim>\<open>parking_lot::Mutex::try_lock\<close> gives an optional guard.\<close>

definition pl_try_lock_raw :: "('m, 't) raw_mutex_ops \<Rightarrow> 'm \<Rightarrow> guard option \<times> 'm" where
  "pl_try_lock_raw B m = (if rm_free B m then (Some Guard, rm_lock B m) else (None, m))"

definition ok_or :: "'a option \<Rightarrow> 'e \<Rightarrow> 'e + 'a" where
  "ok_or x e = (case x of Some a \<Rightarrow> Inr a | None \<Rightarrow> Inl e)"

definition pl_Lock_try_lock :: "('m, 't) raw_mutex_ops \<Rightarrow> 'm \<Rightarrow> (TryLockError + guard) \<times> 'm" where
  "pl_Lock_try_lock B m = apfst (\<lambda>g. ok_or g WouldBlock) (pl_try_lock_raw B m)"

definition rwlock_RW_read :: "'t rwlock \<Rightarrow> guard outcome \<times> 't rwlock" where
  "rwlock_RW_read l =
     (if \<not> rwlock_read_free l then (Blocked, l)
      else case rwlock_read l of
             (Ok g, l1) \<Rightarrow> (Return g, l1)
           | (Poisoned_guard g, l1) \<Rightarrow> (Panic unwrap_poisoned, rwlock_read_drop l1))"

definition rwlock_RW_write :: "'t rwlock \<Rightarrow> guard outcome \<times> 't rwlock" where
  "rwlock_RW_write l =
     (if \<not> rwlock_write_free l then (Blocked, l)
      else case rwlock_write l of
             (Ok g, l1) \<Rightarrow> (Return g, l1)
           | (Poisoned_guard g, l1) \<Rightarrow> (Panic unwrap_poisoned, rwlock_write_drop True l1))"

definition rwlock_RW_try_read :: "'t rwlock \<Rightarrow> (TryLockError + guard) \<times> 't rwlock" where
  "rwlock_RW_try_read l = (case rwlock_try_read l of
       (Try_ok g, l1) \<Rightarrow> (Inr g, l1)
     | (Try_would_block, l1) \<Rightarrow> (Inl WouldBlock, l1)
     | (Try_poisoned g, l1) \<Rightarrow> (Inl Poisoned, rwlock_read_drop l1))"

definition rwlock_RW_try_write :: "'t rwlock \<Rightarrow> (TryLockError + guard) \<times> 't rwlock" where
  "rwlock_RW_try_write l = (case rwlock_try_write l of
       (Try_ok g, l1) \<Rightarrow> (Inr g, l1)
     | (Try_would_block, l1) \<Rightarrow> (Inl WouldBlock, l1)
     | (Try_poisoned g, l1) \<Rightarrow> (Inl Poisoned, rwlock_write_drop False l1))"

definition pl_RW_read :: "('m, 't) raw_rwlock_ops \<Rightarrow> 'm \<Rightarrow> guard outcome \<times> 'm" where
  "pl_RW_read L m = (if rr_read_free L m then (Return Guard, rr_read L m) else (Blocked, m))"

definition pl_RW_write :: "('m, 't) raw_rwlock_ops \<Rightarrow> 'm \<Rightarrow> guard outcome \<times> 'm" where
  "pl_RW_write L m = (if rr_write_free L m then (Return Guard, rr_write L m) else (Blocked, m))"

definition pl_try_read_raw :: "('m, 't) raw_rwlock_ops \<Rightarrow> 'm \<Rightarrow> guard option \<times> 'm" where
  "pl_try_read_raw L m = (if rr_read_free L m then (Some Guard, rr_read L m) else (None, m))"

definition pl_try_write_raw :: "('m, 't) raw_rwlock_ops \<Rightarrow> 'm \<Rightarrow> guard option \<times> 'm" where
  "pl_try_write_raw L m = (if rr_write_free L m then (Some Guard, rr_write L m) else (None, m))"

definition pl_RW_try_read :: "('m, 't) raw_rwlock_ops \<Rightarrow> 'm \<Rightarrow> (TryLockError + guard) \<times> 'm" where
  "pl_RW_try_read L m = apfst (\<lambda>g. ok_or g WouldBlock) (pl_try_read_raw L m)"

definition pl_RW_try_write :: "('m, 't) raw_rwlock_ops \<Rightarrow> 'm \<Rightarrow> (TryLockError + guard) \<times> 'm" where
  "pl_RW_try_write L m = apfst (\<lambda>g. ok_or g WouldBlock) (pl_try_write_raw L m)"

section \<open>read_lock.rs and write_lock.rs: adapters\<close>

text \<open>
  An adapter borrows a reader-writer lock and is a \<^verbatim>\<open>Lock\<close>; the methods of the borrowed lock are
  arguments.
\<close>

definition ReadLock_lock :: "('m \<Rightarrow> guard outcome \<times> 'm) \<Rightarrow> 'm \<Rightarrow> guard outcome \<times> 'm" where
  "ReadLock_lock lock_read m = lock_read m"

definition ReadLock_try_lock ::
  "('m \<Rightarrow> (TryLockError + guard) \<times> 'm) \<Rightarrow> 'm \<Rightarrow> (TryLockError + guard) \<times> 'm"
where
  "ReadLock_try_lock lock_try_read m = lock_try_read m"

definition WriteLock_lock :: "('m \<Rightarrow> guard outcome \<times> 'm) \<Rightarrow> 'm \<Rightarrow> guard outcome \<times> 'm" where
  "WriteLock_lock lock_write m = lock_write m"

definition WriteLock_try_lock ::
  "('m \<Rightarrow> (TryLockError + guard) \<times> 'm) \<Rightarrow> 'm \<Rightarrow> (TryLockError + guard) \<times> 'm"
where
  "WriteLock_try_lock lock_try_write m = lock_try_write m"

section \<open>data_lock.rs: closure access\<close>

type_synonym ('t, 'r) reader = "'t \<Rightarrow> 'r outcome"
type_synonym ('t, 'r) writer = "'t \<Rightarrow> 'r outcome \<times> 't"

text \<open>
  A closure under a guard: what it wrote stays, and when it returns or panics the guard is dropped.
  A closure that never returns keeps the guard.
\<close>

definition under_guard ::
  "('m \<Rightarrow> 't) \<Rightarrow> ('t \<Rightarrow> 'm \<Rightarrow> 'm) \<Rightarrow> (bool \<Rightarrow> 'm \<Rightarrow> 'm) \<Rightarrow> ('t, 'r) writer \<Rightarrow> 'm \<Rightarrow> 'r outcome \<times> 'm"
where
  "under_guard get put release f m =
     (let (r, d) = f (get m); m1 = put d m
      in (r, if r = Blocked then m1 else release (is_panic r) m1))"

definition mutex_section :: "('t, 'r) writer \<Rightarrow> 't mutex \<Rightarrow> 'r outcome \<times> 't mutex" where
  "mutex_section f m = under_guard mx_data (\<lambda>d m. m\<lparr>mx_data := d\<rparr>) mutex_guard_drop f m"

definition rwlock_read_section :: "('t, 'r) reader \<Rightarrow> 't rwlock \<Rightarrow> 'r outcome \<times> 't rwlock" where
  "rwlock_read_section f l =
     under_guard rw_data (\<lambda>_ l. l) (\<lambda>_. rwlock_read_drop) (\<lambda>d. (f d, d)) l"

definition rwlock_write_section :: "('t, 'r) writer \<Rightarrow> 't rwlock \<Rightarrow> 'r outcome \<times> 't rwlock" where
  "rwlock_write_section f l =
     under_guard rw_data (\<lambda>d l. l\<lparr>rw_data := d\<rparr>) rwlock_write_drop f l"

definition mutex_with_read :: "('t, 'r) reader \<Rightarrow> 't mutex \<Rightarrow> 'r outcome \<times> 't mutex" where
  "mutex_with_read f m =
     (if mx_locked m then (Blocked, m)
      else case mutex_lock m of
             (Ok g, m1) \<Rightarrow> mutex_section (\<lambda>d. (f d, d)) m1
           | (Poisoned_guard g, m1) \<Rightarrow> (Panic unwrap_poisoned, mutex_guard_drop True m1))"

definition mutex_with_write :: "('t, 'r) writer \<Rightarrow> 't mutex \<Rightarrow> 'r outcome \<times> 't mutex" where
  "mutex_with_write f m =
     (if mx_locked m then (Blocked, m)
      else case mutex_lock m of
             (Ok g, m1) \<Rightarrow> mutex_section f m1
           | (Poisoned_guard g, m1) \<Rightarrow> (Panic unwrap_poisoned, mutex_guard_drop True m1))"

definition mutex_try_with_read ::
  "('t, 'r) reader \<Rightarrow> 't mutex \<Rightarrow> (TryLockError + 'r) outcome \<times> 't mutex"
where
  "mutex_try_with_read f m = (case mutex_try_lock m of
       (Try_ok g, m1) \<Rightarrow> apfst (map_outcome Inr) (mutex_section (\<lambda>d. (f d, d)) m1)
     | (Try_would_block, m1) \<Rightarrow> (Return (Inl WouldBlock), m1)
     | (Try_poisoned g, m1) \<Rightarrow> (Return (Inl Poisoned), mutex_guard_drop False m1))"

definition mutex_try_with_write ::
  "('t, 'r) writer \<Rightarrow> 't mutex \<Rightarrow> (TryLockError + 'r) outcome \<times> 't mutex"
where
  "mutex_try_with_write f m = (case mutex_try_lock m of
       (Try_ok g, m1) \<Rightarrow> apfst (map_outcome Inr) (mutex_section f m1)
     | (Try_would_block, m1) \<Rightarrow> (Return (Inl WouldBlock), m1)
     | (Try_poisoned g, m1) \<Rightarrow> (Return (Inl Poisoned), mutex_guard_drop False m1))"

definition rwlock_with_read :: "('t, 'r) reader \<Rightarrow> 't rwlock \<Rightarrow> 'r outcome \<times> 't rwlock" where
  "rwlock_with_read f l =
     (if \<not> rwlock_read_free l then (Blocked, l)
      else case rwlock_read l of
             (Ok g, l1) \<Rightarrow> rwlock_read_section f l1
           | (Poisoned_guard g, l1) \<Rightarrow> (Panic unwrap_poisoned, rwlock_read_drop l1))"

definition rwlock_with_write :: "('t, 'r) writer \<Rightarrow> 't rwlock \<Rightarrow> 'r outcome \<times> 't rwlock" where
  "rwlock_with_write f l =
     (if \<not> rwlock_write_free l then (Blocked, l)
      else case rwlock_write l of
             (Ok g, l1) \<Rightarrow> rwlock_write_section f l1
           | (Poisoned_guard g, l1) \<Rightarrow> (Panic unwrap_poisoned, rwlock_write_drop True l1))"

definition rwlock_try_with_read ::
  "('t, 'r) reader \<Rightarrow> 't rwlock \<Rightarrow> (TryLockError + 'r) outcome \<times> 't rwlock"
where
  "rwlock_try_with_read f l = (case rwlock_try_read l of
       (Try_ok g, l1) \<Rightarrow> apfst (map_outcome Inr) (rwlock_read_section f l1)
     | (Try_would_block, l1) \<Rightarrow> (Return (Inl WouldBlock), l1)
     | (Try_poisoned g, l1) \<Rightarrow> (Return (Inl Poisoned), rwlock_read_drop l1))"

definition rwlock_try_with_write ::
  "('t, 'r) writer \<Rightarrow> 't rwlock \<Rightarrow> (TryLockError + 'r) outcome \<times> 't rwlock"
where
  "rwlock_try_with_write f l = (case rwlock_try_write l of
       (Try_ok g, l1) \<Rightarrow> apfst (map_outcome Inr) (rwlock_write_section f l1)
     | (Try_would_block, l1) \<Rightarrow> (Return (Inl WouldBlock), l1)
     | (Try_poisoned g, l1) \<Rightarrow> (Return (Inl Poisoned), rwlock_write_drop False l1))"

text \<open>The parking_lot primitives.\<close>

definition pl_mutex_section ::
  "('m, 't) raw_mutex_ops \<Rightarrow> ('t, 'r) writer \<Rightarrow> 'm \<Rightarrow> 'r outcome \<times> 'm"
where
  "pl_mutex_section B f m = under_guard (rm_data B) (rm_set B) (\<lambda>_. rm_unlock B) f m"

definition pl_mutex_with_read ::
  "('m, 't) raw_mutex_ops \<Rightarrow> ('t, 'r) reader \<Rightarrow> 'm \<Rightarrow> 'r outcome \<times> 'm"
where
  "pl_mutex_with_read B f m =
     (if rm_free B m then pl_mutex_section B (\<lambda>d. (f d, d)) (rm_lock B m) else (Blocked, m))"

definition pl_mutex_with_write ::
  "('m, 't) raw_mutex_ops \<Rightarrow> ('t, 'r) writer \<Rightarrow> 'm \<Rightarrow> 'r outcome \<times> 'm"
where
  "pl_mutex_with_write B f m =
     (if rm_free B m then pl_mutex_section B f (rm_lock B m) else (Blocked, m))"

definition pl_mutex_try_with_read ::
  "('m, 't) raw_mutex_ops \<Rightarrow> ('t, 'r) reader \<Rightarrow> 'm \<Rightarrow> (TryLockError + 'r) outcome \<times> 'm"
where
  "pl_mutex_try_with_read B f m = (case pl_try_lock_raw B m of
       (Some g, m1) \<Rightarrow> apfst (map_outcome Inr) (pl_mutex_section B (\<lambda>d. (f d, d)) m1)
     | (None, m1) \<Rightarrow> (Return (Inl WouldBlock), m1))"

definition pl_mutex_try_with_write ::
  "('m, 't) raw_mutex_ops \<Rightarrow> ('t, 'r) writer \<Rightarrow> 'm \<Rightarrow> (TryLockError + 'r) outcome \<times> 'm"
where
  "pl_mutex_try_with_write B f m = (case pl_try_lock_raw B m of
       (Some g, m1) \<Rightarrow> apfst (map_outcome Inr) (pl_mutex_section B f m1)
     | (None, m1) \<Rightarrow> (Return (Inl WouldBlock), m1))"

definition pl_read_section ::
  "('m, 't) raw_rwlock_ops \<Rightarrow> ('t, 'r) reader \<Rightarrow> 'm \<Rightarrow> 'r outcome \<times> 'm"
where
  "pl_read_section L f m =
     under_guard (rr_data L) (\<lambda>_ m. m) (\<lambda>_. rr_read_drop L) (\<lambda>d. (f d, d)) m"

definition pl_write_section ::
  "('m, 't) raw_rwlock_ops \<Rightarrow> ('t, 'r) writer \<Rightarrow> 'm \<Rightarrow> 'r outcome \<times> 'm"
where
  "pl_write_section L f m = under_guard (rr_data L) (rr_set L) (\<lambda>_. rr_write_drop L) f m"

definition pl_rwlock_with_read ::
  "('m, 't) raw_rwlock_ops \<Rightarrow> ('t, 'r) reader \<Rightarrow> 'm \<Rightarrow> 'r outcome \<times> 'm"
where
  "pl_rwlock_with_read L f m =
     (if rr_read_free L m then pl_read_section L f (rr_read L m) else (Blocked, m))"

definition pl_rwlock_with_write ::
  "('m, 't) raw_rwlock_ops \<Rightarrow> ('t, 'r) writer \<Rightarrow> 'm \<Rightarrow> 'r outcome \<times> 'm"
where
  "pl_rwlock_with_write L f m =
     (if rr_write_free L m then pl_write_section L f (rr_write L m) else (Blocked, m))"

definition pl_rwlock_try_with_read ::
  "('m, 't) raw_rwlock_ops \<Rightarrow> ('t, 'r) reader \<Rightarrow> 'm \<Rightarrow> (TryLockError + 'r) outcome \<times> 'm"
where
  "pl_rwlock_try_with_read L f m = (case pl_try_read_raw L m of
       (Some g, m1) \<Rightarrow> apfst (map_outcome Inr) (pl_read_section L f m1)
     | (None, m1) \<Rightarrow> (Return (Inl WouldBlock), m1))"

definition pl_rwlock_try_with_write ::
  "('m, 't) raw_rwlock_ops \<Rightarrow> ('t, 'r) writer \<Rightarrow> 'm \<Rightarrow> (TryLockError + 'r) outcome \<times> 'm"
where
  "pl_rwlock_try_with_write L f m = (case pl_try_write_raw L m of
       (Some g, m1) \<Rightarrow> apfst (map_outcome Inr) (pl_write_section L f m1)
     | (None, m1) \<Rightarrow> (Return (Inl WouldBlock), m1))"

section \<open>References and Arc\<close>

text \<open>
  \<^verbatim>\<open>&L\<close> and \<^verbatim>\<open>Arc<L>\<close> forward every method to the lock they point to; the method forwarded to
  is the first argument.
\<close>

definition Ref_DataLock_with_read ::
  "(('t, 'r) reader \<Rightarrow> 'm \<Rightarrow> 'r outcome \<times> 'm) \<Rightarrow>
   ('t, 'r) reader \<Rightarrow> 'm \<Rightarrow> 'r outcome \<times> 'm"
where
  "Ref_DataLock_with_read L_with_read f m = L_with_read f m"

definition Ref_DataLock_with_write ::
  "(('t, 'r) writer \<Rightarrow> 'm \<Rightarrow> 'r outcome \<times> 'm) \<Rightarrow>
   ('t, 'r) writer \<Rightarrow> 'm \<Rightarrow> 'r outcome \<times> 'm"
where
  "Ref_DataLock_with_write L_with_write f m = L_with_write f m"

definition Ref_DataLock_try_with_read ::
  "(('t, 'r) reader \<Rightarrow> 'm \<Rightarrow> (TryLockError + 'r) outcome \<times> 'm) \<Rightarrow>
   ('t, 'r) reader \<Rightarrow> 'm \<Rightarrow> (TryLockError + 'r) outcome \<times> 'm"
where
  "Ref_DataLock_try_with_read L_try_with_read f m = L_try_with_read f m"

definition Ref_DataLock_try_with_write ::
  "(('t, 'r) writer \<Rightarrow> 'm \<Rightarrow> (TryLockError + 'r) outcome \<times> 'm) \<Rightarrow>
   ('t, 'r) writer \<Rightarrow> 'm \<Rightarrow> (TryLockError + 'r) outcome \<times> 'm"
where
  "Ref_DataLock_try_with_write L_try_with_write f m = L_try_with_write f m"

definition Ref_Lock_lock :: "('m \<Rightarrow> guard outcome \<times> 'm) \<Rightarrow> 'm \<Rightarrow> guard outcome \<times> 'm" where
  "Ref_Lock_lock L_lock m = L_lock m"

definition Ref_Lock_try_lock :: "('m \<Rightarrow> (TryLockError + guard) \<times> 'm) \<Rightarrow> 'm \<Rightarrow> (TryLockError + guard) \<times> 'm" where
  "Ref_Lock_try_lock L_try_lock m = L_try_lock m"

definition Ref_RW_read :: "('m \<Rightarrow> guard outcome \<times> 'm) \<Rightarrow> 'm \<Rightarrow> guard outcome \<times> 'm" where
  "Ref_RW_read L_read m = L_read m"

definition Ref_RW_write :: "('m \<Rightarrow> guard outcome \<times> 'm) \<Rightarrow> 'm \<Rightarrow> guard outcome \<times> 'm" where
  "Ref_RW_write L_write m = L_write m"

definition Ref_RW_try_read :: "('m \<Rightarrow> (TryLockError + guard) \<times> 'm) \<Rightarrow> 'm \<Rightarrow> (TryLockError + guard) \<times> 'm" where
  "Ref_RW_try_read L_try_read m = L_try_read m"

definition Ref_RW_try_write :: "('m \<Rightarrow> (TryLockError + guard) \<times> 'm) \<Rightarrow> 'm \<Rightarrow> (TryLockError + guard) \<times> 'm" where
  "Ref_RW_try_write L_try_write m = L_try_write m"

definition Arc_DataLock_with_read ::
  "(('t, 'r) reader \<Rightarrow> 'm \<Rightarrow> 'r outcome \<times> 'm) \<Rightarrow>
   ('t, 'r) reader \<Rightarrow> 'm \<Rightarrow> 'r outcome \<times> 'm"
where
  "Arc_DataLock_with_read L_with_read f m = L_with_read f m"

definition Arc_DataLock_with_write ::
  "(('t, 'r) writer \<Rightarrow> 'm \<Rightarrow> 'r outcome \<times> 'm) \<Rightarrow>
   ('t, 'r) writer \<Rightarrow> 'm \<Rightarrow> 'r outcome \<times> 'm"
where
  "Arc_DataLock_with_write L_with_write f m = L_with_write f m"

definition Arc_DataLock_try_with_read ::
  "(('t, 'r) reader \<Rightarrow> 'm \<Rightarrow> (TryLockError + 'r) outcome \<times> 'm) \<Rightarrow>
   ('t, 'r) reader \<Rightarrow> 'm \<Rightarrow> (TryLockError + 'r) outcome \<times> 'm"
where
  "Arc_DataLock_try_with_read L_try_with_read f m = L_try_with_read f m"

definition Arc_DataLock_try_with_write ::
  "(('t, 'r) writer \<Rightarrow> 'm \<Rightarrow> (TryLockError + 'r) outcome \<times> 'm) \<Rightarrow>
   ('t, 'r) writer \<Rightarrow> 'm \<Rightarrow> (TryLockError + 'r) outcome \<times> 'm"
where
  "Arc_DataLock_try_with_write L_try_with_write f m = L_try_with_write f m"

definition Arc_Lock_lock :: "('m \<Rightarrow> guard outcome \<times> 'm) \<Rightarrow> 'm \<Rightarrow> guard outcome \<times> 'm" where
  "Arc_Lock_lock L_lock m = L_lock m"

definition Arc_Lock_try_lock :: "('m \<Rightarrow> (TryLockError + guard) \<times> 'm) \<Rightarrow> 'm \<Rightarrow> (TryLockError + guard) \<times> 'm" where
  "Arc_Lock_try_lock L_try_lock m = L_try_lock m"

definition Arc_RW_read :: "('m \<Rightarrow> guard outcome \<times> 'm) \<Rightarrow> 'm \<Rightarrow> guard outcome \<times> 'm" where
  "Arc_RW_read L_read m = L_read m"

definition Arc_RW_write :: "('m \<Rightarrow> guard outcome \<times> 'm) \<Rightarrow> 'm \<Rightarrow> guard outcome \<times> 'm" where
  "Arc_RW_write L_write m = L_write m"

definition Arc_RW_try_read :: "('m \<Rightarrow> (TryLockError + guard) \<times> 'm) \<Rightarrow> 'm \<Rightarrow> (TryLockError + guard) \<times> 'm" where
  "Arc_RW_try_read L_try_read m = L_try_read m"

definition Arc_RW_try_write :: "('m \<Rightarrow> (TryLockError + guard) \<times> 'm) \<Rightarrow> 'm \<Rightarrow> (TryLockError + guard) \<times> 'm" where
  "Arc_RW_try_write L_try_write m = L_try_write m"

lemmas forwarder_defs =
  Ref_DataLock_with_read_def
  Ref_DataLock_with_write_def
  Ref_DataLock_try_with_read_def
  Ref_DataLock_try_with_write_def
  Ref_Lock_lock_def
  Ref_Lock_try_lock_def
  Ref_RW_read_def
  Ref_RW_write_def
  Ref_RW_try_read_def
  Ref_RW_try_write_def
  Arc_DataLock_with_read_def
  Arc_DataLock_with_write_def
  Arc_DataLock_try_with_read_def
  Arc_DataLock_try_with_write_def
  Arc_Lock_lock_def
  Arc_Lock_try_lock_def
  Arc_RW_read_def
  Arc_RW_write_def
  Arc_RW_try_read_def
  Arc_RW_try_write_def

end
