(* ===== verification/Data_Lock_Spec.thy ===== *)
theory Data_Lock_Spec
  imports Sync_Locks
begin

text \<open>
  The contract of \<^verbatim>\<open>DataLock\<close> as a locale, its clients, and its four implementations. \<open>readable\<close>
  and \<open>writable\<close> say that a shared or exclusive acquisition succeeds now.
\<close>

section \<open>The contract\<close>

locale data_lock =
  fixes with_read :: "('t, 'r) reader \<Rightarrow> 's \<Rightarrow> 'r outcome \<times> 's"
    and with_write :: "('t, 'r) writer \<Rightarrow> 's \<Rightarrow> 'r outcome \<times> 's"
    and try_with_read :: "('t, 'r) reader \<Rightarrow> 's \<Rightarrow> (TryLockError + 'r) outcome \<times> 's"
    and try_with_write :: "('t, 'r) writer \<Rightarrow> 's \<Rightarrow> (TryLockError + 'r) outcome \<times> 's"
    and locked_value :: "'s \<Rightarrow> 't"
    and readable :: "'s \<Rightarrow> bool" and writable :: "'s \<Rightarrow> bool"
  assumes writable_readable: "writable s \<Longrightarrow> readable s"
    and read_returns: "readable s \<Longrightarrow> f (locked_value s) = Return x \<Longrightarrow>
      \<exists>s'. with_read f s = (Return x, s') \<and> locked_value s' = locked_value s \<and> readable s' \<and>
        writable s' = writable s"
    and write_returns: "writable s \<Longrightarrow> g (locked_value s) = (Return x, d) \<Longrightarrow>
      \<exists>s'. with_write g s = (Return x, s') \<and> locked_value s' = d \<and> writable s'"
    and try_read_agrees: "readable s \<Longrightarrow> try_with_read f s = apfst (map_outcome Inr) (with_read f s)"
    and try_write_agrees:
      "writable s \<Longrightarrow> try_with_write g s = apfst (map_outcome Inr) (with_write g s)"
    and try_read_fails: "\<not> readable s \<Longrightarrow> \<exists>e s'. try_with_read f s = (Return (Inl e), s') \<and>
      locked_value s' = locked_value s \<and> readable s' = readable s \<and> writable s' = writable s"
    and try_write_fails: "\<not> writable s \<Longrightarrow> \<exists>e s'. try_with_write g s = (Return (Inl e), s') \<and>
      locked_value s' = locked_value s \<and> readable s' = readable s \<and> writable s' = writable s"
begin

text \<open>What was written is what is read next.\<close>

lemma write_then_read:
  assumes "writable s" and "g (locked_value s) = (Return x, d)" and "f d = Return y"
  obtains s1 s2 where "with_write g s = (Return x, s1)" and "with_read f s1 = (Return y, s2)"
    and "locked_value s2 = d" and "writable s2"
proof -
  obtain s1 where s1: "with_write g s = (Return x, s1)" "locked_value s1 = d" "writable s1"
    using write_returns [of s g x d] assms(1,2) by blast
  obtain s2 where s2: "with_read f s1 = (Return y, s2)" "locked_value s2 = d" "writable s2"
    using read_returns [OF writable_readable [OF s1(3)], of f y] s1(2,3) assms(3) by auto
  show thesis using s1(1) s2 by (rule that)
qed

text \<open>A failed attempt does not touch the value; a successful one is the blocking call.\<close>

lemma try_write_total:
  assumes "\<And>d. fst (g d) \<noteq> Blocked" and "\<And>d. \<not> is_panic (fst (g d))"
  shows "\<exists>res s'. try_with_write g s = (Return res, s') \<and>
    (case res of Inr x \<Rightarrow> writable s \<and> g (locked_value s) = (Return x, locked_value s')
               | Inl e \<Rightarrow> \<not> writable s \<and> locked_value s' = locked_value s)"
proof (cases "writable s")
  case True
  obtain r d where g: "g (locked_value s) = (r, d)" by fastforce
  have "r \<noteq> Blocked" "\<not> is_panic r"
    using assms(1) [of "locked_value s"] assms(2) [of "locked_value s"] by (simp_all add: g)
  then obtain x where x: "r = Return x" by (cases r) simp_all
  show ?thesis
    using write_returns [of s g x d] try_write_agrees [OF True, of g] True g x
    by auto
next
  case False
  then show ?thesis using try_write_fails [OF False, of g] by auto
qed

end

text \<open>A program that performs updates one after the other.\<close>

fun run_updates ::
  "(('t, 'r) writer \<Rightarrow> 's \<Rightarrow> 'r outcome \<times> 's) \<Rightarrow> ('t, 'r) writer list \<Rightarrow> 's \<Rightarrow> 'r list outcome \<times> 's"
where
  "run_updates with_write [] s = (Return [], s)"
| "run_updates with_write (g # gs) s =
     and_then (with_write g s) (\<lambda>x s.
     and_then (run_updates with_write gs s) (\<lambda>xs s. (Return (x # xs), s)))"

text \<open>The same program on the plain value.\<close>

fun pure_updates :: "('t, 'r) writer list \<Rightarrow> 't \<Rightarrow> 'r list outcome \<times> 't" where
  "pure_updates [] d = (Return [], d)"
| "pure_updates (g # gs) d =
     and_then (g d) (\<lambda>x d. and_then (pure_updates gs d) (\<lambda>xs d. (Return (x # xs), d)))"

context data_lock
begin

text \<open>Updates through the lock are the updates of the value.\<close>

lemma run_updates_refines:
  "writable s \<Longrightarrow> pure_updates gs (locked_value s) = (Return xs, d) \<Longrightarrow>
   \<exists>s'. run_updates with_write gs s = (Return xs, s') \<and> locked_value s' = d \<and> writable s'"
proof (induction gs arbitrary: s xs)
  case Nil
  then show ?case by auto
next
  case (Cons g gs)
  obtain x d1 where g: "g (locked_value s) = (Return x, d1)"
    and rest: "and_then (pure_updates gs d1) (\<lambda>xs d. (Return (x # xs), d)) = (Return xs, d)"
    using Cons.prems(2) by (auto elim: and_then_ReturnD)
  obtain ys where ys: "pure_updates gs d1 = (Return ys, d)" "xs = x # ys"
    using rest by (auto elim: and_then_ReturnD)
  obtain s1 where s1: "with_write g s = (Return x, s1)" "locked_value s1 = d1" "writable s1"
    using write_returns [of s g x d1] Cons.prems(1) g by blast
  show ?case using Cons.IH [OF s1(3), of ys] ys s1 by auto
qed

end

section \<open>Implementations\<close>

lemmas std_lock_defs =
  mutex_lock_def mutex_try_lock_def mutex_guard_drop_def mutex_section_def under_guard_def
  mutex_with_read_def mutex_with_write_def mutex_try_with_read_def mutex_try_with_write_def
  rwlock_read_def rwlock_write_def rwlock_try_read_def rwlock_try_write_def rwlock_read_drop_def
  rwlock_write_drop_def rwlock_read_free_def rwlock_write_free_def rwlock_read_section_def
  rwlock_write_section_def rwlock_with_read_def rwlock_with_write_def rwlock_try_with_read_def
  rwlock_try_with_write_def

lemmas pl_lock_defs =
  pl_mutex_section_def under_guard_def pl_mutex_with_read_def pl_mutex_with_write_def
  pl_mutex_try_with_read_def pl_mutex_try_with_write_def pl_try_lock_raw_def pl_read_section_def
  pl_write_section_def pl_rwlock_with_read_def pl_rwlock_with_write_def
  pl_rwlock_try_with_read_def pl_rwlock_try_with_write_def pl_try_read_raw_def pl_try_write_raw_def

interpretation mutex_lock: data_lock mutex_with_read mutex_with_write mutex_try_with_read
  mutex_try_with_write mx_data "\<lambda>m. \<not> mx_locked m \<and> \<not> mx_poisoned m"
  "\<lambda>m. \<not> mx_locked m \<and> \<not> mx_poisoned m"
  by unfold_locales (auto simp: std_lock_defs Let_def)

interpretation rwlock_lock: data_lock rwlock_with_read rwlock_with_write rwlock_try_with_read
  rwlock_try_with_write rw_data "\<lambda>l. rwlock_read_free l \<and> \<not> rw_poisoned l"
  "\<lambda>l. rwlock_write_free l \<and> \<not> rw_poisoned l"
  by unfold_locales (auto simp: std_lock_defs Let_def)

sublocale raw_mutex \<subseteq> pl_lock: data_lock "pl_mutex_with_read B" "pl_mutex_with_write B"
  "pl_mutex_try_with_read B" "pl_mutex_try_with_write B" "rm_data B" "rm_free B" "rm_free B"
  by unfold_locales (auto simp: pl_lock_defs Let_def)

sublocale raw_rwlock \<subseteq> pl_rwlock: data_lock "pl_rwlock_with_read L" "pl_rwlock_with_write L"
  "pl_rwlock_try_with_read L" "pl_rwlock_try_with_write L" "rr_data L" "rr_read_free L"
  "rr_write_free L"
  by unfold_locales (auto simp: pl_lock_defs Let_def)

end
