(* ===== verification/Lock_Properties.thy ===== *)
theory Lock_Properties
  imports Data_Lock_Spec
begin

text \<open>
  What the synchronous locks guarantee: updates through a lock are updates of the value, poisoning
  of the standard primitives, sharing and exclusion of the adapters, and the agreement of closure
  access with guard access.
\<close>

section \<open>Updates\<close>

text \<open>C34: updates performed one after the other through \<^verbatim>\<open>DataLock::with_write\<close> on an available
  standard \<^verbatim>\<open>Mutex\<close> or \<^verbatim>\<open>RwLock\<close> give the results and the final value of the same updates on the
  plain value, and leave the lock available.\<close>

theorem std_locks_refine_updates:
  assumes "pure_updates gs d = (Return xs, d')"
  shows "(\<not> mx_locked m \<and> \<not> mx_poisoned m \<and> mx_data m = d \<longrightarrow>
      (\<exists>m'. run_updates mutex_with_write gs m = (Return xs, m') \<and> mx_data m' = d' \<and>
        \<not> mx_locked m' \<and> \<not> mx_poisoned m')) \<and>
    (rwlock_write_free l \<and> \<not> rw_poisoned l \<and> rw_data l = d \<longrightarrow>
      (\<exists>l'. run_updates rwlock_with_write gs l = (Return xs, l') \<and> rw_data l' = d' \<and>
        rwlock_write_free l' \<and> \<not> rw_poisoned l'))"
  using mutex_lock.run_updates_refines [of m gs xs d'] rwlock_lock.run_updates_refines [of l gs xs d']
    assms by auto

theorem std_locks_refine_updates_witness:
  "\<exists>m'. run_updates mutex_with_write [\<lambda>d. (Return d, d + 1), \<lambda>d. (Return (2 * d), d * 10)]
      (mutex_new (4 :: nat)) = (Return [4, 10], m') \<and> mx_data m' = 50"
proof -
  have "pure_updates [\<lambda>d. (Return d, d + 1), \<lambda>d. (Return (2 * d), d * 10)] (4 :: nat) = (Return [4, 10], 50)"
    by simp
  from std_locks_refine_updates [OF this, of "mutex_new 4" "rwlock_new 4"] show ?thesis
    by (simp add: mutex_new_def del: run_updates.simps) blast
qed

context raw_mutex
begin

lemma pl_mutex_updates:
  "rm_free B m \<Longrightarrow> pure_updates gs (rm_data B m) = (Return xs, d') \<Longrightarrow>
   \<exists>m'. run_updates (pl_mutex_with_write B) gs m = (Return xs, m') \<and> rm_data B m' = d' \<and> rm_free B m'"
  by (rule pl_lock.run_updates_refines)

lemma pl_mutex_panic:
  assumes "rm_free B m" and "f (rm_data B m) = (Panic e, d)"
  obtains m' where "pl_mutex_with_write B f m = (Panic e, m')" and "rm_data B m' = d" and "rm_free B m'"
  using assms by (simp add: pl_lock_defs that)

end

context raw_rwlock
begin

lemma pl_rwlock_updates:
  "rr_write_free L m \<Longrightarrow> pure_updates gs (rr_data L m) = (Return xs, d') \<Longrightarrow>
   \<exists>m'. run_updates (pl_rwlock_with_write L) gs m = (Return xs, m') \<and> rr_data L m' = d' \<and>
     rr_write_free L m'"
  by (rule pl_rwlock.run_updates_refines)

lemma pl_adapters:
  assumes "rr_read_free L m"
  shows "fst (pl_RW_read L m) = Return Guard"
    and "fst (pl_RW_try_read L (snd (pl_RW_read L m))) = Inr Guard"
    and "pl_RW_try_write L (snd (pl_RW_read L m)) = (Inl WouldBlock, snd (pl_RW_read L m))"
  using assms by (simp_all add: pl_RW_read_def pl_RW_try_read_def pl_RW_try_write_def
      pl_try_read_raw_def pl_try_write_raw_def ok_or_def)

lemma pl_write_adapter:
  assumes "rr_write_free L m"
  shows "fst (pl_RW_write L m) = Return Guard"
    and "pl_RW_try_read L (snd (pl_RW_write L m)) = (Inl WouldBlock, snd (pl_RW_write L m))"
    and "pl_RW_try_write L (snd (pl_RW_write L m)) = (Inl WouldBlock, snd (pl_RW_write L m))"
proof -
  have closed: "\<not> rr_read_free L (rr_write L m)" "\<not> rr_write_free L (rr_write L m)"
    using write_excludes [OF assms] write_free_read_free [of "rr_write L m"] by blast+
  show "fst (pl_RW_write L m) = Return Guard"
    and "pl_RW_try_read L (snd (pl_RW_write L m)) = (Inl WouldBlock, snd (pl_RW_write L m))"
    and "pl_RW_try_write L (snd (pl_RW_write L m)) = (Inl WouldBlock, snd (pl_RW_write L m))"
  using assms closed
  by (simp_all add: pl_RW_write_def pl_RW_try_read_def pl_RW_try_write_def
      pl_try_read_raw_def pl_try_write_raw_def ok_or_def)
qed

end

text \<open>The same for the parking_lot primitives; in addition a panicking update keeps what it
  wrote and leaves the lock available, since these locks are never poisoned.\<close>

theorem pl_locks_refine_updates:
  assumes "raw_mutex B" and "raw_rwlock L" and "pure_updates gs d = (Return xs, d')"
    and "rm_free B m" and "rm_data B m = d" and "rr_write_free L l" and "rr_data L l = d"
    and "f d = (Panic e, d'')"
  shows "(\<exists>m'. run_updates (pl_mutex_with_write B) gs m = (Return xs, m') \<and> rm_data B m' = d' \<and>
      rm_free B m') \<and>
    (\<exists>l'. run_updates (pl_rwlock_with_write L) gs l = (Return xs, l') \<and> rr_data L l' = d' \<and>
      rr_write_free L l') \<and>
    (\<exists>m'. pl_mutex_with_write B f m = (Panic e, m') \<and> rm_data B m' = d'' \<and> rm_free B m')"
  using raw_mutex.pl_mutex_updates [OF assms(1,4), of gs xs d']
    raw_rwlock.pl_rwlock_updates [OF assms(2,6), of gs xs d']
    raw_mutex.pl_mutex_panic [OF assms(1,4), of f e d''] assms(3,5,7,8)
  by metis

theorem pl_locks_refine_updates_witness:
  "\<exists>m'. pl_mutex_with_write std_raw (\<lambda>d. (Panic ''boom'', d + 1)) (mutex_new (4 :: nat)) =
      (Panic ''boom'' :: nat outcome, m') \<and> mx_data m' = 5 \<and> \<not> mx_locked m'"
proof -
  have "pure_updates [\<lambda>d. (Return d, d + 1)] (4 :: nat) = (Return [4], 5)" by simp
  moreover have "rm_free std_raw (mutex_new (4 :: nat))" "rm_data std_raw (mutex_new (4 :: nat)) = 4"
    "rr_write_free std_raw_rw (rwlock_new (4 :: nat))" "rr_data std_raw_rw (rwlock_new (4 :: nat)) = 4"
    by (simp_all add: std_raw_def std_raw_rw_def mutex_new_def rwlock_new_def rwlock_write_free_def)
  ultimately have "\<exists>m'. pl_mutex_with_write std_raw (\<lambda>d. (Panic ''boom'', d + 1)) (mutex_new (4 :: nat)) =
      (Panic ''boom'' :: nat outcome, m') \<and> rm_data std_raw m' = 5 \<and> rm_free std_raw m'"
    using pl_locks_refine_updates [OF std_raw_mutex std_raw_rwlock,
        of "[\<lambda>d. (Return d, d + 1)]" "4 :: nat" "[4 :: nat]" 5 "mutex_new 4" "rwlock_new 4"
        "\<lambda>d. (Panic ''boom'' :: nat outcome, d + 1)" "''boom''" 5]
    by (simp del: run_updates.simps)
  then show ?thesis by (simp add: std_raw_def)
qed

section \<open>Poisoning of the standard primitives\<close>

text \<open>C35: a panic inside \<^verbatim>\<open>Mutex\<close> closure access, reading or writing, keeps what was written, unlocks
  and poisons; from then on every blocking access panics in \<^verbatim>\<open>unwrap\<close> and every attempt reports
  \<^verbatim>\<open>Poisoned\<close>, none of them running its closure or leaving the mutex locked.\<close>

theorem mutex_poison_protocol:
  assumes "\<not> mx_locked m" and "\<not> mx_poisoned m"
    and "f (mx_data m) = (Panic e, d)" and "h (mx_data m) = Panic e"
  shows "\<exists>m' m''. mutex_with_write f m = (Panic e, m') \<and> mx_data m' = d \<and>
    mutex_with_read h m = (Panic e, m'') \<and> mx_data m'' = mx_data m \<and>
    (\<forall>n \<in> {m', m''}. \<not> mx_locked n \<and> is_poisoned n \<and>
       mutex_with_write g n = (Panic unwrap_poisoned, n) \<and>
       mutex_with_read k n = (Panic unwrap_poisoned, n) \<and>
       mutex_try_with_write g n = (Return (Inl Poisoned), n) \<and>
       mutex_try_with_read k n = (Return (Inl Poisoned), n))"
  using assms by (auto simp: std_lock_defs is_poisoned_def Let_def)

theorem mutex_poison_protocol_witness:
  "\<exists>m'. mutex_with_write (\<lambda>d. (Panic ''boom'', d + 1)) (mutex_new (4 :: nat)) =
      (Panic ''boom'' :: unit outcome, m') \<and> mx_data m' = 5 \<and> is_poisoned m'"
  using mutex_poison_protocol [of "mutex_new (4 :: nat)" "\<lambda>d. (Panic ''boom'' :: unit outcome, d + 1)" "''boom''" 5
      "\<lambda>_. Panic ''boom'' :: unit outcome" "\<lambda>d. (Return (), d)" "\<lambda>_. Return ()"]
  by (auto simp: mutex_new_def)

text \<open>An \<^verbatim>\<open>RwLock\<close> is poisoned by a panicking writer only. A panicking reader gives its guard
  back and leaves the lock exactly as it was.\<close>

theorem rwlock_poison_protocol:
  assumes "\<not> rw_poisoned l" and "rwlock_read_free l" and "h (rw_data l) = Panic e"
    and "rwlock_write_free n" and "\<not> rw_poisoned n" and "f (rw_data n) = (Panic e, d)"
  shows "rwlock_with_read h l = (Panic e, l) \<and>
    (\<exists>n'. rwlock_with_write f n = (Panic e, n') \<and> rw_data n' = d \<and> rw_poisoned n' \<and>
       rwlock_write_free n' \<and>
       rwlock_with_write g n' = (Panic unwrap_poisoned, n') \<and>
       rwlock_with_read k n' = (Panic unwrap_poisoned, n') \<and>
       rwlock_try_with_write g n' = (Return (Inl Poisoned), n') \<and>
       rwlock_try_with_read k n' = (Return (Inl Poisoned), n'))"
  using assms by (simp add: std_lock_defs Let_def)

theorem rwlock_poison_protocol_witness:
  "rwlock_with_read (\<lambda>_. Panic ''boom'' :: unit outcome) (rwlock_new (4 :: nat)) =
     (Panic ''boom'', rwlock_new 4)"
  using rwlock_poison_protocol [of "rwlock_new (4 :: nat)" "\<lambda>_. Panic ''boom'' :: unit outcome" "''boom''"
      "rwlock_new (4 :: nat)" "\<lambda>d. (Panic ''boom'' :: unit outcome, d)" 4 "\<lambda>d. (Return (), d)" "\<lambda>_. Return ()"]
  by (simp add: rwlock_new_def rwlock_read_free_def rwlock_write_free_def)

section \<open>Sharing and exclusion\<close>

text \<open>The read adapter shares and the write adapter excludes. After \<^verbatim>\<open>ReadLock::lock\<close> has
  returned on a standard \<^verbatim>\<open>RwLock\<close>, another reader still gets in and a writer is told
  \<^verbatim>\<open>WouldBlock\<close>; after \<^verbatim>\<open>WriteLock::lock\<close> has returned, both are told \<^verbatim>\<open>WouldBlock\<close> and leave
  the lock alone.\<close>

theorem rwlock_adapters_share_and_exclude:
  "(ReadLock_lock rwlock_RW_read l = (Return a, l1) \<longrightarrow>
      fst (ReadLock_try_lock rwlock_RW_try_read l1) = Inr Guard \<and>
      WriteLock_try_lock rwlock_RW_try_write l1 = (Inl WouldBlock, l1)) \<and>
   (WriteLock_lock rwlock_RW_write l = (Return b, l2) \<longrightarrow>
      ReadLock_try_lock rwlock_RW_try_read l2 = (Inl WouldBlock, l2) \<and>
      WriteLock_try_lock rwlock_RW_try_write l2 = (Inl WouldBlock, l2))"
  by (auto simp: ReadLock_lock_def ReadLock_try_lock_def WriteLock_lock_def WriteLock_try_lock_def
      rwlock_RW_read_def rwlock_RW_write_def rwlock_RW_try_read_def rwlock_RW_try_write_def
      std_lock_defs split: if_splits)

theorem rwlock_adapters_share_and_exclude_witness:
  "WriteLock_try_lock rwlock_RW_try_write (snd (ReadLock_lock rwlock_RW_read (rwlock_new (4 :: nat)))) =
     (Inl WouldBlock, snd (ReadLock_lock rwlock_RW_read (rwlock_new 4)))"
proof -
  have "ReadLock_lock rwlock_RW_read (rwlock_new (4 :: nat)) =
      (Return Guard, (rwlock_new 4)\<lparr>rw_readers := 1\<rparr>)"
    by (simp add: ReadLock_lock_def rwlock_RW_read_def std_lock_defs rwlock_new_def)
  then show ?thesis using rwlock_adapters_share_and_exclude [of "rwlock_new (4 :: nat)"] by auto
qed

text \<open>The adapters over a parking_lot \<^verbatim>\<open>RwLock\<close> share and exclude in the same way.\<close>

theorem pl_adapters_share_and_exclude:
  assumes "raw_rwlock L" and "rr_write_free L m"
  shows "ReadLock_lock (pl_RW_read L) m = (Return Guard, rr_read L m) \<and>
    fst (ReadLock_try_lock (pl_RW_try_read L) (rr_read L m)) = Inr Guard \<and>
    WriteLock_try_lock (pl_RW_try_write L) (rr_read L m) = (Inl WouldBlock, rr_read L m) \<and>
    WriteLock_lock (pl_RW_write L) m = (Return Guard, rr_write L m) \<and>
    ReadLock_try_lock (pl_RW_try_read L) (rr_write L m) = (Inl WouldBlock, rr_write L m) \<and>
    WriteLock_try_lock (pl_RW_try_write L) (rr_write L m) = (Inl WouldBlock, rr_write L m)"
proof -
  have free: "rr_read_free L m" using raw_rwlock.write_free_read_free [OF assms] .
  then have "snd (pl_RW_read L m) = rr_read L m" "snd (pl_RW_write L m) = rr_write L m"
    using assms(2) by (simp_all add: pl_RW_read_def pl_RW_write_def)
  then show ?thesis
    using raw_rwlock.pl_adapters [OF assms(1) free] raw_rwlock.pl_write_adapter [OF assms]
    by (simp add: ReadLock_lock_def ReadLock_try_lock_def WriteLock_lock_def WriteLock_try_lock_def
        pl_RW_read_def pl_RW_write_def free assms(2))
qed

theorem pl_adapters_share_and_exclude_witness:
  "WriteLock_try_lock (pl_RW_try_write std_raw_rw) (rr_read std_raw_rw (rwlock_new (4 :: nat))) =
     (Inl WouldBlock, rr_read std_raw_rw (rwlock_new 4))"
  using pl_adapters_share_and_exclude [OF std_raw_rwlock, of "rwlock_new (4 :: nat)"]
    std_raw_rw.new_free [of "4 :: nat"]
  by (simp add: std_raw_rw_def)


text \<open>An attempt never blocks and never half-succeeds: on any state of a standard lock,
  \<^verbatim>\<open>try_with_write\<close> with a closure that returns gives either the closure's result on the current
  value, or an error with the value untouched, and it errs exactly when the lock is held or
  poisoned.\<close>

theorem std_try_write_never_blocks:
  assumes "\<And>d. fst (g d) \<noteq> Blocked" and "\<And>d. \<not> is_panic (fst (g d))"
  shows "(\<exists>res m'. mutex_try_with_write g m = (Return res, m') \<and>
      (case res of Inr x \<Rightarrow> (\<not> mx_locked m \<and> \<not> mx_poisoned m) \<and> g (mx_data m) = (Return x, mx_data m')
       | Inl e \<Rightarrow> \<not> (\<not> mx_locked m \<and> \<not> mx_poisoned m) \<and> mx_data m' = mx_data m)) \<and>
    (\<exists>res l'. rwlock_try_with_write g l = (Return res, l') \<and>
      (case res of Inr x \<Rightarrow> (rwlock_write_free l \<and> \<not> rw_poisoned l) \<and> g (rw_data l) = (Return x, rw_data l')
       | Inl e \<Rightarrow> \<not> (rwlock_write_free l \<and> \<not> rw_poisoned l) \<and> rw_data l' = rw_data l))"
  using mutex_lock.try_write_total [of g m] rwlock_lock.try_write_total [of g l] assms by blast

theorem std_try_write_never_blocks_witness:
  "\<exists>res m'. mutex_try_with_write (\<lambda>d. (Return d, d + 1)) ((mutex_new (4 :: nat))\<lparr>mx_locked := True\<rparr>) =
     (Return res, m')"
  using std_try_write_never_blocks [of "\<lambda>d. (Return d, d + 1)"] by fastforce

end
