(* ===== verification/Tokio_Sync.thy ===== *)
theory Tokio_Sync
  imports Blocking_Waiter
begin

text \<open>
  The primitives of the \<^verbatim>\<open>tokio\<close> crate the asynchronous half builds on: \<^verbatim>\<open>sync::Mutex\<close>,
  \<^verbatim>\<open>sync::RwLock\<close> and \<^verbatim>\<open>sync::Notify\<close>. They are not part of this repository, so their operations
  are parameters; the locales state the documented behaviour that is relied on. An acquisition is a
  future: the first poll may enter a queue, a later poll grants the guard, and dropping the future
  leaves the queue.
\<close>

section \<open>Mutex\<close>

datatype 'q lock_poll = Granted | Queued 'q

record ('m, 't, 'q) tokio_mutex_ops =
  tk_new :: "'t \<Rightarrow> 'm"
  tk_guarded :: "'m \<Rightarrow> bool"
  tk_poll_lock :: "'q option \<Rightarrow> 'm \<Rightarrow> 'q lock_poll \<times> 'm"
  tk_cancel :: "'q \<Rightarrow> 'm \<Rightarrow> 'm"
  tk_try_lock :: "'m \<Rightarrow> bool \<times> 'm"
  tk_unlock :: "'m \<Rightarrow> 'm"
  tk_data :: "'m \<Rightarrow> 't"
  tk_set :: "'t \<Rightarrow> 'm \<Rightarrow> 'm"

text \<open>
  \<open>tk_guarded\<close> is whether some guard exists; \<open>tk_poll_lock\<close> polls an acquisition that has not been
  polled yet (\<open>None\<close>) or is queued; \<open>tk_cancel\<close> drops a queued one.
\<close>

text \<open>What is observable of a mutex: whether a guard exists, and the value.\<close>

definition tk_view :: "('m, 't, 'q) tokio_mutex_ops \<Rightarrow> 'm \<Rightarrow> bool \<times> 't" where
  "tk_view A m = (tk_guarded A m, tk_data A m)"

locale tokio_mutex =
  fixes A :: "('m, 't, 'q) tokio_mutex_ops"
  assumes new_unguarded: "\<not> tk_guarded A (tk_new A t)"
    and new_data: "tk_data A (tk_new A t) = t"
    and granted: "tk_poll_lock A q m = (Granted, m') \<Longrightarrow>
      \<not> tk_guarded A m \<and> tk_guarded A m' \<and> tk_data A m' = tk_data A m"
    and queued: "tk_poll_lock A q m = (Queued q', m') \<Longrightarrow>
      tk_guarded A m' = tk_guarded A m \<and> tk_data A m' = tk_data A m"
    and cancel_guarded: "tk_guarded A (tk_cancel A p m) = tk_guarded A m"
    and cancel_data: "tk_data A (tk_cancel A p m) = tk_data A m"
    and try_granted: "tk_try_lock A m = (True, m') \<Longrightarrow>
      \<not> tk_guarded A m \<and> tk_guarded A m' \<and> tk_data A m' = tk_data A m"
    and try_refused: "tk_try_lock A m = (False, m') \<Longrightarrow> m' = m"
    and unlock_frees: "\<not> tk_guarded A (tk_unlock A m)"
    and unlock_data: "tk_data A (tk_unlock A m) = tk_data A m"
    and set_guarded: "tk_guarded A (tk_set A d m) = tk_guarded A m"
    and set_data: "tk_data A (tk_set A d m) = d"
begin

lemmas tokio_mutex_laws [simp] =
  new_unguarded new_data cancel_guarded cancel_data unlock_frees unlock_data set_guarded set_data

text \<open>A granted section that gives its guard back leaves the mutex unguarded with what it wrote.\<close>

lemma section_returns:
  "\<not> tk_guarded A (tk_unlock A (tk_set A d m))" "tk_data A (tk_unlock A (tk_set A d m)) = d"
  by simp_all

end

text \<open>The standard mutex, polled instead of blocked on, meets the contract.\<close>

definition std_tokio :: "('t mutex, 't, unit) tokio_mutex_ops" where
  "std_tokio = \<lparr>tk_new = mutex_new, tk_guarded = mx_locked,
     tk_poll_lock = (\<lambda>_ m. if mx_locked m then (Queued (), m) else (Granted, snd (mutex_lock m))),
     tk_cancel = (\<lambda>_ m. m),
     tk_try_lock = (\<lambda>m. if mx_locked m then (False, m) else (True, snd (mutex_lock m))),
     tk_unlock = mutex_guard_drop False, tk_data = mx_data, tk_set = (\<lambda>d m. m\<lparr>mx_data := d\<rparr>)\<rparr>"

interpretation std_tokio: tokio_mutex std_tokio
  by unfold_locales
    (auto simp: std_tokio_def mutex_new_def mutex_lock_def mutex_guard_drop_def split: if_splits)

lemma std_tokio_mutex: "tokio_mutex std_tokio"
  by (rule std_tokio.tokio_mutex_axioms)

section \<open>RwLock\<close>

record ('m, 't, 'q) tokio_rwlock_ops =
  tr_new :: "'t \<Rightarrow> 'm"
  tr_readers :: "'m \<Rightarrow> nat"
  tr_writer :: "'m \<Rightarrow> bool"
  tr_poll_read :: "'q option \<Rightarrow> 'm \<Rightarrow> 'q lock_poll \<times> 'm"
  tr_poll_write :: "'q option \<Rightarrow> 'm \<Rightarrow> 'q lock_poll \<times> 'm"
  tr_cancel :: "'q \<Rightarrow> 'm \<Rightarrow> 'm"
  tr_try_read :: "'m \<Rightarrow> bool \<times> 'm"
  tr_try_write :: "'m \<Rightarrow> bool \<times> 'm"
  tr_read_drop :: "'m \<Rightarrow> 'm"
  tr_write_drop :: "'m \<Rightarrow> 'm"
  tr_data :: "'m \<Rightarrow> 't"
  tr_set :: "'t \<Rightarrow> 'm \<Rightarrow> 'm"

text \<open>The guards that exist, and the value.\<close>

definition tr_view :: "('m, 't, 'q) tokio_rwlock_ops \<Rightarrow> 'm \<Rightarrow> nat \<times> bool \<times> 't" where
  "tr_view L m = (tr_readers L m, tr_writer L m, tr_data L m)"

locale tokio_rwlock =
  fixes L :: "('m, 't, 'q) tokio_rwlock_ops"
  assumes new_view: "tr_view L (tr_new L t) = (0, False, t)"
    and read_granted: "tr_poll_read L q m = (Granted, m') \<or> tr_try_read L m = (True, m') \<Longrightarrow>
      \<not> tr_writer L m \<and> tr_view L m' = (Suc (tr_readers L m), False, tr_data L m)"
    and write_granted: "tr_poll_write L q m = (Granted, m') \<or> tr_try_write L m = (True, m') \<Longrightarrow>
      \<not> tr_writer L m \<and> tr_readers L m = 0 \<and> tr_view L m' = (0, True, tr_data L m)"
    and read_queued: "tr_poll_read L q m = (Queued q', m') \<Longrightarrow> tr_view L m' = tr_view L m"
    and write_queued: "tr_poll_write L q m = (Queued q', m') \<Longrightarrow> tr_view L m' = tr_view L m"
    and cancel_view: "tr_view L (tr_cancel L p m) = tr_view L m"
    and read_refused: "tr_try_read L m = (False, m') \<Longrightarrow> m' = m"
    and write_refused: "tr_try_write L m = (False, m') \<Longrightarrow> m' = m"
    and read_drop_view: "tr_view L (tr_read_drop L m) = (tr_readers L m - 1, tr_writer L m, tr_data L m)"
    and write_drop_view: "tr_view L (tr_write_drop L m) = (tr_readers L m, False, tr_data L m)"
    and set_view: "tr_view L (tr_set L d m) = (tr_readers L m, tr_writer L m, d)"

definition std_tokio_rw :: "('t rwlock, 't, unit) tokio_rwlock_ops" where
  "std_tokio_rw = \<lparr>tr_new = rwlock_new, tr_readers = rw_readers, tr_writer = rw_writer,
     tr_poll_read = (\<lambda>_ l. if rwlock_read_free l then (Granted, snd (rwlock_read l)) else (Queued (), l)),
     tr_poll_write = (\<lambda>_ l. if rwlock_write_free l then (Granted, snd (rwlock_write l)) else (Queued (), l)),
     tr_cancel = (\<lambda>_ l. l),
     tr_try_read = (\<lambda>l. if rwlock_read_free l then (True, snd (rwlock_read l)) else (False, l)),
     tr_try_write = (\<lambda>l. if rwlock_write_free l then (True, snd (rwlock_write l)) else (False, l)),
     tr_read_drop = rwlock_read_drop, tr_write_drop = rwlock_write_drop False,
     tr_data = rw_data, tr_set = (\<lambda>d l. l\<lparr>rw_data := d\<rparr>)\<rparr>"

interpretation std_tokio_rw: tokio_rwlock std_tokio_rw
  by unfold_locales
    (auto simp: std_tokio_rw_def tr_view_def rwlock_new_def rwlock_read_def rwlock_write_def
      rwlock_read_free_def rwlock_write_free_def rwlock_read_drop_def rwlock_write_drop_def
      split: if_splits)

lemma std_tokio_rwlock: "tokio_rwlock std_tokio_rw"
  by (rule std_tokio_rw.tokio_rwlock_axioms)

section \<open>Notify\<close>

record 'n notify_ops =
  nt_new :: 'n
  nt_notify_one :: "'n \<Rightarrow> 'n"
  nt_poll_notified :: "'n \<Rightarrow> bool \<times> 'n"

text \<open>
  One waiter per \<^verbatim>\<open>Notify\<close>: a notification is kept as a permit, so a poll after it is ready, and a
  poll without one stays pending.
\<close>

locale notify_latch =
  fixes N :: "'n notify_ops" and permit :: "'n \<Rightarrow> bool"
  assumes new_permit: "\<not> permit (nt_new N)"
    and notify_permit: "permit (nt_notify_one N n)"
    and poll_ready: "fst (nt_poll_notified N n) = permit n"
    and poll_pending: "\<not> permit n \<Longrightarrow> \<not> permit (snd (nt_poll_notified N n))"
begin

lemmas notify_laws [simp] = new_permit notify_permit poll_ready poll_pending

end

text \<open>The latch of a blocking waiter is such a Notify.\<close>

definition latch_notify :: "BlockingConditionWaiter notify_ops" where
  "latch_notify = \<lparr>nt_new = BlockingConditionWaiter_new, nt_notify_one = waiter_signal,
     nt_poll_notified = (\<lambda>c. (is_signalled c, c))\<rparr>"

interpretation latch: notify_latch latch_notify is_signalled
  by unfold_locales (simp_all add: latch_notify_def)

end
