(* ===== verification/Async_Locks.thy ===== *)
theory Async_Locks
  imports Tokio_Sync Sync_Locks
begin

text \<open>
  The asynchronous locks of \<^verbatim>\<open>src/lock/async_*.rs\<close>. An asynchronous method returns a future: a
  state machine that is polled, and that is cancelled by dropping it. Between polls other tasks
  change the lock. The only await of these methods is the acquisition; once it is granted the
  closure runs synchronously in the same poll.
\<close>

section \<open>Futures with one acquisition\<close>

datatype 'q access = Access_start | Access_queued 'q | Access_done | Access_panicked

type_synonym ('q, 'm, 'a) polled = "'a poll outcome \<times> 'q access \<times> 'm"
type_synonym ('q, 'm, 'a) access_poll = "'q access \<Rightarrow> 'm \<Rightarrow> ('q, 'm, 'a) polled"

text \<open>
  One poll of \<^verbatim>\<open>async { let guard = acquisition.await; body(guard) }\<close>, where \<open>acquire\<close> polls the
  acquisition and \<open>body\<close> runs with the guard.
\<close>

definition poll_access ::
  "('q option \<Rightarrow> 'm \<Rightarrow> 'q lock_poll \<times> 'm) \<Rightarrow> ('m \<Rightarrow> 'a outcome \<times> 'm) \<Rightarrow> ('q, 'm, 'a) access_poll"
where
  "poll_access acquire body future m =
     (let run = (\<lambda>q. case acquire q m of
            (Queued q', m1) \<Rightarrow> (Return Poll_pending, Access_queued q', m1)
          | (Granted, m1) \<Rightarrow>
              (let (r, m2) = body m1
               in (map_outcome Poll_ready r,
                   if is_panic r then Access_panicked else Access_done, m2)))
      in case future of
           Access_start \<Rightarrow> run None
         | Access_queued q \<Rightarrow> run (Some q)
         | Access_done \<Rightarrow> (Panic ''`async fn` resumed after completion'', Access_done, m)
         | Access_panicked \<Rightarrow> (Panic ''`async fn` resumed after panicking'', Access_panicked, m))"

definition drop_access :: "('q \<Rightarrow> 'm \<Rightarrow> 'm) \<Rightarrow> 'q access \<Rightarrow> 'm \<Rightarrow> 'm" where
  "drop_access cancel future m = (case future of Access_queued q \<Rightarrow> cancel q m | _ \<Rightarrow> m)"

section \<open>async_data_lock.rs\<close>

definition tokio_section ::
  "('m, 't, 'q) tokio_mutex_ops \<Rightarrow> ('t, 'r) writer \<Rightarrow> 'm \<Rightarrow> 'r outcome \<times> 'm"
where
  "tokio_section A f m = under_guard (tk_data A) (tk_set A) (\<lambda>_. tk_unlock A) f m"

definition async_mutex_with_read ::
  "('m, 't, 'q) tokio_mutex_ops \<Rightarrow> ('t, 'r) reader \<Rightarrow> ('q, 'm, 'r) access_poll"
where
  "async_mutex_with_read A f future m =
     poll_access (tk_poll_lock A) (tokio_section A (\<lambda>d. (f d, d))) future m"

definition async_mutex_with_write ::
  "('m, 't, 'q) tokio_mutex_ops \<Rightarrow> ('t, 'r) writer \<Rightarrow> ('q, 'm, 'r) access_poll"
where
  "async_mutex_with_write A f future m = poll_access (tk_poll_lock A) (tokio_section A f) future m"

definition async_mutex_try_with_read ::
  "('m, 't, 'q) tokio_mutex_ops \<Rightarrow> ('t, 'r) reader \<Rightarrow> 'm \<Rightarrow> (TryLockError + 'r) outcome \<times> 'm"
where
  "async_mutex_try_with_read A f m = (case tk_try_lock A m of
       (True, m1) \<Rightarrow> apfst (map_outcome Inr) (tokio_section A (\<lambda>d. (f d, d)) m1)
     | (False, m1) \<Rightarrow> (Return (Inl WouldBlock), m1))"

definition async_mutex_try_with_write ::
  "('m, 't, 'q) tokio_mutex_ops \<Rightarrow> ('t, 'r) writer \<Rightarrow> 'm \<Rightarrow> (TryLockError + 'r) outcome \<times> 'm"
where
  "async_mutex_try_with_write A f m = (case tk_try_lock A m of
       (True, m1) \<Rightarrow> apfst (map_outcome Inr) (tokio_section A f m1)
     | (False, m1) \<Rightarrow> (Return (Inl WouldBlock), m1))"

definition tokio_read_section ::
  "('m, 't, 'q) tokio_rwlock_ops \<Rightarrow> ('t, 'r) reader \<Rightarrow> 'm \<Rightarrow> 'r outcome \<times> 'm"
where
  "tokio_read_section L f m =
     under_guard (tr_data L) (\<lambda>_ m. m) (\<lambda>_. tr_read_drop L) (\<lambda>d. (f d, d)) m"

definition tokio_write_section ::
  "('m, 't, 'q) tokio_rwlock_ops \<Rightarrow> ('t, 'r) writer \<Rightarrow> 'm \<Rightarrow> 'r outcome \<times> 'm"
where
  "tokio_write_section L f m = under_guard (tr_data L) (tr_set L) (\<lambda>_. tr_write_drop L) f m"

definition async_rwlock_with_read ::
  "('m, 't, 'q) tokio_rwlock_ops \<Rightarrow> ('t, 'r) reader \<Rightarrow> ('q, 'm, 'r) access_poll"
where
  "async_rwlock_with_read L f future m =
     poll_access (tr_poll_read L) (tokio_read_section L f) future m"

definition async_rwlock_with_write ::
  "('m, 't, 'q) tokio_rwlock_ops \<Rightarrow> ('t, 'r) writer \<Rightarrow> ('q, 'm, 'r) access_poll"
where
  "async_rwlock_with_write L f future m =
     poll_access (tr_poll_write L) (tokio_write_section L f) future m"

definition async_rwlock_try_with_read ::
  "('m, 't, 'q) tokio_rwlock_ops \<Rightarrow> ('t, 'r) reader \<Rightarrow> 'm \<Rightarrow> (TryLockError + 'r) outcome \<times> 'm"
where
  "async_rwlock_try_with_read L f m = (case tr_try_read L m of
       (True, m1) \<Rightarrow> apfst (map_outcome Inr) (tokio_read_section L f m1)
     | (False, m1) \<Rightarrow> (Return (Inl WouldBlock), m1))"

definition async_rwlock_try_with_write ::
  "('m, 't, 'q) tokio_rwlock_ops \<Rightarrow> ('t, 'r) writer \<Rightarrow> 'm \<Rightarrow> (TryLockError + 'r) outcome \<times> 'm"
where
  "async_rwlock_try_with_write L f m = (case tr_try_write L m of
       (True, m1) \<Rightarrow> apfst (map_outcome Inr) (tokio_write_section L f m1)
     | (False, m1) \<Rightarrow> (Return (Inl WouldBlock), m1))"

section \<open>async_lock.rs and async_read_write_lock.rs\<close>

text \<open>The guard outlives the future.\<close>

definition async_mutex_lock :: "('m, 't, 'q) tokio_mutex_ops \<Rightarrow> ('q, 'm, guard) access_poll" where
  "async_mutex_lock A future m = poll_access (tk_poll_lock A) (\<lambda>m. (Return Guard, m)) future m"

definition async_mutex_try_lock ::
  "('m, 't, 'q) tokio_mutex_ops \<Rightarrow> 'm \<Rightarrow> (TryLockError + guard) \<times> 'm"
where
  "async_mutex_try_lock A m = (case tk_try_lock A m of
       (True, m1) \<Rightarrow> (Inr Guard, m1)
     | (False, m1) \<Rightarrow> (Inl WouldBlock, m1))"

definition async_rwlock_read :: "('m, 't, 'q) tokio_rwlock_ops \<Rightarrow> ('q, 'm, guard) access_poll" where
  "async_rwlock_read L future m = poll_access (tr_poll_read L) (\<lambda>m. (Return Guard, m)) future m"

definition async_rwlock_write :: "('m, 't, 'q) tokio_rwlock_ops \<Rightarrow> ('q, 'm, guard) access_poll" where
  "async_rwlock_write L future m = poll_access (tr_poll_write L) (\<lambda>m. (Return Guard, m)) future m"

definition async_rwlock_try_read ::
  "('m, 't, 'q) tokio_rwlock_ops \<Rightarrow> 'm \<Rightarrow> (TryLockError + guard) \<times> 'm"
where
  "async_rwlock_try_read L m = (case tr_try_read L m of
       (True, m1) \<Rightarrow> (Inr Guard, m1)
     | (False, m1) \<Rightarrow> (Inl WouldBlock, m1))"

definition async_rwlock_try_write ::
  "('m, 't, 'q) tokio_rwlock_ops \<Rightarrow> 'm \<Rightarrow> (TryLockError + guard) \<times> 'm"
where
  "async_rwlock_try_write L m = (case tr_try_write L m of
       (True, m1) \<Rightarrow> (Inr Guard, m1)
     | (False, m1) \<Rightarrow> (Inl WouldBlock, m1))"

section \<open>async_read_lock.rs and async_write_lock.rs\<close>

definition AsyncReadLock_lock :: "('q, 'm, guard) access_poll \<Rightarrow> ('q, 'm, guard) access_poll" where
  "AsyncReadLock_lock lock_read future m = lock_read future m"

definition AsyncReadLock_try_lock ::
  "('m \<Rightarrow> (TryLockError + guard) \<times> 'm) \<Rightarrow> 'm \<Rightarrow> (TryLockError + guard) \<times> 'm"
where
  "AsyncReadLock_try_lock lock_try_read m = lock_try_read m"

definition AsyncWriteLock_lock :: "('q, 'm, guard) access_poll \<Rightarrow> ('q, 'm, guard) access_poll" where
  "AsyncWriteLock_lock lock_write future m = lock_write future m"

definition AsyncWriteLock_try_lock ::
  "('m \<Rightarrow> (TryLockError + guard) \<times> 'm) \<Rightarrow> 'm \<Rightarrow> (TryLockError + guard) \<times> 'm"
where
  "AsyncWriteLock_try_lock lock_try_write m = lock_try_write m"

section \<open>References and Arc\<close>

text \<open>The methods of \<^verbatim>\<open>&L\<close> and \<^verbatim>\<open>Arc<L>\<close> return the future of the lock they point to.\<close>

definition Ref_AsyncDataLock_with_read ::
  "(('t, 'r) reader \<Rightarrow> ('q, 'm, 'r) access_poll) \<Rightarrow> ('t, 'r) reader \<Rightarrow> ('q, 'm, 'r) access_poll"
where
  "Ref_AsyncDataLock_with_read L_with_read f future m = L_with_read f future m"

definition Ref_AsyncDataLock_with_write ::
  "(('t, 'r) writer \<Rightarrow> ('q, 'm, 'r) access_poll) \<Rightarrow> ('t, 'r) writer \<Rightarrow> ('q, 'm, 'r) access_poll"
where
  "Ref_AsyncDataLock_with_write L_with_write f future m = L_with_write f future m"

definition Ref_AsyncDataLock_try_with_read ::
  "(('t, 'r) reader \<Rightarrow> 'm \<Rightarrow> (TryLockError + 'r) outcome \<times> 'm) \<Rightarrow> ('t, 'r) reader \<Rightarrow> 'm \<Rightarrow> (TryLockError + 'r) outcome \<times> 'm"
where
  "Ref_AsyncDataLock_try_with_read L_try_with_read f m = L_try_with_read f m"

definition Ref_AsyncDataLock_try_with_write ::
  "(('t, 'r) writer \<Rightarrow> 'm \<Rightarrow> (TryLockError + 'r) outcome \<times> 'm) \<Rightarrow> ('t, 'r) writer \<Rightarrow> 'm \<Rightarrow> (TryLockError + 'r) outcome \<times> 'm"
where
  "Ref_AsyncDataLock_try_with_write L_try_with_write f m = L_try_with_write f m"

definition Ref_AsyncLock_lock :: "('q, 'm, guard) access_poll \<Rightarrow> ('q, 'm, guard) access_poll" where
  "Ref_AsyncLock_lock L_lock future m = L_lock future m"

definition Ref_AsyncLock_try_lock ::
  "('m \<Rightarrow> (TryLockError + guard) \<times> 'm) \<Rightarrow> 'm \<Rightarrow> (TryLockError + guard) \<times> 'm"
where
  "Ref_AsyncLock_try_lock L_try_lock m = L_try_lock m"

definition Ref_AsyncRW_read :: "('q, 'm, guard) access_poll \<Rightarrow> ('q, 'm, guard) access_poll" where
  "Ref_AsyncRW_read L_read future m = L_read future m"

definition Ref_AsyncRW_write :: "('q, 'm, guard) access_poll \<Rightarrow> ('q, 'm, guard) access_poll" where
  "Ref_AsyncRW_write L_write future m = L_write future m"

definition Ref_AsyncRW_try_read ::
  "('m \<Rightarrow> (TryLockError + guard) \<times> 'm) \<Rightarrow> 'm \<Rightarrow> (TryLockError + guard) \<times> 'm"
where
  "Ref_AsyncRW_try_read L_try_read m = L_try_read m"

definition Ref_AsyncRW_try_write ::
  "('m \<Rightarrow> (TryLockError + guard) \<times> 'm) \<Rightarrow> 'm \<Rightarrow> (TryLockError + guard) \<times> 'm"
where
  "Ref_AsyncRW_try_write L_try_write m = L_try_write m"

definition Arc_AsyncDataLock_with_read ::
  "(('t, 'r) reader \<Rightarrow> ('q, 'm, 'r) access_poll) \<Rightarrow> ('t, 'r) reader \<Rightarrow> ('q, 'm, 'r) access_poll"
where
  "Arc_AsyncDataLock_with_read L_with_read f future m = L_with_read f future m"

definition Arc_AsyncDataLock_with_write ::
  "(('t, 'r) writer \<Rightarrow> ('q, 'm, 'r) access_poll) \<Rightarrow> ('t, 'r) writer \<Rightarrow> ('q, 'm, 'r) access_poll"
where
  "Arc_AsyncDataLock_with_write L_with_write f future m = L_with_write f future m"

definition Arc_AsyncDataLock_try_with_read ::
  "(('t, 'r) reader \<Rightarrow> 'm \<Rightarrow> (TryLockError + 'r) outcome \<times> 'm) \<Rightarrow> ('t, 'r) reader \<Rightarrow> 'm \<Rightarrow> (TryLockError + 'r) outcome \<times> 'm"
where
  "Arc_AsyncDataLock_try_with_read L_try_with_read f m = L_try_with_read f m"

definition Arc_AsyncDataLock_try_with_write ::
  "(('t, 'r) writer \<Rightarrow> 'm \<Rightarrow> (TryLockError + 'r) outcome \<times> 'm) \<Rightarrow> ('t, 'r) writer \<Rightarrow> 'm \<Rightarrow> (TryLockError + 'r) outcome \<times> 'm"
where
  "Arc_AsyncDataLock_try_with_write L_try_with_write f m = L_try_with_write f m"

definition Arc_AsyncLock_lock :: "('q, 'm, guard) access_poll \<Rightarrow> ('q, 'm, guard) access_poll" where
  "Arc_AsyncLock_lock L_lock future m = L_lock future m"

definition Arc_AsyncLock_try_lock ::
  "('m \<Rightarrow> (TryLockError + guard) \<times> 'm) \<Rightarrow> 'm \<Rightarrow> (TryLockError + guard) \<times> 'm"
where
  "Arc_AsyncLock_try_lock L_try_lock m = L_try_lock m"

definition Arc_AsyncRW_read :: "('q, 'm, guard) access_poll \<Rightarrow> ('q, 'm, guard) access_poll" where
  "Arc_AsyncRW_read L_read future m = L_read future m"

definition Arc_AsyncRW_write :: "('q, 'm, guard) access_poll \<Rightarrow> ('q, 'm, guard) access_poll" where
  "Arc_AsyncRW_write L_write future m = L_write future m"

definition Arc_AsyncRW_try_read ::
  "('m \<Rightarrow> (TryLockError + guard) \<times> 'm) \<Rightarrow> 'm \<Rightarrow> (TryLockError + guard) \<times> 'm"
where
  "Arc_AsyncRW_try_read L_try_read m = L_try_read m"

definition Arc_AsyncRW_try_write ::
  "('m \<Rightarrow> (TryLockError + guard) \<times> 'm) \<Rightarrow> 'm \<Rightarrow> (TryLockError + guard) \<times> 'm"
where
  "Arc_AsyncRW_try_write L_try_write m = L_try_write m"

lemmas async_forwarder_defs =
  Ref_AsyncDataLock_with_read_def
  Ref_AsyncDataLock_with_write_def
  Ref_AsyncDataLock_try_with_read_def
  Ref_AsyncDataLock_try_with_write_def
  Ref_AsyncLock_lock_def
  Ref_AsyncLock_try_lock_def
  Ref_AsyncRW_read_def
  Ref_AsyncRW_write_def
  Ref_AsyncRW_try_read_def
  Ref_AsyncRW_try_write_def
  Arc_AsyncDataLock_with_read_def
  Arc_AsyncDataLock_with_write_def
  Arc_AsyncDataLock_try_with_read_def
  Arc_AsyncDataLock_try_with_write_def
  Arc_AsyncLock_lock_def
  Arc_AsyncLock_try_lock_def
  Arc_AsyncRW_read_def
  Arc_AsyncRW_write_def
  Arc_AsyncRW_try_read_def
  Arc_AsyncRW_try_write_def

end
