(* ===== verification/Async_Lock_Spec.thy ===== *)
theory Async_Lock_Spec
  imports Async_Locks
begin

text \<open>
  What the asynchronous locks guarantee about polling and cancellation.
\<close>

section \<open>One poll\<close>

lemma ready_not_pending [simp]:
  "map_outcome Poll_ready r \<noteq> Return Poll_pending" "Return Poll_pending \<noteq> map_outcome Poll_ready r"
  by (cases r; simp)+

text \<open>
  The contract of an acquisition future, for the shared and the exclusive acquisitions of both
  primitives: \<open>view\<close> is what is observable of the lock (guards and value), \<open>entered\<close> relates the
  lock before and after a grant.
\<close>

locale acquisition =
  fixes acquire :: "'q option \<Rightarrow> 'm \<Rightarrow> 'q lock_poll \<times> 'm" and cancel :: "'q \<Rightarrow> 'm \<Rightarrow> 'm"
    and view :: "'m \<Rightarrow> 'v" and entered :: "'m \<Rightarrow> 'm \<Rightarrow> bool"
  assumes grant: "acquire q m = (Granted, m') \<Longrightarrow> entered m m'"
    and queue: "acquire q m = (Queued q', m') \<Longrightarrow> view m' = view m"
    and leave: "view (cancel p m) = view m"
begin

text \<open>
  A poll that stays pending has not entered the lock and is not observable; one that completes has
  entered and run the body once; a finished future does nothing but panic.
\<close>

lemma poll_cases:
  assumes "poll_access acquire body future m = (r, future', m')"
  shows "(\<exists>q. r = Return Poll_pending \<and> future' = Access_queued q \<and> view m' = view m) \<or>
    (\<exists>m1 r1. entered m m1 \<and> body m1 = (r1, m') \<and> r = map_outcome Poll_ready r1 \<and>
       future' = (if is_panic r1 then Access_panicked else Access_done)) \<or>
    (future \<in> {Access_done, Access_panicked} \<and> is_panic r \<and> future' = future \<and> m' = m)"
proof (cases "future \<in> {Access_done, Access_panicked}")
  case True
  then show ?thesis using assms by (auto simp: poll_access_def)
next
  case False
  then obtain q where run: "(case acquire q m of
            (Queued q', m1) \<Rightarrow> (Return Poll_pending, Access_queued q', m1)
          | (Granted, m1) \<Rightarrow>
              (let (r, m2) = body m1
               in (map_outcome Poll_ready r,
                   if is_panic r then Access_panicked else Access_done, m2))) = (r, future', m')"
    using assms by (cases future) (auto simp: poll_access_def)
  obtain l m1 where acq: "acquire q m = (l, m1)" by fastforce
  show ?thesis
  proof (cases l)
    case Granted
    obtain r1 m2 where body: "body m1 = (r1, m2)" by fastforce
    have "entered m m1" using grant acq Granted by simp
    moreover have "r = map_outcome Poll_ready r1" "m2 = m'"
      "future' = (if is_panic r1 then Access_panicked else Access_done)"
      using run acq Granted body by simp_all
    ultimately show ?thesis using body by blast
  next
    case (Queued q')
    then show ?thesis using run acq queue [of q m q' m1] by auto
  qed
qed

lemma drop_view: "view (drop_access cancel future m) = view m"
  using leave by (cases future) (simp_all add: drop_access_def)

end

text \<open>
  A future that is polled some times, with other tasks changing the lock in between, and is then
  dropped if it is still pending. The result is that of the first poll that does not stay pending.
\<close>

fun drive ::
  "('q, 'm, 'a) access_poll \<Rightarrow> ('q \<Rightarrow> 'm \<Rightarrow> 'm) \<Rightarrow> ('m \<Rightarrow> 'm) list \<Rightarrow> 'q access \<Rightarrow> 'm \<Rightarrow>
   'a outcome option \<times> 'm"
where
  "drive poll cancel [] future m = (None, drop_access cancel future m)"
| "drive poll cancel (others # rest) future m = (case poll future (others m) of
     (Return Poll_pending, future', m') \<Rightarrow> drive poll cancel rest future' m'
   | (Return (Poll_ready x), future', m') \<Rightarrow> (Some (Return x), m')
   | (Panic e, future', m') \<Rightarrow> (Some (Panic e), m')
   | (Blocked, future', m') \<Rightarrow> (Some Blocked, m'))"

text \<open>The same sequence of changes by the other tasks alone.\<close>

fun others_only :: "('m \<Rightarrow> 'm) list \<Rightarrow> 'm \<Rightarrow> 'm" where
  "others_only [] m = m"
| "others_only (g # gs) m = others_only gs (g m)"

text \<open>A change by another task that depends on what is observable only.\<close>

definition observational :: "('m, 't, 'q) tokio_mutex_ops \<Rightarrow> ('m \<Rightarrow> 'm) \<Rightarrow> bool" where
  "observational A g \<longleftrightarrow> (\<forall>m n. tk_view A m = tk_view A n \<longrightarrow> tk_view A (g m) = tk_view A (g n))"

section \<open>Instances\<close>

sublocale tokio_mutex \<subseteq> lock: acquisition "tk_poll_lock A" "tk_cancel A"
  "tk_view A"
  "\<lambda>m m'. \<not> tk_guarded A m \<and> tk_guarded A m' \<and> tk_data A m' = tk_data A m"
  by unfold_locales (auto dest: granted queued simp: tk_view_def)

sublocale tokio_rwlock \<subseteq> shared: acquisition "tr_poll_read L" "tr_cancel L" "tr_view L"
  "\<lambda>m m'. \<not> tr_writer L m \<and> tr_view L m' = (Suc (tr_readers L m), False, tr_data L m)"
  by unfold_locales (auto dest: read_granted [OF disjI1] read_queued simp: cancel_view)

sublocale tokio_rwlock \<subseteq> exclusive: acquisition "tr_poll_write L" "tr_cancel L" "tr_view L"
  "\<lambda>m m'. \<not> tr_writer L m \<and> tr_readers L m = 0 \<and> tr_view L m' = (0, True, tr_data L m)"
  by unfold_locales (auto dest: write_granted [OF disjI1] write_queued simp: cancel_view)

context tokio_mutex
begin

lemma section_result:
  assumes "tokio_section A f m = (r, m')"
  shows "f (tk_data A m) = (r, tk_data A m')" and "r \<noteq> Blocked \<Longrightarrow> \<not> tk_guarded A m'"
  using assms by (auto simp: tokio_section_def under_guard_def Let_def split: prod.splits if_splits)

text \<open>One poll of \<^verbatim>\<open>with_write\<close>.\<close>

lemma with_write_poll:
  assumes "async_mutex_with_write A f future m = (r, future', m')"
    and "future \<notin> {Access_done, Access_panicked}"
  shows "(\<exists>q. r = Return Poll_pending \<and> future' = Access_queued q \<and>
      tk_guarded A m' = tk_guarded A m \<and> tk_data A m' = tk_data A m) \<or>
    (\<exists>r1. r = map_outcome Poll_ready r1 \<and> \<not> tk_guarded A m \<and> f (tk_data A m) = (r1, tk_data A m') \<and>
      future' \<in> {Access_done, Access_panicked} \<and> (r1 \<noteq> Blocked \<longrightarrow> \<not> tk_guarded A m'))"
proof -
  have "poll_access (tk_poll_lock A) (tokio_section A f) future m = (r, future', m')"
    using assms(1) by (simp add: async_mutex_with_write_def)
  from lock.poll_cases [OF this] show ?thesis
  proof (elim disjE exE conjE)
    fix m1 r1
    assume m1: "\<not> tk_guarded A m" "tk_data A m1 = tk_data A m"
      and body: "tokio_section A f m1 = (r1, m')" and r: "r = map_outcome Poll_ready r1"
      and future': "future' = (if is_panic r1 then Access_panicked else Access_done)"
    show ?thesis using section_result [OF body] m1 r future' by auto
  qed (use assms(2) in \<open>auto simp: tk_view_def\<close>)
qed

text \<open>
  A cancelled write is as if it had never been: when the other tasks' changes depend only on what is
  observable, the lock shows what they alone would have made of it.
\<close>

lemma cancelled_write:
  assumes "\<forall>g \<in> set gs. observational A g" and "tk_view A m = tk_view A n"
    and "drive (async_mutex_with_write A f) (tk_cancel A) gs future m = (None, m')"
    and "future \<notin> {Access_done, Access_panicked}"
  shows "tk_view A m' = tk_view A (others_only gs n)"
  using assms
proof (induction gs arbitrary: future m n)
  case Nil
  then show ?case using lock.drop_view [of future m] by simp
next
  case (Cons g gs)
  obtain r future' m1 where poll: "async_mutex_with_write A f future (g m) = (r, future', m1)"
    by (cases "async_mutex_with_write A f future (g m)")
  have pending: "r = Return Poll_pending"
    using Cons.prems(3) poll by (auto split: outcome.splits poll.splits)
  then obtain q where q: "future' = Access_queued q" and same: "tk_view A m1 = tk_view A (g m)"
    using with_write_poll [OF poll Cons.prems(4)] by (auto simp: tk_view_def)
  have obs: "observational A g" "\<forall>g \<in> set gs. observational A g"
    using Cons.prems(1) by simp_all
  have "tk_view A m1 = tk_view A (g n)"
    using same obs(1) Cons.prems(2) unfolding observational_def by metis
  moreover have "drive (async_mutex_with_write A f) (tk_cancel A) gs future' m1 = (None, m')"
    using Cons.prems(3) poll pending by simp
  moreover have "future' \<notin> {Access_done, Access_panicked}" using q by simp
  ultimately have "tk_view A m' = tk_view A (others_only gs (g n))"
    by (rule Cons.IH [OF obs(2)])
  then show ?case by simp
qed

end

context tokio_rwlock
begin

lemma view_simps:
  "tr_view L m = (a, b, d) \<Longrightarrow> tr_readers L m = a \<and> tr_writer L m = b \<and> tr_data L m = d"
  by (simp add: tr_view_def)

lemma write_section_result:
  assumes "tokio_write_section L f m = (r, m')"
  shows "f (tr_data L m) = (r, tr_data L m')"
    and "r \<noteq> Blocked \<Longrightarrow> tr_readers L m' = tr_readers L m \<and> \<not> tr_writer L m'"
proof -
  obtain d where f: "f (tr_data L m) = (r, d)"
    and m': "m' = (if r = Blocked then tr_set L d m else tr_write_drop L (tr_set L d m))"
    using assms by (auto simp: tokio_write_section_def under_guard_def Let_def split: prod.splits if_splits)
  note s = view_simps [OF set_view [of d m]] and w = view_simps [OF write_drop_view [of "tr_set L d m"]]
  show "f (tr_data L m) = (r, tr_data L m')" using f s w by (simp add: m')
  show "tr_readers L m' = tr_readers L m \<and> \<not> tr_writer L m'" if "r \<noteq> Blocked"
    using that s w by (simp add: m')
qed

lemma read_section_result:
  assumes "tokio_read_section L f m = (r, m')"
  shows "f (tr_data L m) = r" and "tr_data L m' = tr_data L m"
    and "r \<noteq> Blocked \<Longrightarrow> tr_readers L m' = tr_readers L m - 1 \<and> tr_writer L m' = tr_writer L m"
  using assms view_simps [OF read_drop_view [of m]]
  by (auto simp: tokio_read_section_def under_guard_def split: if_splits)

lemma rw_write_poll:
  assumes "async_rwlock_with_write L f future m = (r, future', m')"
    and "future \<notin> {Access_done, Access_panicked}"
  shows "(r = Return Poll_pending \<and> tr_view L m' = tr_view L m) \<or>
    (\<exists>r1. r = map_outcome Poll_ready r1 \<and> tr_readers L m = 0 \<and> \<not> tr_writer L m \<and>
       f (tr_data L m) = (r1, tr_data L m') \<and>
       (r1 \<noteq> Blocked \<longrightarrow> tr_readers L m' = 0 \<and> \<not> tr_writer L m'))"
proof -
  have "poll_access (tr_poll_write L) (tokio_write_section L f) future m = (r, future', m')"
    using assms(1) by (simp add: async_rwlock_with_write_def)
  from exclusive.poll_cases [OF this] show ?thesis
  proof (elim disjE exE conjE)
    fix m1 r1
    assume m: "\<not> tr_writer L m" "tr_readers L m = 0" "tr_view L m1 = (0, True, tr_data L m)"
      and body: "tokio_write_section L f m1 = (r1, m')" and r: "r = map_outcome Poll_ready r1"
    show ?thesis using write_section_result [OF body] view_simps [OF m(3)] m r by auto
  qed (use assms(2) in auto)
qed

lemma rw_read_poll:
  assumes "async_rwlock_with_read L f future m = (r, future', m')"
    and "future \<notin> {Access_done, Access_panicked}"
  shows "(r = Return Poll_pending \<and> tr_view L m' = tr_view L m) \<or>
    (\<exists>r1. r = map_outcome Poll_ready r1 \<and> \<not> tr_writer L m \<and> f (tr_data L m) = r1 \<and>
       (r1 \<noteq> Blocked \<longrightarrow> tr_view L m' = tr_view L m))"
proof -
  have "poll_access (tr_poll_read L) (tokio_read_section L f) future m = (r, future', m')"
    using assms(1) by (simp add: async_rwlock_with_read_def)
  from shared.poll_cases [OF this] show ?thesis
  proof (elim disjE exE conjE)
    fix m1 r1
    assume m: "\<not> tr_writer L m" "tr_view L m1 = (Suc (tr_readers L m), False, tr_data L m)"
      and body: "tokio_read_section L f m1 = (r1, m')" and r: "r = map_outcome Poll_ready r1"
    show ?thesis using read_section_result [OF body] view_simps [OF m(2)] m(1) r by (auto simp: tr_view_def)
  qed (use assms(2) in auto)
qed

end

section \<open>Guarantees\<close>

text \<open>C39: a poll of \<^verbatim>\<open>AsyncDataLock::with_write\<close> on a Tokio \<^verbatim>\<open>Mutex\<close> is all or nothing. Either it
  stays pending, and the value and the guard are as before and the closure has not run; or no guard
  existed, the closure ran exactly once on the current value, what it wrote is stored, also when it
  panicked, and the guard is gone again.\<close>

theorem async_mutex_write_atomic:
  assumes "tokio_mutex A" and "async_mutex_with_write A f future m = (r, future', m')"
    and "future \<notin> {Access_done, Access_panicked}"
  shows "(\<exists>q. r = Return Poll_pending \<and> future' = Access_queued q \<and>
      tk_guarded A m' = tk_guarded A m \<and> tk_data A m' = tk_data A m) \<or>
    (\<exists>r1. r = map_outcome Poll_ready r1 \<and> \<not> tk_guarded A m \<and> f (tk_data A m) = (r1, tk_data A m') \<and>
      future' \<in> {Access_done, Access_panicked} \<and> (r1 \<noteq> Blocked \<longrightarrow> \<not> tk_guarded A m'))"
  using tokio_mutex.with_write_poll [OF assms] .

theorem async_mutex_write_atomic_witness:
  "\<exists>future' m'. async_mutex_with_write std_tokio (\<lambda>d. (Return d, d + 1)) Access_start (mutex_new (4 :: nat)) =
     (Return (Poll_ready 4), future', m') \<and> mx_data m' = 5 \<and> \<not> mx_locked m'"
proof -
  obtain r future' m' where run: "async_mutex_with_write std_tokio (\<lambda>d. (Return d, d + 1)) Access_start
      (mutex_new (4 :: nat)) = (r, future', m')"
    by (cases "async_mutex_with_write std_tokio (\<lambda>d. (Return d, d + 1)) Access_start (mutex_new (4 :: nat))")
  have "r = Return (Poll_ready 4)"
    using run by (simp add: async_mutex_with_write_def poll_access_def std_tokio_def mutex_new_def
        mutex_lock_def tokio_section_def under_guard_def split: prod.splits)
  then show ?thesis
    using run async_mutex_write_atomic [OF std_tokio_mutex run]
    by (auto simp: std_tokio_def mutex_new_def)
qed



text \<open>On a Tokio \<^verbatim>\<open>RwLock\<close> a writing poll runs its closure only when no guard of either kind
  exists, a reading poll only when no writer exists, and both leave the guards as they found them
  once the closure is done; a reader leaves the value alone as well.\<close>

theorem async_rwlock_poll:
  assumes "tokio_rwlock L" and "future \<notin> {Access_done, Access_panicked}"
    and "async_rwlock_with_write L f future m = (r, future', m')"
    and "async_rwlock_with_read L h future m = (s, future'', m'')"
  shows "((r = Return Poll_pending \<and> tr_view L m' = tr_view L m) \<or>
      (\<exists>r1. r = map_outcome Poll_ready r1 \<and> tr_readers L m = 0 \<and> \<not> tr_writer L m \<and>
         f (tr_data L m) = (r1, tr_data L m') \<and>
         (r1 \<noteq> Blocked \<longrightarrow> tr_readers L m' = 0 \<and> \<not> tr_writer L m'))) \<and>
    ((s = Return Poll_pending \<and> tr_view L m'' = tr_view L m) \<or>
      (\<exists>s1. s = map_outcome Poll_ready s1 \<and> \<not> tr_writer L m \<and> h (tr_data L m) = s1 \<and>
         (s1 \<noteq> Blocked \<longrightarrow> tr_view L m'' = tr_view L m)))"
  using tokio_rwlock.rw_write_poll [OF assms(1,3,2)] tokio_rwlock.rw_read_poll [OF assms(1,4,2)] by blast

theorem async_rwlock_poll_witness:
  "tr_view std_tokio_rw (snd (snd (async_rwlock_with_read std_tokio_rw Return Access_start (rwlock_new (4 :: nat))))) =
     tr_view std_tokio_rw (rwlock_new 4)"
proof -
  obtain s future'' m'' where rd: "async_rwlock_with_read std_tokio_rw Return Access_start
      (rwlock_new (4 :: nat)) = (s, future'', m'')"
    by (cases "async_rwlock_with_read std_tokio_rw Return Access_start (rwlock_new (4 :: nat))")
  obtain r future' m' where wr: "async_rwlock_with_write std_tokio_rw (\<lambda>d. (Return d, d)) Access_start
      (rwlock_new (4 :: nat)) = (r, future', m')"
    by (cases "async_rwlock_with_write std_tokio_rw (\<lambda>d. (Return d, d)) Access_start (rwlock_new (4 :: nat))")
  show ?thesis
    using async_rwlock_poll [OF std_tokio_rwlock _ wr rd] rd by auto
qed

end
