(* ===== verification/Tokio_Monitor.thy ===== *)
theory Tokio_Monitor
  imports Tokio_Sync Monitor_World Wait_Results
begin

text \<open>
  \<^verbatim>\<open>src/monitor/tokio_monitor.rs\<close> with \<^verbatim>\<open>internal/tokio_condition_waiter.rs\<close> and
  \<^verbatim>\<open>internal/tokio_condition_waiter_registration.rs\<close>, up to the untimed waits.

  An asynchronous method is a future: a state machine whose program counter names the statement it
  will execute next. A step executes one statement; it goes on, or is pending at an await, or
  finishes. Other tasks, on other worker threads, may make steps between any two steps. The
  \<^verbatim>\<open>tokio\<close> primitives and the \<^verbatim>\<open>qubit_clock\<close> Timer are the parameter \<open>P\<close>.
\<close>

section \<open>Platform, monitor and waiters\<close>

record ('m, 't, 'q, 'n, 'k, 'i, 'f, 'e) tokio_platform =
  tp_mutex :: "('m, 't, 'q) tokio_mutex_ops"
  tp_notify :: "'n notify_ops"
  tp_timer :: "('k, 'i, 'f, 'e) timer_ops"

record 'n TokioConditionWaiter =
  tcw_signal :: 'n

definition TokioConditionWaiter_new :: "'n notify_ops \<Rightarrow> 'n TokioConditionWaiter" where
  "TokioConditionWaiter_new N = \<lparr>tcw_signal = nt_new N\<rparr>"

text \<open>
  The fields of the struct, and the waiters allocated behind \<^verbatim>\<open>Arc\<close>: the registry holds their
  addresses. The Timer is its state \<open>tok_timer\<close>, its operations are those of the platform.
\<close>

record ('m, 'n, 'k) TokioMonitor =
  tok_state :: 'm
  tok_waiters :: "nat WaiterRegistry mutex"
  tok_timer :: 'k
  tok_cells :: "'n TokioConditionWaiter list"

definition tokio_with_timer ::
  "('m, 't, 'q, 'n, 'k, 'i, 'f, 'e) tokio_platform \<Rightarrow> 't \<Rightarrow> 'k \<Rightarrow> ('m, 'n, 'k) TokioMonitor"
where
  "tokio_with_timer P state timer =
     \<lparr>tok_state = tk_new (tp_mutex P) state, tok_waiters = mutex_new WaiterRegistry_new,
      tok_timer = timer, tok_cells = []\<rparr>"

text \<open>\<open>try_current_timer\<close> is the result of \<^verbatim>\<open>TokioTimer::try_current()\<close>.\<close>

definition tokio_try_current ::
  "('m, 't, 'q, 'n, 'k, 'i, 'f, 'e) tokio_platform \<Rightarrow> 'x + 'k \<Rightarrow> 't \<Rightarrow> 'x + ('m, 'n, 'k) TokioMonitor"
where
  "tokio_try_current P try_current_timer state = (case try_current_timer of
       Inl error \<Rightarrow> Inl error
     | Inr timer \<Rightarrow> Inr (tokio_with_timer P state timer))"

definition tokio_current ::
  "('m, 't, 'q, 'n, 'k, 'i, 'f, 'e) tokio_platform \<Rightarrow> ('x \<Rightarrow> string) \<Rightarrow> 'x + 'k \<Rightarrow> 't \<Rightarrow>
   ('m, 'n, 'k) TokioMonitor outcome"
where
  "tokio_current P display try_current_timer state =
     (case tokio_try_current P try_current_timer state of
        Inl error \<Rightarrow> Panic (''cannot create Tokio monitor: '' @ display error)
      | Inr monitor \<Rightarrow> Return monitor)"

definition tokio_timer :: "('m, 'n, 'k) TokioMonitor \<Rightarrow> 'k" where
  "tokio_timer w = tok_timer w"

section \<open>Statements\<close>

text \<open>The state mutex: one poll of \<^verbatim>\<open>self.state.lock()\<close>, the guard's dereferences and destructor.\<close>

definition tokio_poll_lock ::
  "('m, 't, 'q, 'n, 'k, 'i, 'f, 'e) tokio_platform \<Rightarrow> 'q option \<Rightarrow> ('m, 'n, 'k) TokioMonitor \<Rightarrow>
   'q lock_poll \<times> ('m, 'n, 'k) TokioMonitor"
where
  "tokio_poll_lock P q w =
     (let (l, m) = tk_poll_lock (tp_mutex P) q (tok_state w) in (l, w\<lparr>tok_state := m\<rparr>))"

definition tokio_cancel_lock ::
  "('m, 't, 'q, 'n, 'k, 'i, 'f, 'e) tokio_platform \<Rightarrow> 'q option \<Rightarrow> ('m, 'n, 'k) TokioMonitor \<Rightarrow>
   ('m, 'n, 'k) TokioMonitor"
where
  "tokio_cancel_lock P q w = (case q of
       None \<Rightarrow> w
     | Some p \<Rightarrow> w\<lparr>tok_state := tk_cancel (tp_mutex P) p (tok_state w)\<rparr>)"

definition tokio_deref ::
  "('m, 't, 'q, 'n, 'k, 'i, 'f, 'e) tokio_platform \<Rightarrow> ('m, 'n, 'k) TokioMonitor \<Rightarrow> 't"
where
  "tokio_deref P w = tk_data (tp_mutex P) (tok_state w)"

definition tokio_deref_mut ::
  "('m, 't, 'q, 'n, 'k, 'i, 'f, 'e) tokio_platform \<Rightarrow> 't \<Rightarrow> ('m, 'n, 'k) TokioMonitor \<Rightarrow>
   ('m, 'n, 'k) TokioMonitor"
where
  "tokio_deref_mut P d w = w\<lparr>tok_state := tk_set (tp_mutex P) d (tok_state w)\<rparr>"

definition tokio_drop_guard ::
  "('m, 't, 'q, 'n, 'k, 'i, 'f, 'e) tokio_platform \<Rightarrow> ('m, 'n, 'k) TokioMonitor \<Rightarrow>
   ('m, 'n, 'k) TokioMonitor"
where
  "tokio_drop_guard P w = w\<lparr>tok_state := tk_unlock (tp_mutex P) (tok_state w)\<rparr>"

record TokioConditionWaiterRegistration =
  tcr_waiter_id :: u64
  tcr_waiter :: nat

definition TokioConditionWaiterRegistration_new :: "u64 \<Rightarrow> nat \<Rightarrow> TokioConditionWaiterRegistration" where
  [simp]: "TokioConditionWaiterRegistration_new i a = \<lparr>tcr_waiter_id = i, tcr_waiter = a\<rparr>"

definition tokio_register_waiter ::
  "('m, 't, 'q, 'n, 'k, 'i, 'f, 'e) tokio_platform \<Rightarrow> ('m, 'n, 'k) TokioMonitor \<Rightarrow>
   TokioConditionWaiterRegistration outcome \<times> ('m, 'n, 'k) TokioMonitor"
where
  "tokio_register_waiter P w =
     (let a = length (tok_cells w);
          w1 = w\<lparr>tok_cells := tok_cells w @ [TokioConditionWaiter_new (tp_notify P)]\<rparr>;
          (r, m) = recovered_section (registry_register a) (tok_waiters w1)
      in (map_outcome (\<lambda>i. TokioConditionWaiterRegistration_new i a) r, w1\<lparr>tok_waiters := m\<rparr>))"

text \<open>The destructor of a registration.\<close>

definition tokio_registration_drop ::
  "TokioConditionWaiterRegistration \<Rightarrow> ('m, 'n, 'k) TokioMonitor \<Rightarrow> ('m, 'n, 'k) TokioMonitor"
where
  "tokio_registration_drop g w =
     (let (_, m) = recovered_call (registry_unregister (tcr_waiter_id g)) (tok_waiters w)
      in w\<lparr>tok_waiters := m\<rparr>)"

text \<open>\<^verbatim>\<open>waiter.signal().notify_one()\<close> and one poll of \<^verbatim>\<open>waiter.signal().notified()\<close>.\<close>

definition tokio_signal ::
  "('m, 't, 'q, 'n, 'k, 'i, 'f, 'e) tokio_platform \<Rightarrow> nat \<Rightarrow> ('m, 'n, 'k) TokioMonitor \<Rightarrow>
   ('m, 'n, 'k) TokioMonitor"
where
  "tokio_signal P a w = w\<lparr>tok_cells := (tok_cells w)
     [a := \<lparr>tcw_signal = nt_notify_one (tp_notify P) (tcw_signal (tok_cells w ! a))\<rparr>]\<rparr>"

definition tokio_poll_notified ::
  "('m, 't, 'q, 'n, 'k, 'i, 'f, 'e) tokio_platform \<Rightarrow> nat \<Rightarrow> ('m, 'n, 'k) TokioMonitor \<Rightarrow>
   bool \<times> ('m, 'n, 'k) TokioMonitor"
where
  "tokio_poll_notified P a w =
     (let (ready, n) = nt_poll_notified (tp_notify P) (tcw_signal (tok_cells w ! a))
      in (ready, w\<lparr>tok_cells := (tok_cells w)[a := \<lparr>tcw_signal = n\<rparr>]\<rparr>))"

section \<open>Steps of a future\<close>

datatype ('l, 'a) stepped = Go 'l | Pend 'l | Fin "'a outcome"

text \<open>A future that awaits another one: its steps are those of the inner future until that finishes.\<close>

fun await_step ::
  "('l \<Rightarrow> 'h) \<Rightarrow> ('a outcome \<Rightarrow> ('h, 'b) stepped) \<Rightarrow> ('l, 'a) stepped \<Rightarrow> ('h, 'b) stepped"
where
  "await_step inside k (Go l) = Go (inside l)"
| "await_step inside k (Pend l) = Pend (inside l)"
| "await_step inside k (Fin r) = k r"

section \<open>Notification\<close>

text \<open>Selection under the registry lock, then one signal after the other.\<close>

datatype notify_pc = Notify_select | Notify_wake "nat list"

definition tokio_notify_one ::
  "('m, 't, 'q, 'n, 'k, 'i, 'f, 'e) tokio_platform \<Rightarrow> notify_pc \<Rightarrow> ('m, 'n, 'k) TokioMonitor \<Rightarrow>
   (notify_pc, unit) stepped \<times> ('m, 'n, 'k) TokioMonitor"
where
  "tokio_notify_one P pc w = (case pc of
       Notify_select \<Rightarrow>
         (let (waiter, m) = recovered_call registry_take_one (tok_waiters w)
          in (Go (Notify_wake (case waiter of None \<Rightarrow> [] | Some a \<Rightarrow> [a])), w\<lparr>tok_waiters := m\<rparr>))
     | Notify_wake [] \<Rightarrow> (Fin (Return ()), w)
     | Notify_wake (a # as) \<Rightarrow> (Go (Notify_wake as), tokio_signal P a w))"

definition tokio_notify_all ::
  "('m, 't, 'q, 'n, 'k, 'i, 'f, 'e) tokio_platform \<Rightarrow> notify_pc \<Rightarrow> ('m, 'n, 'k) TokioMonitor \<Rightarrow>
   (notify_pc, unit) stepped \<times> ('m, 'n, 'k) TokioMonitor"
where
  "tokio_notify_all P pc w = (case pc of
       Notify_select \<Rightarrow>
         (let (as, m) = recovered_call registry_take_all (tok_waiters w)
          in (Go (Notify_wake as), w\<lparr>tok_waiters := m\<rparr>))
     | Notify_wake [] \<Rightarrow> (Fin (Return ()), w)
     | Notify_wake (a # as) \<Rightarrow> (Go (Notify_wake as), tokio_signal P a w))"

section \<open>Access\<close>

text \<open>\<open>Acc_diverged\<close> is a caller's closure that never returns.\<close>

datatype ('q, 'r) access_pc =
    Acc_lock "'q option" | Acc_body | Acc_drop_guard "'r outcome" | Acc_diverged

definition tokio_with_write_async ::
  "('m, 't, 'q, 'n, 'k, 'i, 'f, 'e) tokio_platform \<Rightarrow> ('t, 'r) action \<Rightarrow> ('q, 'r) access_pc \<Rightarrow>
   ('m, 'n, 'k) TokioMonitor \<Rightarrow> (('q, 'r) access_pc, 'r) stepped \<times> ('m, 'n, 'k) TokioMonitor"
where
  "tokio_with_write_async P f pc w = (case pc of
       Acc_lock q \<Rightarrow>
         (case tokio_poll_lock P q w of
            (Granted, w) \<Rightarrow> (Go Acc_body, w)
          | (Queued q', w) \<Rightarrow> (Pend (Acc_lock (Some q')), w))
     | Acc_body \<Rightarrow>
         (let (r, d) = f (tokio_deref P w)
          in (Go (if r = Blocked then Acc_diverged else Acc_drop_guard r), tokio_deref_mut P d w))
     | Acc_drop_guard r \<Rightarrow> (Fin r, tokio_drop_guard P w)
     | Acc_diverged \<Rightarrow> (Go Acc_diverged, w))"

definition tokio_with_read_async ::
  "('m, 't, 'q, 'n, 'k, 'i, 'f, 'e) tokio_platform \<Rightarrow> ('t \<Rightarrow> 'r outcome) \<Rightarrow> ('q, 'r) access_pc \<Rightarrow>
   ('m, 'n, 'k) TokioMonitor \<Rightarrow> (('q, 'r) access_pc, 'r) stepped \<times> ('m, 'n, 'k) TokioMonitor"
where
  "tokio_with_read_async P f pc w = (case pc of
       Acc_lock q \<Rightarrow>
         (case tokio_poll_lock P q w of
            (Granted, w) \<Rightarrow> (Go Acc_body, w)
          | (Queued q', w) \<Rightarrow> (Pend (Acc_lock (Some q')), w))
     | Acc_body \<Rightarrow>
         (let r = f (tokio_deref P w)
          in (Go (if r = Blocked then Acc_diverged else Acc_drop_guard r), w))
     | Acc_drop_guard r \<Rightarrow> (Fin r, tokio_drop_guard P w)
     | Acc_diverged \<Rightarrow> (Go Acc_diverged, w))"

text \<open>Dropping the future: only the acquisition is an await.\<close>

fun access_drop ::
  "('m, 't, 'q, 'n, 'k, 'i, 'f, 'e) tokio_platform \<Rightarrow> ('q, 'r) access_pc \<Rightarrow>
   ('m, 'n, 'k) TokioMonitor \<Rightarrow> ('m, 'n, 'k) TokioMonitor"
where
  "access_drop P (Acc_lock q) w = tokio_cancel_lock P q w"
| "access_drop P _ w = w"

text \<open>The two write-and-notify methods; a panicking write is not notified.\<close>

datatype ('q, 'r) write_notify_pc = Wn_write "('q, 'r) access_pc" | Wn_notify 'r notify_pc

definition after_write :: "'r outcome \<Rightarrow> (('q, 'r) write_notify_pc, 'r) stepped" where
  "after_write r = (case r of
       Return result \<Rightarrow> Go (Wn_notify result Notify_select)
     | Panic m \<Rightarrow> Fin (Panic m)
     | Blocked \<Rightarrow> Fin Blocked)"

definition tokio_with_write_notify_one_async ::
  "('m, 't, 'q, 'n, 'k, 'i, 'f, 'e) tokio_platform \<Rightarrow> ('t, 'r) action \<Rightarrow> ('q, 'r) write_notify_pc \<Rightarrow>
   ('m, 'n, 'k) TokioMonitor \<Rightarrow> (('q, 'r) write_notify_pc, 'r) stepped \<times> ('m, 'n, 'k) TokioMonitor"
where
  "tokio_with_write_notify_one_async P f pc w = (case pc of
       Wn_write a \<Rightarrow> apfst (await_step Wn_write after_write) (tokio_with_write_async P f a w)
     | Wn_notify result n \<Rightarrow>
         apfst (await_step (Wn_notify result) (\<lambda>_. Fin (Return result))) (tokio_notify_one P n w))"

definition tokio_with_write_notify_all_async ::
  "('m, 't, 'q, 'n, 'k, 'i, 'f, 'e) tokio_platform \<Rightarrow> ('t, 'r) action \<Rightarrow> ('q, 'r) write_notify_pc \<Rightarrow>
   ('m, 'n, 'k) TokioMonitor \<Rightarrow> (('q, 'r) write_notify_pc, 'r) stepped \<times> ('m, 'n, 'k) TokioMonitor"
where
  "tokio_with_write_notify_all_async P f pc w = (case pc of
       Wn_write a \<Rightarrow> apfst (await_step Wn_write after_write) (tokio_with_write_async P f a w)
     | Wn_notify result n \<Rightarrow>
         apfst (await_step (Wn_notify result) (\<lambda>_. Fin (Return result))) (tokio_notify_all P n w))"

fun write_notify_drop ::
  "('m, 't, 'q, 'n, 'k, 'i, 'f, 'e) tokio_platform \<Rightarrow> ('q, 'r) write_notify_pc \<Rightarrow>
   ('m, 'n, 'k) TokioMonitor \<Rightarrow> ('m, 'n, 'k) TokioMonitor"
where
  "write_notify_drop P (Wn_write a) w = access_drop P a w"
| "write_notify_drop P _ w = w"

section \<open>The untimed wait\<close>

text \<open>
  \<^verbatim>\<open>wait_while_async\<close>: \<open>p\<close> is the state of the caller's predicate. \<open>Wt_lock\<close> is both awaits of
  \<^verbatim>\<open>self.state.lock()\<close>, before the loop and at its end; \<open>Wt_notified\<close> the await of the signal.
\<close>

datatype ('q, 'p, 'r) wait_pc =
    Wt_lock "'q option" 'p
  | Wt_check 'p
  | Wt_register 'p
  | Wt_release TokioConditionWaiterRegistration 'p
  | Wt_notified TokioConditionWaiterRegistration 'p
  | Wt_unregister TokioConditionWaiterRegistration 'p
  | Wt_action
  | Wt_drop_guard "'r outcome"
  | Wt_diverged

definition tokio_wait_while_async ::
  "('m, 't, 'q, 'n, 'k, 'i, 'f, 'e) tokio_platform \<Rightarrow> ('p, 't) predicate \<Rightarrow> ('t, 'r) action \<Rightarrow>
   ('q, 'p, 'r) wait_pc \<Rightarrow> ('m, 'n, 'k) TokioMonitor \<Rightarrow>
   (('q, 'p, 'r) wait_pc, 'r) stepped \<times> ('m, 'n, 'k) TokioMonitor"
where
  "tokio_wait_while_async P predicate action pc w = (case pc of
       Wt_lock q p \<Rightarrow>
         (case tokio_poll_lock P q w of
            (Granted, w) \<Rightarrow> (Go (Wt_check p), w)
          | (Queued q', w) \<Rightarrow> (Pend (Wt_lock (Some q') p), w))
     | Wt_check p \<Rightarrow>
         (Go (case predicate p (tokio_deref P w) of
                (Return True, p) \<Rightarrow> Wt_register p
              | (Return False, p) \<Rightarrow> Wt_action
              | (Panic m, p) \<Rightarrow> Wt_drop_guard (Panic m)
              | (Blocked, p) \<Rightarrow> Wt_diverged), w)
     | Wt_register p \<Rightarrow>
         (case tokio_register_waiter P w of
            (Return registration, w) \<Rightarrow> (Go (Wt_release registration p), w)
          | (Panic m, w) \<Rightarrow> (Go (Wt_drop_guard (Panic m)), w)
          | (Blocked, w) \<Rightarrow> (Go Wt_diverged, w))
     | Wt_release registration p \<Rightarrow> (Go (Wt_notified registration p), tokio_drop_guard P w)
     | Wt_notified registration p \<Rightarrow>
         (let (ready, w) = tokio_poll_notified P (tcr_waiter registration) w
          in (if ready then Go (Wt_unregister registration p) else Pend (Wt_notified registration p), w))
     | Wt_unregister registration p \<Rightarrow>
         (Go (Wt_lock None p), tokio_registration_drop registration w)
     | Wt_action \<Rightarrow>
         (let (r, d) = action (tokio_deref P w)
          in (Go (if r = Blocked then Wt_diverged else Wt_drop_guard r), tokio_deref_mut P d w))
     | Wt_drop_guard r \<Rightarrow> (Fin r, tokio_drop_guard P w)
     | Wt_diverged \<Rightarrow> (Go Wt_diverged, w))"

definition tokio_wait_until_async ::
  "('m, 't, 'q, 'n, 'k, 'i, 'f, 'e) tokio_platform \<Rightarrow> ('p, 't) predicate \<Rightarrow> ('t, 'r) action \<Rightarrow>
   ('q, 'p, 'r) wait_pc \<Rightarrow> ('m, 'n, 'k) TokioMonitor \<Rightarrow>
   (('q, 'p, 'r) wait_pc, 'r) stepped \<times> ('m, 'n, 'k) TokioMonitor"
where
  "tokio_wait_until_async P predicate action pc w =
     tokio_wait_while_async P (not_pred predicate) action pc w"

fun wait_drop ::
  "('m, 't, 'q, 'n, 'k, 'i, 'f, 'e) tokio_platform \<Rightarrow> ('q, 'p, 'r) wait_pc \<Rightarrow>
   ('m, 'n, 'k) TokioMonitor \<Rightarrow> ('m, 'n, 'k) TokioMonitor"
where
  "wait_drop P (Wt_lock q p) w = tokio_cancel_lock P q w"
| "wait_drop P (Wt_notified registration p) w = tokio_registration_drop registration w"
| "wait_drop P _ w = w"

end
