(* ===== verification/Tokio_Timed.thy ===== *)
theory Tokio_Timed
  imports Tokio_Monitor
begin

text \<open>
  The timed waits of \<^verbatim>\<open>src/monitor/tokio_monitor.rs\<close> and the combined wait of
  \<^verbatim>\<open>internal/tokio_condition_waiter_registration.rs\<close>. \<open>wk\<close> is the Waker of the polling task.
\<close>

section \<open>Timer statements\<close>

definition tokio_timer_at ::
  "('m, 't, 'q, 'n, 'k, 'i, 'f, 'e) tokio_platform \<Rightarrow> 'i \<Rightarrow> ('m, 'n, 'k) TokioMonitor \<Rightarrow>
   ('e + 'f) \<times> ('m, 'n, 'k) TokioMonitor"
where
  "tokio_timer_at P deadline w =
     (let (r, k) = tm_at (tp_timer P) deadline (tok_timer w) in (r, w\<lparr>tok_timer := k\<rparr>))"

definition tokio_poll_deadline ::
  "('m, 't, 'q, 'n, 'k, 'i, 'f, 'e) tokio_platform \<Rightarrow> waker \<Rightarrow> 'f \<Rightarrow> ('m, 'n, 'k) TokioMonitor \<Rightarrow>
   ('e + unit) poll \<times> 'f \<times> ('m, 'n, 'k) TokioMonitor"
where
  "tokio_poll_deadline P wk deadline w =
     (let (r, f, k) = tm_poll (tp_timer P) wk deadline (tok_timer w) in (r, f, w\<lparr>tok_timer := k\<rparr>))"

text \<open>\<^verbatim>\<open>deadline_reached\<close> polls once and never suspends.\<close>

definition tokio_deadline_reached ::
  "('m, 't, 'q, 'n, 'k, 'i, 'f, 'e) tokio_platform \<Rightarrow> waker \<Rightarrow> 'f \<Rightarrow> ('m, 'n, 'k) TokioMonitor \<Rightarrow>
   ('e + bool) \<times> 'f \<times> ('m, 'n, 'k) TokioMonitor"
where
  "tokio_deadline_reached P wk deadline w = (case tokio_poll_deadline P wk deadline w of
       (Poll_pending, f, w) \<Rightarrow> (Inr False, f, w)
     | (Poll_ready (Inr _), f, w) \<Rightarrow> (Inr True, f, w)
     | (Poll_ready (Inl e), f, w) \<Rightarrow> (Inl e, f, w))"

section \<open>Waiting for the signal or the deadline\<close>

text \<open>Each poll looks at the deadline first and at the signal second.\<close>

datatype 'f signal_pc = Sg_deadline 'f | Sg_notified 'f

definition wait_until_signalled_or_deadline ::
  "('m, 't, 'q, 'n, 'k, 'i, 'f, 'e) tokio_platform \<Rightarrow> waker \<Rightarrow> TokioConditionWaiterRegistration \<Rightarrow>
   'f signal_pc \<Rightarrow> ('m, 'n, 'k) TokioMonitor \<Rightarrow>
   ('f signal_pc, ('e + WaitTimeoutStatus) \<times> 'f) stepped \<times> ('m, 'n, 'k) TokioMonitor"
where
  "wait_until_signalled_or_deadline P wk registration pc w = (case pc of
       Sg_deadline deadline \<Rightarrow>
         (case tokio_poll_deadline P wk deadline w of
            (Poll_ready (Inr _), f, w) \<Rightarrow> (Fin (Return (Inr StatusTimedOut, f)), w)
          | (Poll_ready (Inl e), f, w) \<Rightarrow> (Fin (Return (Inl e, f)), w)
          | (Poll_pending, f, w) \<Rightarrow> (Go (Sg_notified f), w))
     | Sg_notified deadline \<Rightarrow>
         (let (ready, w) = tokio_poll_notified P (tcr_waiter registration) w
          in (if ready then Fin (Return (Inr Woken, deadline)) else Pend (Sg_deadline deadline), w)))"

section \<open>The loop of the timed waits\<close>

text \<open>Both timed waits end in the same loop; here from \<^verbatim>\<open>register_waiter\<close> to the next turn.\<close>

datatype ('q, 'p, 'f, 'e, 'r) loop_pc =
    Lp_register 'f 'p
  | Lp_release TokioConditionWaiterRegistration 'f 'p
  | Lp_wait TokioConditionWaiterRegistration "'f signal_pc" 'p
  | Lp_unregister TokioConditionWaiterRegistration "'e + WaitTimeoutStatus" 'f 'p
  | Lp_lock "'q option" "'e + WaitTimeoutStatus" 'f 'p
  | Lp_status "'e + WaitTimeoutStatus" 'f 'p
  | Lp_probe 'f 'p
  | Lp_check bool 'f 'p
  | Lp_action
  | Lp_drop_guard "('e + 'r WaitTimeoutResult) outcome"
  | Lp_diverged

text \<open>The end of the combined wait: only a value is possible.\<close>

definition after_wait ::
  "TokioConditionWaiterRegistration \<Rightarrow> 'p \<Rightarrow> (('e + WaitTimeoutStatus) \<times> 'f) outcome \<Rightarrow>
   (('q, 'p, 'f, 'e, 'r) loop_pc, 'e + 'r WaitTimeoutResult) stepped"
where
  "after_wait registration p r = (case r of
       Return (status, f) \<Rightarrow> Go (Lp_unregister registration status f p)
     | Panic m \<Rightarrow> Fin (Panic m)
     | Blocked \<Rightarrow> Go Lp_diverged)"

definition timed_loop_step ::
  "('m, 't, 'q, 'n, 'k, 'i, 'f, 'e) tokio_platform \<Rightarrow> waker \<Rightarrow> ('p, 't) predicate \<Rightarrow> ('t, 'r) action \<Rightarrow>
   ('q, 'p, 'f, 'e, 'r) loop_pc \<Rightarrow> ('m, 'n, 'k) TokioMonitor \<Rightarrow>
   (('q, 'p, 'f, 'e, 'r) loop_pc, 'e + 'r WaitTimeoutResult) stepped \<times> ('m, 'n, 'k) TokioMonitor"
where
  "timed_loop_step P wk predicate action pc w = (case pc of
       Lp_register f p \<Rightarrow>
         (case tokio_register_waiter P w of
            (Return registration, w) \<Rightarrow> (Go (Lp_release registration f p), w)
          | (Panic m, w) \<Rightarrow> (Go (Lp_drop_guard (Panic m)), w)
          | (Blocked, w) \<Rightarrow> (Go Lp_diverged, w))
     | Lp_release registration f p \<Rightarrow>
         (Go (Lp_wait registration (Sg_deadline f) p), tokio_drop_guard P w)
     | Lp_wait registration s p \<Rightarrow>
         apfst (await_step (\<lambda>s. Lp_wait registration s p) (after_wait registration p))
           (wait_until_signalled_or_deadline P wk registration s w)
     | Lp_unregister registration status f p \<Rightarrow>
         (Go (Lp_lock None status f p), tokio_registration_drop registration w)
     | Lp_lock q status f p \<Rightarrow>
         (case tokio_poll_lock P q w of
            (Granted, w) \<Rightarrow> (Go (Lp_status status f p), w)
          | (Queued q', w) \<Rightarrow> (Pend (Lp_lock (Some q') status f p), w))
     | Lp_status status f p \<Rightarrow>
         (Go (case status of
                Inl e \<Rightarrow> Lp_drop_guard (Return (Inl e))
              | Inr status \<Rightarrow> if status_is_timed_out status then Lp_check True f p else Lp_probe f p), w)
     | Lp_probe f p \<Rightarrow>
         (case tokio_deadline_reached P wk f w of
            (Inl e, f, w) \<Rightarrow> (Go (Lp_drop_guard (Return (Inl e))), w)
          | (Inr deadline_reached, f, w) \<Rightarrow> (Go (Lp_check deadline_reached f p), w))
     | Lp_check deadline_reached f p \<Rightarrow>
         (Go (case predicate p (tokio_deref P w) of
                (Return blocking, p) \<Rightarrow>
                  if \<not> blocking then Lp_action
                  else if deadline_reached then Lp_drop_guard (Return (Inr TimedOut))
                  else Lp_register f p
              | (Panic m, p) \<Rightarrow> Lp_drop_guard (Panic m)
              | (Blocked, p) \<Rightarrow> Lp_diverged), w)
     | Lp_action \<Rightarrow>
         (let (r, d) = action (tokio_deref P w)
          in (Go (if r = Blocked then Lp_diverged
                  else Lp_drop_guard (map_outcome (\<lambda>x. Inr (Ready x)) r)), tokio_deref_mut P d w))
     | Lp_drop_guard r \<Rightarrow> (Fin r, tokio_drop_guard P w)
     | Lp_diverged \<Rightarrow> (Go Lp_diverged, w))"

fun loop_drop ::
  "('m, 't, 'q, 'n, 'k, 'i, 'f, 'e) tokio_platform \<Rightarrow> ('q, 'p, 'f, 'e, 'r) loop_pc \<Rightarrow>
   ('m, 'n, 'k) TokioMonitor \<Rightarrow> ('m, 'n, 'k) TokioMonitor"
where
  "loop_drop P (Lp_wait registration s p) w = tokio_registration_drop registration w"
| "loop_drop P (Lp_lock q status f p) w = tokio_cancel_lock P q w"
| "loop_drop P _ w = w"

section \<open>wait_while_with_deadline_async\<close>

datatype ('q, 'p, 'f, 'e, 'r) deadline_pc =
    Dl_lock "'q option" 'p
  | Dl_check 'p
  | Dl_arm 'p
  | Dl_probe 'f 'p
  | Dl_loop "('q, 'p, 'f, 'e, 'r) loop_pc"

definition tokio_wait_while_with_deadline_async ::
  "('m, 't, 'q, 'n, 'k, 'i, 'f, 'e) tokio_platform \<Rightarrow> waker \<Rightarrow> 'i \<Rightarrow> ('p, 't) predicate \<Rightarrow>
   ('t, 'r) action \<Rightarrow> ('q, 'p, 'f, 'e, 'r) deadline_pc \<Rightarrow> ('m, 'n, 'k) TokioMonitor \<Rightarrow>
   (('q, 'p, 'f, 'e, 'r) deadline_pc, 'e + 'r WaitTimeoutResult) stepped \<times> ('m, 'n, 'k) TokioMonitor"
where
  "tokio_wait_while_with_deadline_async P wk deadline_at predicate action pc w = (case pc of
       Dl_lock q p \<Rightarrow>
         (case tokio_poll_lock P q w of
            (Granted, w) \<Rightarrow> (Go (Dl_check p), w)
          | (Queued q', w) \<Rightarrow> (Pend (Dl_lock (Some q') p), w))
     | Dl_check p \<Rightarrow>
         (Go (case predicate p (tokio_deref P w) of
                (Return blocking, p) \<Rightarrow> if \<not> blocking then Dl_loop Lp_action else Dl_arm p
              | (Panic m, p) \<Rightarrow> Dl_loop (Lp_drop_guard (Panic m))
              | (Blocked, p) \<Rightarrow> Dl_loop Lp_diverged), w)
     | Dl_arm p \<Rightarrow>
         (case tokio_timer_at P deadline_at w of
            (Inl e, w) \<Rightarrow> (Go (Dl_loop (Lp_drop_guard (Return (Inl e)))), w)
          | (Inr f, w) \<Rightarrow> (Go (Dl_probe f p), w))
     | Dl_probe f p \<Rightarrow>
         (case tokio_deadline_reached P wk f w of
            (Inl e, f, w) \<Rightarrow> (Go (Dl_loop (Lp_drop_guard (Return (Inl e)))), w)
          | (Inr True, f, w) \<Rightarrow> (Go (Dl_loop (Lp_drop_guard (Return (Inr TimedOut)))), w)
          | (Inr False, f, w) \<Rightarrow> (Go (Dl_loop (Lp_register f p)), w))
     | Dl_loop l \<Rightarrow> apfst (await_step Dl_loop Fin) (timed_loop_step P wk predicate action l w))"

fun deadline_drop ::
  "('m, 't, 'q, 'n, 'k, 'i, 'f, 'e) tokio_platform \<Rightarrow> ('q, 'p, 'f, 'e, 'r) deadline_pc \<Rightarrow>
   ('m, 'n, 'k) TokioMonitor \<Rightarrow> ('m, 'n, 'k) TokioMonitor"
where
  "deadline_drop P (Dl_lock q p) w = tokio_cancel_lock P q w"
| "deadline_drop P (Dl_loop l) w = loop_drop P l w"
| "deadline_drop P _ w = w"

section \<open>wait_while_for_async\<close>

datatype ('q, 'p, 'i, 'f, 'e, 'r) for_pc =
    Fo_lock "'q option" 'p
  | Fo_now 'p
  | Fo_check 'i 'p
  | Fo_deadline 'i 'p
  | Fo_arm 'i 'p
  | Fo_loop "('q, 'p, 'f, 'e, 'r) loop_pc"

definition tokio_wait_while_for_async ::
  "('m, 't, 'q, 'n, 'k, 'i, 'f, 'e) tokio_platform \<Rightarrow> waker \<Rightarrow> duration \<Rightarrow> ('p, 't) predicate \<Rightarrow>
   ('t, 'r) action \<Rightarrow> ('q, 'p, 'i, 'f, 'e, 'r) for_pc \<Rightarrow> ('m, 'n, 'k) TokioMonitor \<Rightarrow>
   (('q, 'p, 'i, 'f, 'e, 'r) for_pc, 'e + 'r WaitTimeoutResult) stepped \<times> ('m, 'n, 'k) TokioMonitor"
where
  "tokio_wait_while_for_async P wk timeout predicate action pc w = (case pc of
       Fo_lock q p \<Rightarrow>
         (case tokio_poll_lock P q w of
            (Granted, w) \<Rightarrow> (Go (Fo_now p), w)
          | (Queued q', w) \<Rightarrow> (Pend (Fo_lock (Some q') p), w))
     | Fo_now p \<Rightarrow> (Go (Fo_check (tm_now (tp_timer P) (tok_timer w)) p), w)
     | Fo_check started_at p \<Rightarrow>
         (Go (case predicate p (tokio_deref P w) of
                (Return blocking, p) \<Rightarrow> if \<not> blocking then Fo_loop Lp_action else Fo_deadline started_at p
              | (Panic m, p) \<Rightarrow> Fo_loop (Lp_drop_guard (Panic m))
              | (Blocked, p) \<Rightarrow> Fo_loop Lp_diverged), w)
     | Fo_deadline started_at p \<Rightarrow>
         (Go (if duration_is_zero timeout then Fo_loop (Lp_drop_guard (Return (Inr TimedOut)))
              else case tm_checked_add (tp_timer P) started_at timeout of
                     Inl e \<Rightarrow> Fo_loop (Lp_drop_guard (Return (Inl e)))
                   | Inr deadline_at \<Rightarrow> Fo_arm deadline_at p), w)
     | Fo_arm deadline_at p \<Rightarrow>
         (case tokio_timer_at P deadline_at w of
            (Inl e, w) \<Rightarrow> (Go (Fo_loop (Lp_drop_guard (Return (Inl e)))), w)
          | (Inr f, w) \<Rightarrow> (Go (Fo_loop (Lp_register f p)), w))
     | Fo_loop l \<Rightarrow> apfst (await_step Fo_loop Fin) (timed_loop_step P wk predicate action l w))"

definition tokio_wait_until_for_async ::
  "('m, 't, 'q, 'n, 'k, 'i, 'f, 'e) tokio_platform \<Rightarrow> waker \<Rightarrow> duration \<Rightarrow> ('p, 't) predicate \<Rightarrow>
   ('t, 'r) action \<Rightarrow> ('q, 'p, 'i, 'f, 'e, 'r) for_pc \<Rightarrow> ('m, 'n, 'k) TokioMonitor \<Rightarrow>
   (('q, 'p, 'i, 'f, 'e, 'r) for_pc, 'e + 'r WaitTimeoutResult) stepped \<times> ('m, 'n, 'k) TokioMonitor"
where
  "tokio_wait_until_for_async P wk timeout predicate action pc w =
     tokio_wait_while_for_async P wk timeout (not_pred predicate) action pc w"

fun for_drop ::
  "('m, 't, 'q, 'n, 'k, 'i, 'f, 'e) tokio_platform \<Rightarrow> ('q, 'p, 'i, 'f, 'e, 'r) for_pc \<Rightarrow>
   ('m, 'n, 'k) TokioMonitor \<Rightarrow> ('m, 'n, 'k) TokioMonitor"
where
  "for_drop P (Fo_lock q p) w = tokio_cancel_lock P q w"
| "for_drop P (Fo_loop l) w = loop_drop P l w"
| "for_drop P _ w = w"

end
