(* ===== verification/Tokio_Effects.thy ===== *)
theory Tokio_Effects
  imports Tokio_Timed
begin

text \<open>
  What a step of a Tokio monitor future does to the shared monitor, independent of the method it
  belongs to: a footprint says what a future owns between two steps, and the relation
  \<open>tok_effect\<close> has one rule for each kind of step. The invariants of the monitor are proved once,
  by rule induction, for any number of futures.
\<close>

section \<open>Footprints\<close>

datatype foot =
    Free
  | Guarded
  | Enlisted u64 nat
  | Listening u64 nat
  | Leaving u64 nat
  | Sending "nat list"

text \<open>
  \<open>Enlisted\<close> holds the guard and a registration, \<open>Listening\<close> a registration whose signal has not
  been consumed, \<open>Leaving\<close> a registration that is about to be dropped, \<open>Sending\<close> the waiters taken
  from the registry and not yet signalled.
\<close>

fun holds_guard :: "foot \<Rightarrow> bool" where
  "holds_guard Guarded = True"
| "holds_guard (Enlisted i a) = True"
| "holds_guard _ = False"

fun registration_of :: "foot \<Rightarrow> (u64 \<times> nat) option" where
  "registration_of (Enlisted i a) = Some (i, a)"
| "registration_of (Listening i a) = Some (i, a)"
| "registration_of (Leaving i a) = Some (i, a)"
| "registration_of _ = None"

fun expecting :: "foot \<Rightarrow> (u64 \<times> nat) option" where
  "expecting (Enlisted i a) = Some (i, a)"
| "expecting (Listening i a) = Some (i, a)"
| "expecting _ = None"

fun sending :: "foot \<Rightarrow> nat list" where
  "sending (Sending as) = as"
| "sending _ = []"

lemma expecting_registration: "expecting \<phi> = Some e \<Longrightarrow> registration_of \<phi> = Some e"
  by (cases \<phi>) simp_all

section \<open>Effects\<close>

text \<open>The Timer moves when it is asked for a future, when a future is polled, and on its own.\<close>

inductive clock_moves :: "('k, 'i, 'f, 'e) timer_ops \<Rightarrow> 'k \<Rightarrow> 'k \<Rightarrow> bool" for T where
  at: "clock_moves T k (snd (tm_at T i k))"
| poll: "clock_moves T k (snd (snd (tm_poll T wk f k)))"
| tick: "clock_moves T k (fst (tm_tick T k))"

inductive tok_effect ::
  "('m, 't, 'q, 'n, 'k, 'i, 'f, 'e) tokio_platform \<Rightarrow> foot \<Rightarrow> ('m, 'n, 'k) TokioMonitor \<Rightarrow>
   foot \<Rightarrow> ('m, 'n, 'k) TokioMonitor \<Rightarrow> bool"
for P where
  idle: "tok_effect P \<phi> w \<phi> w"
| timer: "clock_moves (tp_timer P) (tok_timer w) k \<Longrightarrow> tok_effect P \<phi> w \<phi> (w\<lparr>tok_timer := k\<rparr>)"
| queued: "tokio_poll_lock P q w = (Queued q', w') \<Longrightarrow> tok_effect P Free w Free w'"
| cancelled: "tok_effect P Free w Free (tokio_cancel_lock P q w)"
| granted: "tokio_poll_lock P q w = (Granted, w') \<Longrightarrow> tok_effect P Free w Guarded w'"
| written: "tok_effect P Guarded w Guarded (tokio_deref_mut P d w)"
| unlocked: "tok_effect P Guarded w Free (tokio_drop_guard P w)"
| registered: "tokio_register_waiter P w = (Return g, w') \<Longrightarrow>
    tok_effect P Guarded w (Enlisted (tcr_waiter_id g) (tcr_waiter g)) w'"
| exhausted: "tokio_register_waiter P w = (r, w') \<Longrightarrow> (\<forall>g. r \<noteq> Return g) \<Longrightarrow>
    tok_effect P Guarded w Guarded w'"
| released: "tok_effect P (Enlisted i a) w (Listening i a) (tokio_drop_guard P w)"
| unnotified: "tokio_poll_notified P a w = (False, w') \<Longrightarrow>
    tok_effect P (Listening i a) w (Listening i a) w'"
| notified: "tokio_poll_notified P a w = (True, w') \<Longrightarrow>
    tok_effect P (Listening i a) w (Leaving i a) w'"
| expired: "clock_moves (tp_timer P) (tok_timer w) k \<Longrightarrow>
    tok_effect P (Listening i a) w (Leaving i a) (w\<lparr>tok_timer := k\<rparr>)"
| unregistered: "\<phi> = Listening i a \<or> \<phi> = Leaving i a \<Longrightarrow>
    tok_effect P \<phi> w Free (tokio_registration_drop \<lparr>tcr_waiter_id = i, tcr_waiter = a\<rparr> w)"
| selected_one: "recovered_call registry_take_one (tok_waiters w) = (x, m) \<Longrightarrow>
    tok_effect P Free w (Sending (case x of None \<Rightarrow> [] | Some a \<Rightarrow> [a])) (w\<lparr>tok_waiters := m\<rparr>)"
| selected_all: "recovered_call registry_take_all (tok_waiters w) = (as, m) \<Longrightarrow>
    tok_effect P Free w (Sending as) (w\<lparr>tok_waiters := m\<rparr>)"
| signalled: "tok_effect P (Sending (a # as)) w (Sending as) (tokio_signal P a w)"
| sent: "tok_effect P (Sending []) w Free w"

section \<open>Invariants\<close>

definition tok_registry :: "('m, 'n, 'k) TokioMonitor \<Rightarrow> nat WaiterRegistry" where
  "tok_registry w = mx_data (tok_waiters w)"

definition tok_active :: "('m, 'n, 'k) TokioMonitor \<Rightarrow> (u64 \<times> nat) list" where
  "tok_active w = waiters (tok_registry w)"

text \<open>A guard exists exactly when some future holds one, and at most one future does.\<close>

definition guard_inv ::
  "('m, 't, 'q, 'n, 'k, 'i, 'f, 'e) tokio_platform \<Rightarrow> (nat \<Rightarrow> foot) \<Rightarrow> ('m, 'n, 'k) TokioMonitor \<Rightarrow> bool"
where
  "guard_inv P F w \<longleftrightarrow>
     (tk_guarded (tp_mutex P) (tok_state w) \<longleftrightarrow> (\<exists>i. holds_guard (F i))) \<and>
     (\<forall>i j. holds_guard (F i) \<longrightarrow> holds_guard (F j) \<longrightarrow> i = j)"

text \<open>Every entry of the registry is the registration of exactly one future.\<close>

definition owner_inv :: "(nat \<Rightarrow> foot) \<Rightarrow> ('m, 'n, 'k) TokioMonitor \<Rightarrow> bool" where
  "owner_inv F w \<longleftrightarrow>
     registry_inv (tok_registry w) \<and>
     (\<forall>e \<in> set (tok_active w). \<exists>i. registration_of (F i) = Some e) \<and>
     (\<forall>i j n a m b. registration_of (F i) = Some (n, a) \<longrightarrow> registration_of (F j) = Some (m, b) \<longrightarrow>
        n = m \<or> a = b \<longrightarrow> i = j) \<and>
     (\<forall>i n a. registration_of (F i) = Some (n, a) \<longrightarrow>
        n < next_waiter_id (tok_registry w) \<and> a < length (tok_cells w))"

text \<open>A listening future is registered, or selected by an unfinished notification, or signalled.\<close>

definition wake_inv :: "('n \<Rightarrow> bool) \<Rightarrow> (nat \<Rightarrow> foot) \<Rightarrow> ('m, 'n, 'k) TokioMonitor \<Rightarrow> bool" where
  "wake_inv permit F w \<longleftrightarrow>
     (\<forall>i n a. expecting (F i) = Some (n, a) \<longrightarrow>
        (n, a) \<in> set (tok_active w) \<or> (\<exists>j. a \<in> set (sending (F j))) \<or>
        permit (tcw_signal (tok_cells w ! a)))"

subsection \<open>Statements on the registry\<close>

lemma tokio_statement_simps [simp]:
  "tok_waiters (tokio_deref_mut P d w) = tok_waiters w" "tok_cells (tokio_deref_mut P d w) = tok_cells w"
  "tok_waiters (tokio_drop_guard P w) = tok_waiters w" "tok_cells (tokio_drop_guard P w) = tok_cells w"
  "tok_waiters (tokio_cancel_lock P q w) = tok_waiters w" "tok_cells (tokio_cancel_lock P q w) = tok_cells w"
  "tok_waiters (tokio_signal P a w) = tok_waiters w" "tok_state (tokio_signal P a w) = tok_state w"
  "tok_state (tokio_registration_drop g w) = tok_state w"
  "tok_cells (tokio_registration_drop g w) = tok_cells w"
  "tok_timer (tokio_deref_mut P d w) = tok_timer w" "tok_timer (tokio_drop_guard P w) = tok_timer w"
  "tok_timer (tokio_cancel_lock P q w) = tok_timer w" "tok_timer (tokio_signal P a w) = tok_timer w"
  "tok_timer (tokio_registration_drop g w) = tok_timer w"
  by (auto simp: tokio_deref_mut_def tokio_drop_guard_def tokio_cancel_lock_def tokio_signal_def
      tokio_registration_drop_def split: option.splits prod.splits)

lemma poll_lock_frame:
  "tokio_poll_lock P q w = (l, w') \<Longrightarrow>
   tok_waiters w' = tok_waiters w \<and> tok_cells w' = tok_cells w \<and> tok_timer w' = tok_timer w"
  by (auto simp: tokio_poll_lock_def split: prod.splits)

lemma poll_notified_frame:
  "tokio_poll_notified P a w = (ready, w') \<Longrightarrow>
   tok_waiters w' = tok_waiters w \<and> tok_state w' = tok_state w \<and> tok_timer w' = tok_timer w \<and>
   length (tok_cells w') = length (tok_cells w) \<and> (\<forall>b. b \<noteq> a \<longrightarrow> tok_cells w' ! b = tok_cells w ! b)"
  by (auto simp: tokio_poll_notified_def split: prod.splits)

lemma registry_congs:
  "tok_waiters w' = tok_waiters w \<Longrightarrow> tok_registry w' = tok_registry w"
  "tok_waiters w' = tok_waiters w \<Longrightarrow> tok_active w' = tok_active w"
  by (simp_all add: tok_registry_def tok_active_def)

lemma register_waiter_frame:
  "tokio_register_waiter P w = (r, w') \<Longrightarrow> tok_state w' = tok_state w \<and> tok_timer w' = tok_timer w \<and>
   tok_cells w' = tok_cells w @ [TokioConditionWaiter_new (tp_notify P)]"
  by (auto simp: tokio_register_waiter_def Let_def split: prod.splits)

lemma register_waiter_Return:
  assumes "registry_inv (tok_registry w)" and "tokio_register_waiter P w = (Return g, w')"
  shows "tcr_waiter g = length (tok_cells w)"
    and "tcr_waiter_id g = next_waiter_id (tok_registry w)"
    and "next_waiter_id (tok_registry w) < next_waiter_id (tok_registry w')"
    and "tok_active w' = tok_active w @ [(tcr_waiter_id g, tcr_waiter g)]"
    and "registry_inv (tok_registry w')"
proof -
  have nmax: "next_waiter_id (tok_registry w) \<noteq> u64_max"
    using assms(2) by (auto simp: tokio_register_waiter_def Let_def recovered_section_eq tok_registry_def)
  show "tcr_waiter g = length (tok_cells w)" "tcr_waiter_id g = next_waiter_id (tok_registry w)"
    "next_waiter_id (tok_registry w) < next_waiter_id (tok_registry w')"
    "tok_active w' = tok_active w @ [(tcr_waiter_id g, tcr_waiter g)]"
    using assms succ_u64_greater [OF nmax]
    by (auto simp: tokio_register_waiter_def Let_def recovered_section_eq tok_registry_def tok_active_def
        registry_register_fresh nmax [unfolded tok_registry_def])
  show "registry_inv (tok_registry w')"
    using assms registry_register_inv [OF assms(1), of "length (tok_cells w)"]
    by (auto simp: tokio_register_waiter_def Let_def recovered_section_eq tok_registry_def)
qed

lemma register_waiter_failed:
  assumes "registry_inv (tok_registry w)" and "tokio_register_waiter P w = (r, w')"
    and "\<forall>g. r \<noteq> Return g"
  shows "tok_registry w' = tok_registry w" and "r = Panic ''monitor waiter identifiers exhausted''"
proof -
  have max: "next_waiter_id (tok_registry w) = u64_max"
  proof (rule ccontr)
    assume "next_waiter_id (tok_registry w) \<noteq> u64_max"
    then have "\<exists>g. r = Return g"
      using assms(1,2) by (auto simp: tokio_register_waiter_def Let_def recovered_section_eq tok_registry_def
          registry_register_fresh)
    then show False using assms(3) by blast
  qed
  then show "tok_registry w' = tok_registry w" "r = Panic ''monitor waiter identifiers exhausted''"
    using assms(2) by (auto simp: tokio_register_waiter_def Let_def recovered_section_eq tok_registry_def)
qed

lemma registration_drop_registry:
  assumes "registry_inv (tok_registry w)"
  shows "tok_active (tokio_registration_drop g w) = filter (\<lambda>e. fst e \<noteq> tcr_waiter_id g) (tok_active w)"
    and "next_waiter_id (tok_registry (tokio_registration_drop g w)) = next_waiter_id (tok_registry w)"
    and "registry_inv (tok_registry (tokio_registration_drop g w))"
  using assms registry_unregister_inv [OF assms, of "tcr_waiter_id g"]
  by (auto simp: tokio_registration_drop_def recovered_call_eq tok_registry_def tok_active_def
      registry_unregister_eq)

lemma take_one_registry:
  assumes "recovered_call registry_take_one (tok_waiters w) = (x, m)"
  shows "x = (case tok_active w of [] \<Rightarrow> None | e # _ \<Rightarrow> Some (snd e))"
    and "tok_active (w\<lparr>tok_waiters := m\<rparr>) = tl (tok_active w)"
    and "next_waiter_id (tok_registry (w\<lparr>tok_waiters := m\<rparr>)) = next_waiter_id (tok_registry w)"
    and "registry_inv (tok_registry w) \<Longrightarrow> registry_inv (tok_registry (w\<lparr>tok_waiters := m\<rparr>))"
proof -
  show "x = (case tok_active w of [] \<Rightarrow> None | e # _ \<Rightarrow> Some (snd e))"
    "tok_active (w\<lparr>tok_waiters := m\<rparr>) = tl (tok_active w)"
    "next_waiter_id (tok_registry (w\<lparr>tok_waiters := m\<rparr>)) = next_waiter_id (tok_registry w)"
    using assms by (auto simp: recovered_call_eq tok_registry_def tok_active_def registry_take_one_eq
        split: list.splits)
  show "registry_inv (tok_registry (w\<lparr>tok_waiters := m\<rparr>))" if "registry_inv (tok_registry w)"
    using assms registry_take_one_inv [OF that] by (auto simp: recovered_call_eq tok_registry_def)
qed

lemma take_all_registry:
  assumes "recovered_call registry_take_all (tok_waiters w) = (as, m)"
  shows "as = map snd (tok_active w)" and "tok_active (w\<lparr>tok_waiters := m\<rparr>) = []"
    and "next_waiter_id (tok_registry (w\<lparr>tok_waiters := m\<rparr>)) = next_waiter_id (tok_registry w)"
    and "registry_inv (tok_registry w) \<Longrightarrow> registry_inv (tok_registry (w\<lparr>tok_waiters := m\<rparr>))"
proof -
  show "as = map snd (tok_active w)" "tok_active (w\<lparr>tok_waiters := m\<rparr>) = []"
    "next_waiter_id (tok_registry (w\<lparr>tok_waiters := m\<rparr>)) = next_waiter_id (tok_registry w)"
    using assms by (auto simp: recovered_call_eq tok_registry_def tok_active_def registry_take_all_def
        btree_into_values_def)
  show "registry_inv (tok_registry (w\<lparr>tok_waiters := m\<rparr>))" if "registry_inv (tok_registry w)"
    using assms registry_take_all_inv [OF that] by (auto simp: recovered_call_eq tok_registry_def)
qed

section \<open>Preservation\<close>

text \<open>
  What the monitor relies on: the documented behaviour of the mutex and of \<^verbatim>\<open>Notify\<close>, where
  \<open>permit\<close> is whether a notification is stored.
\<close>

locale tokio_contract =
  tokio_mutex "tp_mutex P" + notify_latch "tp_notify P" permit
  for P :: "('m, 't, 'q, 'n, 'k, 'i, 'f, 'e) tokio_platform" and permit :: "'n \<Rightarrow> bool"
begin

lemma statement_guarded [simp]:
  "tk_guarded (tp_mutex P) (tok_state (tokio_deref_mut P d w)) = tk_guarded (tp_mutex P) (tok_state w)"
  "tk_guarded (tp_mutex P) (tok_state (tokio_cancel_lock P q w)) = tk_guarded (tp_mutex P) (tok_state w)"
  "\<not> tk_guarded (tp_mutex P) (tok_state (tokio_drop_guard P w))"
  "tokio_deref P (tokio_deref_mut P d w) = d" "tokio_deref P (tokio_cancel_lock P q w) = tokio_deref P w"
  "tokio_deref P (tokio_drop_guard P w) = tokio_deref P w"
  by (simp_all add: tokio_deref_mut_def tokio_cancel_lock_def tokio_drop_guard_def tokio_deref_def
      split: option.splits)

lemma poll_lock_view:
  assumes "tokio_poll_lock P q w = (l, w')"
  shows "tokio_deref P w' = tokio_deref P w"
    and "l = Granted \<Longrightarrow> \<not> tk_guarded (tp_mutex P) (tok_state w) \<and> tk_guarded (tp_mutex P) (tok_state w')"
    and "l = Queued q' \<Longrightarrow> tk_guarded (tp_mutex P) (tok_state w') = tk_guarded (tp_mutex P) (tok_state w)"
  using assms granted [of q "tok_state w" "tok_state w'"] queued [of q "tok_state w" _ "tok_state w'"]
  by (cases l; auto simp: tokio_poll_lock_def tokio_deref_def split: prod.splits)+

lemma poll_notified_permit:
  assumes "tokio_poll_notified P a w = (ready, w')"
  shows "ready = permit (tcw_signal (tok_cells w ! a))"
proof -
  have "ready = fst (nt_poll_notified (tp_notify P) (tcw_signal (tok_cells w ! a)))"
    using assms by (auto simp: tokio_poll_notified_def simp del: poll_ready split: prod.splits)
  then show ?thesis by simp
qed

lemma signal_permit:
  "b < length (tok_cells w) \<Longrightarrow>
   permit (tcw_signal (tok_cells (tokio_signal P a w) ! b)) \<longleftrightarrow> b = a \<or> permit (tcw_signal (tok_cells w ! b))"
  by (cases "b = a") (simp_all add: tokio_signal_def)

text \<open>The value is written under the guard only.\<close>

lemma effect_deref:
  "tok_effect P \<phi> w \<phi>' w' \<Longrightarrow> \<phi> = Guarded \<or> tokio_deref P w' = tokio_deref P w"
  by (erule tok_effect.cases)
    (auto simp: poll_lock_view(1) dest!: poll_notified_frame,
      auto simp: tokio_deref_def tokio_registration_drop_def tokio_signal_def split: prod.splits)

lemma effect_guard:
  assumes "tok_effect P (F i) w \<phi>' w'" and "guard_inv P F w"
  shows "guard_inv P (F(i := \<phi>')) w'"
proof -
  define \<phi> where "\<phi> = F i"
  have step: "tok_effect P \<phi> w \<phi>' w'" using assms(1) by (simp add: \<phi>_def)
  have others: "holds_guard (F j) \<Longrightarrow> j = i" if "holds_guard \<phi>" for j
    using assms(2) that by (auto simp: guard_inv_def \<phi>_def)
  have "(tk_guarded (tp_mutex P) (tok_state w') = tk_guarded (tp_mutex P) (tok_state w) \<and>
      holds_guard \<phi>' = holds_guard \<phi>) \<or>
    (holds_guard \<phi> \<and> \<not> holds_guard \<phi>' \<and> \<not> tk_guarded (tp_mutex P) (tok_state w')) \<or>
    (\<not> tk_guarded (tp_mutex P) (tok_state w) \<and> holds_guard \<phi>' \<and> tk_guarded (tp_mutex P) (tok_state w'))"
    using step by cases (auto dest: poll_lock_view(2,3) register_waiter_frame poll_notified_frame)
  then show ?thesis
    using assms(2) others by (auto simp: guard_inv_def \<phi>_def split: if_splits)
qed

lemma effect_cells:
  "tok_effect P \<phi> w \<phi>' w' \<Longrightarrow> length (tok_cells w) \<le> length (tok_cells w')"
  by (erule tok_effect.cases)
    (auto dest: register_waiter_frame poll_notified_frame poll_lock_frame simp: tokio_signal_def)

lemma owner_inv_shrink:
  assumes "owner_inv F w" and "registry_inv (tok_registry w')"
    and "set (tok_active w') \<subseteq> set (tok_active w)"
    and "next_waiter_id (tok_registry w') = next_waiter_id (tok_registry w)"
    and "length (tok_cells w) \<le> length (tok_cells w')"
    and "registration_of \<phi>' = registration_of (F i) \<or>
      (registration_of \<phi>' = None \<and> (\<forall>e \<in> set (tok_active w'). registration_of (F i) \<noteq> Some e))"
  shows "owner_inv (F(i := \<phi>')) w'"
proof -
  have sub: "registration_of ((F(i := \<phi>')) j) = Some e \<Longrightarrow> registration_of (F j) = Some e" for j e
    using assms(6) by (auto split: if_splits)
  have "\<exists>j. registration_of ((F(i := \<phi>')) j) = Some e" if e: "e \<in> set (tok_active w')" for e
  proof -
    obtain j where "registration_of (F j) = Some e"
      using assms(1,3) e unfolding owner_inv_def by blast
    then show ?thesis using assms(6) e by (intro exI [of _ j]) auto
  qed
  moreover have "n < next_waiter_id (tok_registry w') \<and> a < length (tok_cells w')"
    if "registration_of ((F(i := \<phi>')) j) = Some (n, a)" for j n a
    using sub [OF that] assms(1,4,5) by (fastforce simp: owner_inv_def)
  moreover have "j = k" if "registration_of ((F(i := \<phi>')) j) = Some (n, a)"
    "registration_of ((F(i := \<phi>')) k) = Some (m, b)" "n = m \<or> a = b" for j k n a m b
    using sub [OF that(1)] sub [OF that(2)] that(3) assms(1) unfolding owner_inv_def by blast
  ultimately show ?thesis unfolding owner_inv_def using assms(2) by blast
qed

lemma owner_inv_frame:
  assumes "owner_inv F w" and "registration_of \<phi>' = registration_of (F i)"
    and "tok_waiters w' = tok_waiters w" and "length (tok_cells w') = length (tok_cells w)"
  shows "owner_inv (F(i := \<phi>')) w'"
  using assms(2,4) registry_congs [OF assms(3)] assms(1)
  by (intro owner_inv_shrink [OF assms(1)]) (simp_all add: owner_inv_def)

lemma owner_inv_register:
  assumes "owner_inv F w" and "F i = Guarded" and "tokio_register_waiter P w = (Return g, w')"
  shows "owner_inv (F(i := Enlisted (tcr_waiter_id g) (tcr_waiter g))) w'"
proof -
  have inv: "registry_inv (tok_registry w)" using assms(1) by (simp add: owner_inv_def)
  note reg = register_waiter_Return [OF inv assms(3)] and cells = register_waiter_frame [OF assms(3)]
  have old: "n < next_waiter_id (tok_registry w) \<and> a < length (tok_cells w)"
    if "registration_of (F j) = Some (n, a)" for j n a
    using assms(1) that by (simp add: owner_inv_def)
  let ?F = "F(i := Enlisted (tcr_waiter_id g) (tcr_waiter g))"
  have new: "registration_of (?F j) = Some (n, a) \<longleftrightarrow>
      (j = i \<and> n = tcr_waiter_id g \<and> a = tcr_waiter g) \<or> (j \<noteq> i \<and> registration_of (F j) = Some (n, a))"
    for j n a by auto
  have "\<exists>j. registration_of (?F j) = Some e" if e: "e \<in> set (tok_active w')" for e
  proof (cases "e = (tcr_waiter_id g, tcr_waiter g)")
    case True
    then show ?thesis by (intro exI [of _ i]) simp
  next
    case False
    then obtain j where "registration_of (F j) = Some e"
      using e reg(4) assms(1) unfolding owner_inv_def by auto
    then show ?thesis using assms(2) by (intro exI [of _ j]) auto
  qed
  moreover have "j = k" if "registration_of (?F j) = Some (n, a)" "registration_of (?F k) = Some (m, b)"
    "n = m \<or> a = b" for j k n a m b
  proof -
    have "j \<noteq> i \<Longrightarrow> k \<noteq> i \<Longrightarrow> j = k"
      using that assms(1) unfolding new owner_inv_def by blast
    moreover have "j = i \<longleftrightarrow> k = i"
      using that reg(1,2) old unfolding new by fastforce
    ultimately show ?thesis by blast
  qed
  moreover have "n < next_waiter_id (tok_registry w') \<and> a < length (tok_cells w')"
    if "registration_of (?F j) = Some (n, a)" for j n a
    using that [unfolded new] reg(1,2,3) cells old [of j n a] by fastforce
  ultimately show ?thesis unfolding owner_inv_def using reg(5) by blast
qed

lemma effect_owner:
  assumes "tok_effect P (F i) w \<phi>' w'" and "owner_inv F w"
  shows "owner_inv (F(i := \<phi>')) w'"
  using assms(1)
proof cases
  case registered
  then show ?thesis using owner_inv_register [OF assms(2)] by simp
next
  case (exhausted r)
  have "registry_inv (tok_registry w)" using assms(2) by (simp add: owner_inv_def)
  from register_waiter_failed(1) [OF this exhausted(3,4)] show ?thesis
    using exhausted assms(2) register_waiter_frame [OF exhausted(3)]
    by (intro owner_inv_shrink [OF assms(2)]) (auto simp: owner_inv_def tok_active_def)
next
  case (unregistered n a)
  have inv: "registry_inv (tok_registry w)" using assms(2) by (simp add: owner_inv_def)
  note drop = registration_drop_registry [OF inv, of "\<lparr>tcr_waiter_id = n, tcr_waiter = a\<rparr>"]
  have "registration_of (F i) = Some (n, a)" using unregistered(3) by auto
  then show ?thesis
    using drop unregistered by (intro owner_inv_shrink [OF assms(2)]) auto
next
  case (selected_one x m)
  note t = take_one_registry [OF selected_one(4)]
  show ?thesis
    using t selected_one(1,2,3) assms(2)
    by (intro owner_inv_shrink [OF assms(2)]) (auto simp: owner_inv_def dest: in_set_tl split: option.split)
next
  case (selected_all as m)
  note t = take_all_registry [OF selected_all(4)]
  show ?thesis
    using t selected_all assms(2) by (intro owner_inv_shrink [OF assms(2)]) (auto simp: owner_inv_def)
qed (rule owner_inv_frame [OF assms(2)];
  simp add: poll_lock_frame poll_notified_frame tokio_signal_def)+

text \<open>
  To keep the wake invariant it is enough that every expected wake of the new footprints is one of
  the old ones and that its three sources do not get lost.
\<close>

lemma wake_invI:
  assumes "wake_inv permit F w"
    and "\<And>j n a. expecting ((F(i := \<phi>')) j) = Some (n, a) \<Longrightarrow>
      expecting (F j) = Some (n, a) \<or> (n, a) \<in> set (tok_active w')"
    and "\<And>j n a. expecting ((F(i := \<phi>')) j) = Some (n, a) \<Longrightarrow> expecting (F j) = Some (n, a) \<Longrightarrow>
      (n, a) \<in> set (tok_active w) \<Longrightarrow> (n, a) \<in> set (tok_active w') \<or> a \<in> set (sending \<phi>')"
    and "\<And>j n a. expecting ((F(i := \<phi>')) j) = Some (n, a) \<Longrightarrow> expecting (F j) = Some (n, a) \<Longrightarrow>
      permit (tcw_signal (tok_cells w ! a)) \<or> a \<in> set (sending (F i)) \<Longrightarrow>
      permit (tcw_signal (tok_cells w' ! a)) \<or> a \<in> set (sending \<phi>')"
  shows "wake_inv permit (F(i := \<phi>')) w'"
proof -
  have "(n, a) \<in> set (tok_active w') \<or> (\<exists>j. a \<in> set (sending ((F(i := \<phi>')) j))) \<or>
      permit (tcw_signal (tok_cells w' ! a))"
    if e: "expecting ((F(i := \<phi>')) j) = Some (n, a)" for j n a
  proof (cases "expecting (F j) = Some (n, a)")
    case True
    have new: "a \<in> set (sending \<phi>') \<Longrightarrow> \<exists>j. a \<in> set (sending ((F(i := \<phi>')) j))"
      by (intro exI [of _ i]) simp
    have "(n, a) \<in> set (tok_active w) \<or> (\<exists>k. a \<in> set (sending (F k))) \<or>
        permit (tcw_signal (tok_cells w ! a))"
      using assms(1) True unfolding wake_inv_def by blast
    then consider "(n, a) \<in> set (tok_active w)"
      | "permit (tcw_signal (tok_cells w ! a)) \<or> a \<in> set (sending (F i))"
      | k where "k \<noteq> i" "a \<in> set (sending (F k))" by metis
    then show ?thesis
    proof cases
      case 1
      then show ?thesis using assms(3) [OF e True] new by blast
    next
      case 2
      then show ?thesis using assms(4) [OF e True] new by blast
    next
      case 3
      then have "\<exists>j. a \<in> set (sending ((F(i := \<phi>')) j))" by (intro exI [of _ k]) simp
      then show ?thesis by blast
    qed
  next
    case False
    then show ?thesis using assms(2) [OF e] by blast
  qed
  then show ?thesis unfolding wake_inv_def by blast
qed

lemma wake_inv_frame:
  assumes "wake_inv permit F w" and "expecting \<phi>' = expecting (F i) \<or> expecting \<phi>' = None"
    and "set (sending (F i)) \<subseteq> set (sending \<phi>')"
    and "tok_waiters w' = tok_waiters w" and "tok_cells w' = tok_cells w"
  shows "wake_inv permit (F(i := \<phi>')) w'"
  using assms(2,3) registry_congs(2) [OF assms(4)] assms(5)
  by (intro wake_invI [OF assms(1)]) (auto split: if_splits)

text \<open>Different futures expect wakes under different identifiers and of different waiters.\<close>

lemma expecting_bounds:
  assumes "owner_inv F w" and "expecting (F j) = Some (n, a)"
  shows "a < length (tok_cells w)" and "registration_of (F i) = Some (m, b) \<Longrightarrow> j \<noteq> i \<Longrightarrow> n \<noteq> m \<and> a \<noteq> b"
proof -
  have reg: "registration_of (F j) = Some (n, a)" using assms(2) by (rule expecting_registration)
  then show "a < length (tok_cells w)" using assms(1) unfolding owner_inv_def by blast
  show "n \<noteq> m \<and> a \<noteq> b" if "registration_of (F i) = Some (m, b)" "j \<noteq> i"
    using assms(1) reg that unfolding owner_inv_def by metis
qed

lemma effect_wake:
  assumes "tok_effect P (F i) w \<phi>' w'" and "owner_inv F w" and "wake_inv permit F w"
  shows "wake_inv permit (F(i := \<phi>')) w'"
  using assms(1)
proof cases
  case (registered g)
  have inv: "registry_inv (tok_registry w)" using assms(2) by (simp add: owner_inv_def)
  note reg = register_waiter_Return(4) [OF inv registered(3)] register_waiter_frame [OF registered(3)]
  show ?thesis
    using reg registered(1,2) expecting_bounds(1) [OF assms(2)]
    by (intro wake_invI [OF assms(3)]) (auto simp: nth_append split: if_splits)
next
  case (exhausted r)
  have inv: "registry_inv (tok_registry w)" using assms(2) by (simp add: owner_inv_def)
  note reg = register_waiter_failed(1) [OF inv exhausted(3,4)] register_waiter_frame [OF exhausted(3)]
  show ?thesis
    using reg exhausted(1,2) expecting_bounds(1) [OF assms(2)]
    by (intro wake_invI [OF assms(3)]) (auto simp: nth_append tok_active_def split: if_splits)
next
  case (unnotified a m)
  have own: "registration_of (F i) = Some (m, a)" using unnotified(1) by simp
  have np: "\<not> permit (tcw_signal (tok_cells w ! a))"
    using poll_notified_permit [OF unnotified(3)] by simp
  note frame = poll_notified_frame [OF unnotified(3)]
  have act: "tok_active w' = tok_active w" using frame registry_congs(2) [of w' w] by blast
  show ?thesis
  proof (rule wake_invI [OF assms(3)])
    fix j n b
    assume e: "expecting (F j) = Some (n, b)"
      and src: "permit (tcw_signal (tok_cells w ! b)) \<or> b \<in> set (sending (F i))"
    then have "b \<noteq> a" using np unnotified(1) by auto
    then show "permit (tcw_signal (tok_cells w' ! b)) \<or> b \<in> set (sending \<phi>')"
      using src frame unnotified(1) by auto
  qed (use act unnotified(1,2) in \<open>auto split: if_splits\<close>)
next
  case (notified a m)
  have own: "registration_of (F i) = Some (m, a)" using notified(1) by simp
  note frame = poll_notified_frame [OF notified(3)]
  have act: "tok_active w' = tok_active w" using frame registry_congs(2) [of w' w] by blast
  show ?thesis
  proof (rule wake_invI [OF assms(3)])
    fix j n b
    assume e': "expecting ((F(i := \<phi>')) j) = Some (n, b)" and e: "expecting (F j) = Some (n, b)"
      and src: "permit (tcw_signal (tok_cells w ! b)) \<or> b \<in> set (sending (F i))"
    then have "j \<noteq> i" using notified(2) by auto
    then have "b \<noteq> a" using expecting_bounds(2) [OF assms(2) e own] by simp
    then show "permit (tcw_signal (tok_cells w' ! b)) \<or> b \<in> set (sending \<phi>')"
      using src frame notified(1) by auto
  qed (use act notified(1,2) in \<open>auto split: if_splits\<close>)
next
  case (unregistered m a)
  have inv: "registry_inv (tok_registry w)" using assms(2) by (simp add: owner_inv_def)
  have own: "registration_of (F i) = Some (m, a)" using unregistered(3) by auto
  note drop = registration_drop_registry(1) [OF inv, of "\<lparr>tcr_waiter_id = m, tcr_waiter = a\<rparr>"]
  show ?thesis
  proof (rule wake_invI [OF assms(3)])
    fix j n b
    assume e': "expecting ((F(i := \<phi>')) j) = Some (n, b)" and e: "expecting (F j) = Some (n, b)"
      and src: "(n, b) \<in> set (tok_active w)"
    then have "j \<noteq> i" using unregistered(1) by auto
    then have "n \<noteq> m" using expecting_bounds(2) [OF assms(2) e own] by simp
    then show "(n, b) \<in> set (tok_active w') \<or> b \<in> set (sending \<phi>')"
      using src drop unregistered(2) by simp
  qed (use unregistered in \<open>auto split: if_splits\<close>)
next
  case (selected_one x m)
  note t = take_one_registry(1,2) [OF selected_one(4)]
  show ?thesis
    using t selected_one(1,2,3)
    by (intro wake_invI [OF assms(3)]) (cases "tok_active w"; auto split: if_splits)+
next
  case (selected_all as m)
  note t = take_all_registry(1,2) [OF selected_all(4)]
  show ?thesis
    using t selected_all(1,2,3)
    by (intro wake_invI [OF assms(3)]) (auto intro: rev_image_eqI split: if_splits)
next
  case (signalled a as)
  show ?thesis
    using signalled expecting_bounds(1) [OF assms(2)]
    by (intro wake_invI [OF assms(3)])
      (auto simp: registry_congs(2) [of "tokio_signal P a w" w] signal_permit split: if_splits)
qed (rule wake_inv_frame [OF assms(3)]; simp add: poll_lock_frame)+

end

end
