(* ===== verification/Tokio_Futures.thy ===== *)
theory Tokio_Futures
  imports Tokio_Effects
begin

text \<open>
  The contract of a future of the monitor: every step and the destructor are effects on its
  footprint, and it is suspended only where it can be dropped. Every method of the Tokio monitor
  meets it.
\<close>

fun stepped_foot :: "('l \<Rightarrow> foot) \<Rightarrow> ('l, 'a) stepped \<Rightarrow> foot" where
  "stepped_foot foot (Go l) = foot l"
| "stepped_foot foot (Pend l) = foot l"
| "stepped_foot foot (Fin r) = Free"

locale tokio_future =
  fixes P :: "('m, 't, 'q, 'n, 'k, 'i, 'f, 'e) tokio_platform"
    and step :: "nat \<Rightarrow> 'l \<Rightarrow> ('m, 'n, 'k) TokioMonitor \<Rightarrow> ('l, 'a) stepped \<times> ('m, 'n, 'k) TokioMonitor"
    and dropped :: "'l \<Rightarrow> ('m, 'n, 'k) TokioMonitor \<Rightarrow> ('m, 'n, 'k) TokioMonitor"
    and foot :: "'l \<Rightarrow> foot"
    and awaiting :: "'l \<Rightarrow> bool"
  assumes step_effect: "step i l w = (r, w') \<Longrightarrow> tok_effect P (foot l) w (stepped_foot foot r) w'"
    and pend_awaiting: "step i l w = (Pend l', w') \<Longrightarrow> awaiting l'"
    and drop_effect: "awaiting l \<Longrightarrow> tok_effect P (foot l) w Free (dropped l w)"
begin

text \<open>A future that awaits this one as a part, in the same footprint, makes its steps.\<close>

lemma await_effect:
  assumes "apfst (await_step inside k) (step i l w) = (r, w')"
    and "\<And>l. outer_foot (inside l) = foot l" and "\<And>x. stepped_foot outer_foot (k x) = Free"
  shows "tok_effect P (foot l) w (stepped_foot outer_foot r) w'"
proof -
  obtain x where x: "step i l w = (x, w')" "r = await_step inside k x"
    using assms(1) by (cases "step i l w") auto
  then have "stepped_foot outer_foot r = stepped_foot foot x"
    using assms(2,3) by (cases x) simp_all
  then show ?thesis using step_effect [OF x(1)] by simp
qed

lemma await_pend:
  assumes "apfst (await_step inside k) (step i l w) = (Pend l', w')" and "\<And>x l. k x \<noteq> Pend l"
  shows "\<exists>m. l' = inside m \<and> awaiting m"
proof -
  obtain x where x: "step i l w = (x, w')" "Pend l' = await_step inside k x"
    using assms(1) by (cases "step i l w") auto
  then show ?thesis using pend_awaiting [of i l w _ w'] assms(2) by (cases x) (auto, metis)
qed

end

lemmas effect_rules =
  tok_effect.idle tok_effect.queued tok_effect.cancelled tok_effect.granted tok_effect.written
  tok_effect.unlocked tok_effect.released tok_effect.unnotified tok_effect.notified
  tok_effect.signalled tok_effect.sent tok_effect.selected_all tok_effect.selected_one
  tok_effect.exhausted

section \<open>Notifications\<close>

fun notify_foot :: "notify_pc \<Rightarrow> foot" where
  "notify_foot Notify_select = Free"
| "notify_foot (Notify_wake as) = Sending as"

definition notify_awaiting :: "notify_pc \<Rightarrow> bool" where
  "notify_awaiting pc \<longleftrightarrow> pc = Notify_select"

interpretation notify_one: tokio_future P "\<lambda>_. tokio_notify_one P" "\<lambda>_ w. w" notify_foot notify_awaiting
  for P
  by unfold_locales
    (auto simp: tokio_notify_one_def notify_awaiting_def split: notify_pc.splits list.splits prod.splits
      intro: effect_rules)

interpretation notify_all: tokio_future P "\<lambda>_. tokio_notify_all P" "\<lambda>_ w. w" notify_foot notify_awaiting
  for P
  by unfold_locales
    (auto simp: tokio_notify_all_def notify_awaiting_def split: notify_pc.splits list.splits prod.splits
      intro: effect_rules)

section \<open>Access\<close>

fun access_foot :: "('q, 'r) access_pc \<Rightarrow> foot" where
  "access_foot (Acc_lock q) = Free"
| "access_foot _ = Guarded"

fun access_awaiting :: "('q, 'r) access_pc \<Rightarrow> bool" where
  "access_awaiting (Acc_lock q) = True"
| "access_awaiting _ = False"

lemma access_drop_effect:
  "access_awaiting l \<Longrightarrow> tok_effect P (access_foot l) w Free (access_drop P l w)"
  by (cases l) (auto intro: effect_rules)

interpretation writing: tokio_future P "\<lambda>_. tokio_with_write_async P f" "access_drop P" access_foot access_awaiting
  for P f
  by unfold_locales
    (auto simp: tokio_with_write_async_def access_drop_effect intro: effect_rules
      split: access_pc.splits lock_poll.splits prod.splits)

interpretation reading: tokio_future P "\<lambda>_. tokio_with_read_async P f" "access_drop P" access_foot access_awaiting
  for P f
  by unfold_locales
    (auto simp: tokio_with_read_async_def access_drop_effect Let_def intro: effect_rules
      split: access_pc.splits lock_poll.splits prod.splits)

fun write_notify_foot :: "('q, 'r) write_notify_pc \<Rightarrow> foot" where
  "write_notify_foot (Wn_write a) = access_foot a"
| "write_notify_foot (Wn_notify r n) = notify_foot n"

fun write_notify_awaiting :: "('q, 'r) write_notify_pc \<Rightarrow> bool" where
  "write_notify_awaiting (Wn_write a) = access_awaiting a"
| "write_notify_awaiting (Wn_notify r n) = False"

lemma write_notify_drop_effect:
  "write_notify_awaiting l \<Longrightarrow> tok_effect P (write_notify_foot l) w Free (write_notify_drop P l w)"
  by (cases l) (auto intro: access_drop_effect)

lemma after_write_simps [simp]:
  "stepped_foot write_notify_foot (after_write x) = Free" "after_write x \<noteq> Pend l"
  by (cases x; simp add: after_write_def)+

interpretation write_one: tokio_future P "\<lambda>_. tokio_with_write_notify_one_async P f"
  "write_notify_drop P" write_notify_foot write_notify_awaiting for P f
proof (unfold_locales, goal_cases)
  case (1 i l w r w')
  then show ?case
    by (cases l)
      (auto simp: tokio_with_write_notify_one_async_def intro!: writing.await_effect notify_one.await_effect)
next
  case (2 i l w l' w')
  then show ?case
    by (cases l) (auto simp: tokio_with_write_notify_one_async_def tokio_notify_one_def
        dest!: writing.await_pend split: notify_pc.splits list.splits prod.splits)
next
  case 3
  then show ?case by (rule write_notify_drop_effect)
qed

interpretation write_all: tokio_future P "\<lambda>_. tokio_with_write_notify_all_async P f"
  "write_notify_drop P" write_notify_foot write_notify_awaiting for P f
proof (unfold_locales, goal_cases)
  case (1 i l w r w')
  then show ?case
    by (cases l)
      (auto simp: tokio_with_write_notify_all_async_def intro!: writing.await_effect notify_all.await_effect)
next
  case (2 i l w l' w')
  then show ?case
    by (cases l) (auto simp: tokio_with_write_notify_all_async_def tokio_notify_all_def
        dest!: writing.await_pend split: notify_pc.splits list.splits prod.splits)
next
  case 3
  then show ?case by (rule write_notify_drop_effect)
qed

section \<open>The untimed wait\<close>

fun wait_foot :: "('q, 'p, 'r) wait_pc \<Rightarrow> foot" where
  "wait_foot (Wt_lock q p) = Free"
| "wait_foot (Wt_release g p) = Enlisted (tcr_waiter_id g) (tcr_waiter g)"
| "wait_foot (Wt_notified g p) = Listening (tcr_waiter_id g) (tcr_waiter g)"
| "wait_foot (Wt_unregister g p) = Leaving (tcr_waiter_id g) (tcr_waiter g)"
| "wait_foot _ = Guarded"

fun wait_awaiting :: "('q, 'p, 'r) wait_pc \<Rightarrow> bool" where
  "wait_awaiting (Wt_lock q p) = True"
| "wait_awaiting (Wt_notified g p) = True"
| "wait_awaiting _ = False"

lemma unregistered_drop:
  "\<phi> = Listening (tcr_waiter_id g) (tcr_waiter g) \<or> \<phi> = Leaving (tcr_waiter_id g) (tcr_waiter g) \<Longrightarrow>
   tok_effect P \<phi> w Free (tokio_registration_drop g w)"
  using tok_effect.unregistered [of \<phi> "tcr_waiter_id g" "tcr_waiter g" P w]
  by (simp add: tokio_registration_drop_def)

lemma registered_effect:
  assumes "tokio_register_waiter P w = (r, w')"
    and "\<phi>' = (case r of Return g \<Rightarrow> Enlisted (tcr_waiter_id g) (tcr_waiter g) | _ \<Rightarrow> Guarded)"
  shows "tok_effect P Guarded w \<phi>' w'"
  using tok_effect.registered [of P w _ w'] tok_effect.exhausted [of P w r w'] assms
  by (cases r) auto

interpretation waiting: tokio_future P "\<lambda>_. tokio_wait_while_async P predicate action" "wait_drop P"
  wait_foot wait_awaiting for P predicate action
proof (unfold_locales, goal_cases)
  case (1 i l w r w')
  show ?case
  proof (cases l)
    case (Wt_register p)
    obtain x v where x: "tokio_register_waiter P w = (x, v)" by fastforce
    show ?thesis using registered_effect [OF x refl] 1 x Wt_register
      by (cases x) (auto simp: tokio_wait_while_async_def)
  next
    case (Wt_notified g p)
    then show ?thesis using 1
      by (auto simp: tokio_wait_while_async_def tok_effect.notified tok_effect.unnotified
          split: prod.splits if_splits)
  next
    case (Wt_unregister g p)
    then show ?thesis using 1 by (auto simp: tokio_wait_while_async_def intro: unregistered_drop)
  qed (use 1 in \<open>auto simp: tokio_wait_while_async_def intro: effect_rules
      split: lock_poll.splits prod.splits outcome.splits bool.splits\<close>)
next
  case (2 i l w l' w')
  then show ?case
    by (auto simp: tokio_wait_while_async_def split: wait_pc.splits lock_poll.splits prod.splits
        outcome.splits if_splits)
next
  case (3 l w)
  then show ?case by (cases l) (auto intro: effect_rules unregistered_drop)
qed

section \<open>The timed waits\<close>

fun loop_foot :: "('q, 'p, 'f, 'e, 'r) loop_pc \<Rightarrow> foot" where
  "loop_foot (Lp_release g f p) = Enlisted (tcr_waiter_id g) (tcr_waiter g)"
| "loop_foot (Lp_wait g s p) = Listening (tcr_waiter_id g) (tcr_waiter g)"
| "loop_foot (Lp_unregister g status f p) = Leaving (tcr_waiter_id g) (tcr_waiter g)"
| "loop_foot (Lp_lock q status f p) = Free"
| "loop_foot _ = Guarded"

text \<open>Between its two polls the combined wait is running; it is suspended before the next poll.\<close>

fun loop_awaiting :: "('q, 'p, 'f, 'e, 'r) loop_pc \<Rightarrow> bool" where
  "loop_awaiting (Lp_wait g s p) = True"
| "loop_awaiting (Lp_lock q status f p) = True"
| "loop_awaiting _ = False"

lemma poll_deadline_moves:
  "tokio_poll_deadline P wk f w = (r, f', w') \<Longrightarrow>
   \<exists>k. clock_moves (tp_timer P) (tok_timer w) k \<and> w' = w\<lparr>tok_timer := k\<rparr>"
  using clock_moves.poll [of "tp_timer P" "tok_timer w" wk f]
  by (auto simp: tokio_poll_deadline_def split: prod.splits)

lemma timer_at_moves:
  "tokio_timer_at P i w = (r, w') \<Longrightarrow>
   \<exists>k. clock_moves (tp_timer P) (tok_timer w) k \<and> w' = w\<lparr>tok_timer := k\<rparr>"
  using clock_moves.at [of "tp_timer P" "tok_timer w" i]
  by (auto simp: tokio_timer_at_def split: prod.splits)

lemma deadline_reached_moves:
  "tokio_deadline_reached P wk f w = (r, f', w') \<Longrightarrow>
   \<exists>k. clock_moves (tp_timer P) (tok_timer w) k \<and> w' = w\<lparr>tok_timer := k\<rparr>"
  by (auto simp: tokio_deadline_reached_def dest: poll_deadline_moves
      split: prod.splits poll.splits sum.splits)

lemma timer_effect:
  assumes "\<exists>k. clock_moves (tp_timer P) (tok_timer w) k \<and> w' = w\<lparr>tok_timer := k\<rparr>"
  shows "tok_effect P \<phi> w \<phi> w'" and "tok_effect P (Listening i a) w (Leaving i a) w'"
  using assms tok_effect.timer [of P w] tok_effect.expired [of P w] by auto

lemma signal_wait_effect:
  assumes "wait_until_signalled_or_deadline P wk g s w = (r, w')"
  shows "tok_effect P (Listening (tcr_waiter_id g) (tcr_waiter g)) w
    (case r of Fin _ \<Rightarrow> Leaving (tcr_waiter_id g) (tcr_waiter g)
             | _ \<Rightarrow> Listening (tcr_waiter_id g) (tcr_waiter g)) w'"
    and "r = Fin x \<Longrightarrow> \<exists>status f. x = Return (status, f)"
  using assms
  by (auto simp: wait_until_signalled_or_deadline_def intro: effect_rules
      dest: poll_deadline_moves [THEN timer_effect(1)] poll_deadline_moves [THEN timer_effect(2)]
      split: signal_pc.splits prod.splits poll.splits sum.splits if_splits)

interpretation timed_loop: tokio_future P "\<lambda>i. timed_loop_step P (Waker_of i) predicate action"
  "loop_drop P" loop_foot loop_awaiting for P predicate action
proof (unfold_locales, goal_cases)
  case (1 i l w r w')
  show ?case
  proof (cases l)
    case (Lp_register f p)
    obtain x v where x: "tokio_register_waiter P w = (x, v)" by fastforce
    show ?thesis using registered_effect [OF x refl] 1 x Lp_register
      by (cases x) (auto simp: timed_loop_step_def)
  next
    case (Lp_wait g s p)
    then obtain x where x: "wait_until_signalled_or_deadline P (Waker_of i) g s w = (x, w')"
      "r = await_step (\<lambda>s. Lp_wait g s p) (after_wait g p) x"
      using 1 by (cases "wait_until_signalled_or_deadline P (Waker_of i) g s w") (auto simp: timed_loop_step_def)
    then show ?thesis
      using signal_wait_effect [OF x(1)] Lp_wait by (cases x) (auto simp: after_wait_def)
  next
    case (Lp_unregister g status f p)
    then show ?thesis using 1 by (auto simp: timed_loop_step_def intro: unregistered_drop)
  next
    case (Lp_probe f p)
    then show ?thesis using 1
      by (auto simp: timed_loop_step_def dest: deadline_reached_moves [THEN timer_effect(1)]
          split: prod.splits sum.splits)
  qed (use 1 in \<open>auto simp: timed_loop_step_def intro: effect_rules
      split: lock_poll.splits prod.splits outcome.splits sum.splits\<close>)
next
  case (2 i l w l' w')
  then show ?case
    by (cases l) (auto simp: timed_loop_step_def wait_until_signalled_or_deadline_def after_wait_def
        split: lock_poll.splits prod.splits outcome.splits sum.splits signal_pc.splits poll.splits if_splits)
next
  case (3 l w)
  then show ?case by (cases l) (auto intro: effect_rules unregistered_drop)
qed

fun deadline_foot :: "('q, 'p, 'f, 'e, 'r) deadline_pc \<Rightarrow> foot" where
  "deadline_foot (Dl_lock q p) = Free"
| "deadline_foot (Dl_loop l) = loop_foot l"
| "deadline_foot _ = Guarded"

fun deadline_awaiting :: "('q, 'p, 'f, 'e, 'r) deadline_pc \<Rightarrow> bool" where
  "deadline_awaiting (Dl_lock q p) = True"
| "deadline_awaiting (Dl_loop l) = loop_awaiting l"
| "deadline_awaiting _ = False"

interpretation deadline: tokio_future P
  "\<lambda>i. tokio_wait_while_with_deadline_async P (Waker_of i) deadline_at predicate action"
  "deadline_drop P" deadline_foot deadline_awaiting for P deadline_at predicate action
proof (unfold_locales, goal_cases)
  case (1 i l w r w')
  show ?case
  proof (cases l)
    case (Dl_loop p)
    then show ?thesis using 1
      by (auto simp: tokio_wait_while_with_deadline_async_def intro!: timed_loop.await_effect)
  next
    case (Dl_arm p)
    then show ?thesis using 1
      by (auto simp: tokio_wait_while_with_deadline_async_def
          dest: timer_at_moves [THEN timer_effect(1)] split: prod.splits sum.splits)
  next
    case (Dl_probe f p)
    then show ?thesis using 1
      by (auto simp: tokio_wait_while_with_deadline_async_def
          dest: deadline_reached_moves [THEN timer_effect(1)] split: prod.splits sum.splits bool.splits)
  qed (use 1 in \<open>auto simp: tokio_wait_while_with_deadline_async_def intro: effect_rules
      split: lock_poll.splits prod.splits outcome.splits\<close>)
next
  case (2 i l w l' w')
  then show ?case
    by (cases l) (auto simp: tokio_wait_while_with_deadline_async_def dest!: timed_loop.await_pend
        split: lock_poll.splits prod.splits outcome.splits sum.splits bool.splits)
next
  case (3 l w)
  then show ?case by (cases l) (auto intro: effect_rules timed_loop.drop_effect)
qed

fun for_foot :: "('q, 'p, 'i, 'f, 'e, 'r) for_pc \<Rightarrow> foot" where
  "for_foot (Fo_lock q p) = Free"
| "for_foot (Fo_loop l) = loop_foot l"
| "for_foot _ = Guarded"

fun for_awaiting :: "('q, 'p, 'i, 'f, 'e, 'r) for_pc \<Rightarrow> bool" where
  "for_awaiting (Fo_lock q p) = True"
| "for_awaiting (Fo_loop l) = loop_awaiting l"
| "for_awaiting _ = False"

interpretation timeout: tokio_future P
  "\<lambda>i. tokio_wait_while_for_async P (Waker_of i) limit predicate action"
  "for_drop P" for_foot for_awaiting for P limit predicate action
proof (unfold_locales, goal_cases)
  case (1 i l w r w')
  show ?case
  proof (cases l)
    case (Fo_loop p)
    then show ?thesis using 1
      by (auto simp: tokio_wait_while_for_async_def intro!: timed_loop.await_effect)
  next
    case (Fo_arm d p)
    then show ?thesis using 1
      by (auto simp: tokio_wait_while_for_async_def
          dest: timer_at_moves [THEN timer_effect(1)] split: prod.splits sum.splits)
  qed (use 1 in \<open>auto simp: tokio_wait_while_for_async_def intro: effect_rules
      split: lock_poll.splits prod.splits outcome.splits sum.splits\<close>)
next
  case (2 i l w l' w')
  then show ?case
    by (cases l) (auto simp: tokio_wait_while_for_async_def dest!: timed_loop.await_pend
        split: lock_poll.splits prod.splits outcome.splits sum.splits)
next
  case (3 l w)
  then show ?case by (cases l) (auto intro: effect_rules timed_loop.drop_effect)
qed

end
