(* ===== verification/Tokio_System.thy ===== *)
theory Tokio_System
  imports Tokio_Futures
begin

text \<open>
  Any number of tasks that use one Tokio monitor. A task is one call of a method; the executor
  polls it, it makes steps, and while it is suspended it may be cancelled. Steps of different tasks
  interleave in any order, so the model covers a runtime with any number of worker threads.
\<close>

section \<open>Tasks\<close>

datatype ('t, 'q, 'p, 'i, 'f, 'e, 'r) task =
    T_read "'t \<Rightarrow> 'r outcome" "('q, 'r) access_pc"
  | T_write "('t, 'r) action" "('q, 'r) access_pc"
  | T_write_one "('t, 'r) action" "('q, 'r) write_notify_pc"
  | T_write_all "('t, 'r) action" "('q, 'r) write_notify_pc"
  | T_wait "('p, 't) predicate" "('t, 'r) action" "('q, 'p, 'r) wait_pc"
  | T_deadline 'i "('p, 't) predicate" "('t, 'r) action" "('q, 'p, 'f, 'e, 'r) deadline_pc"
  | T_for duration "('p, 't) predicate" "('t, 'r) action" "('q, 'p, 'i, 'f, 'e, 'r) for_pc"
  | T_notify_one notify_pc
  | T_notify_all notify_pc

datatype ('e, 'r) task_result = Value 'r | Timed "'e + 'r WaitTimeoutResult" | Notified

definition task_step ::
  "('m, 't, 'q, 'n, 'k, 'i, 'f, 'e) tokio_platform \<Rightarrow> nat \<Rightarrow> ('t, 'q, 'p, 'i, 'f, 'e, 'r) task \<Rightarrow>
   ('m, 'n, 'k) TokioMonitor \<Rightarrow>
   (('t, 'q, 'p, 'i, 'f, 'e, 'r) task, ('e, 'r) task_result) stepped \<times> ('m, 'n, 'k) TokioMonitor"
where
  "task_step P i task w = (case task of
       T_read f a \<Rightarrow> apfst (await_step (T_read f) (\<lambda>r. Fin (map_outcome Value r)))
         (tokio_with_read_async P f a w)
     | T_write f a \<Rightarrow> apfst (await_step (T_write f) (\<lambda>r. Fin (map_outcome Value r)))
         (tokio_with_write_async P f a w)
     | T_write_one f a \<Rightarrow> apfst (await_step (T_write_one f) (\<lambda>r. Fin (map_outcome Value r)))
         (tokio_with_write_notify_one_async P f a w)
     | T_write_all f a \<Rightarrow> apfst (await_step (T_write_all f) (\<lambda>r. Fin (map_outcome Value r)))
         (tokio_with_write_notify_all_async P f a w)
     | T_wait predicate action a \<Rightarrow>
         apfst (await_step (T_wait predicate action) (\<lambda>r. Fin (map_outcome Value r)))
           (tokio_wait_while_async P predicate action a w)
     | T_deadline deadline predicate action a \<Rightarrow>
         apfst (await_step (T_deadline deadline predicate action) (\<lambda>r. Fin (map_outcome Timed r)))
           (tokio_wait_while_with_deadline_async P (Waker_of i) deadline predicate action a w)
     | T_for limit predicate action a \<Rightarrow>
         apfst (await_step (T_for limit predicate action) (\<lambda>r. Fin (map_outcome Timed r)))
           (tokio_wait_while_for_async P (Waker_of i) limit predicate action a w)
     | T_notify_one n \<Rightarrow> apfst (await_step T_notify_one (\<lambda>r. Fin (map_outcome (\<lambda>_. Notified) r)))
         (tokio_notify_one P n w)
     | T_notify_all n \<Rightarrow> apfst (await_step T_notify_all (\<lambda>r. Fin (map_outcome (\<lambda>_. Notified) r)))
         (tokio_notify_all P n w))"

fun task_drop ::
  "('m, 't, 'q, 'n, 'k, 'i, 'f, 'e) tokio_platform \<Rightarrow> ('t, 'q, 'p, 'i, 'f, 'e, 'r) task \<Rightarrow>
   ('m, 'n, 'k) TokioMonitor \<Rightarrow> ('m, 'n, 'k) TokioMonitor"
where
  "task_drop P (T_read f a) w = access_drop P a w"
| "task_drop P (T_write f a) w = access_drop P a w"
| "task_drop P (T_write_one f a) w = write_notify_drop P a w"
| "task_drop P (T_write_all f a) w = write_notify_drop P a w"
| "task_drop P (T_wait predicate action a) w = wait_drop P a w"
| "task_drop P (T_deadline deadline predicate action a) w = deadline_drop P a w"
| "task_drop P (T_for limit predicate action a) w = for_drop P a w"
| "task_drop P (T_notify_one n) w = w"
| "task_drop P (T_notify_all n) w = w"

text \<open>A call that has not been polled yet; futures are lazy.\<close>

inductive task_start :: "('t, 'q, 'p, 'i, 'f, 'e, 'r) task \<Rightarrow> bool" where
  "task_start (T_read f (Acc_lock None))"
| "task_start (T_write f (Acc_lock None))"
| "task_start (T_write_one f (Wn_write (Acc_lock None)))"
| "task_start (T_write_all f (Wn_write (Acc_lock None)))"
| "task_start (T_wait predicate action (Wt_lock None p))"
| "task_start (T_deadline deadline predicate action (Dl_lock None p))"
| "task_start (T_for limit predicate action (Fo_lock None p))"
| "task_start (T_notify_one Notify_select)"
| "task_start (T_notify_all Notify_select)"

fun task_foot :: "('t, 'q, 'p, 'i, 'f, 'e, 'r) task \<Rightarrow> foot" where
  "task_foot (T_read f a) = access_foot a"
| "task_foot (T_write f a) = access_foot a"
| "task_foot (T_write_one f a) = write_notify_foot a"
| "task_foot (T_write_all f a) = write_notify_foot a"
| "task_foot (T_wait predicate action a) = wait_foot a"
| "task_foot (T_deadline deadline predicate action a) = deadline_foot a"
| "task_foot (T_for limit predicate action a) = for_foot a"
| "task_foot (T_notify_one n) = notify_foot n"
| "task_foot (T_notify_all n) = notify_foot n"

fun task_awaiting :: "('t, 'q, 'p, 'i, 'f, 'e, 'r) task \<Rightarrow> bool" where
  "task_awaiting (T_read f a) = access_awaiting a"
| "task_awaiting (T_write f a) = access_awaiting a"
| "task_awaiting (T_write_one f a) = write_notify_awaiting a"
| "task_awaiting (T_write_all f a) = write_notify_awaiting a"
| "task_awaiting (T_wait predicate action a) = wait_awaiting a"
| "task_awaiting (T_deadline deadline predicate action a) = deadline_awaiting a"
| "task_awaiting (T_for limit predicate action a) = for_awaiting a"
| "task_awaiting (T_notify_one n) = notify_awaiting n"
| "task_awaiting (T_notify_all n) = notify_awaiting n"

lemmas future_await_effects =
  reading.await_effect writing.await_effect write_one.await_effect write_all.await_effect
  waiting.await_effect deadline.await_effect timeout.await_effect notify_one.await_effect
  notify_all.await_effect

lemmas future_await_pends =
  reading.await_pend writing.await_pend write_one.await_pend write_all.await_pend
  waiting.await_pend deadline.await_pend timeout.await_pend notify_one.await_pend
  notify_all.await_pend

lemmas future_drop_effects =
  access_drop_effect write_notify_drop_effect waiting.drop_effect deadline.drop_effect
  timeout.drop_effect notify_one.drop_effect

interpretation tasks: tokio_future P "task_step P" "task_drop P" task_foot task_awaiting for P
proof (unfold_locales, goal_cases)
  case (1 i l w r w')
  then show ?case 
    by (cases l) (simp_all add: task_step_def, (erule future_await_effects; simp)+)
next
  case (2 i l w l' w')
  then show ?case by (cases l) (auto simp: task_step_def dest!: future_await_pends)
next
  case (3 l w)
  then show ?case by (cases l) (auto intro: future_drop_effects)
qed

lemma task_start_awaiting: "task_start l \<Longrightarrow> task_awaiting l \<and> task_foot l = Free"
  by (erule task_start.cases) (simp_all add: notify_awaiting_def)

definition quiet :: "foot \<Rightarrow> bool" where
  "quiet \<phi> \<longleftrightarrow> \<not> holds_guard \<phi> \<and> sending \<phi> = []"

lemma access_quiet: "access_awaiting a \<Longrightarrow> quiet (access_foot a)"
  by (cases a) (simp_all add: quiet_def)

lemma loop_quiet: "loop_awaiting l \<Longrightarrow> quiet (loop_foot l)"
  by (cases l) (simp_all add: quiet_def)

lemma wait_quiet: "wait_awaiting l \<Longrightarrow> quiet (wait_foot l)"
  by (cases l) (simp_all add: quiet_def)

lemma notify_quiet: "notify_awaiting l \<Longrightarrow> quiet (notify_foot l)"
  by (cases l) (simp_all add: notify_awaiting_def quiet_def)

lemma write_notify_quiet: "write_notify_awaiting l \<Longrightarrow> quiet (write_notify_foot l)"
  by (cases l) (simp_all add: access_quiet)

lemma deadline_quiet: "deadline_awaiting l \<Longrightarrow> quiet (deadline_foot l)"
  by (cases l) (simp_all add: loop_quiet, simp add: quiet_def)

lemma for_quiet: "for_awaiting l \<Longrightarrow> quiet (for_foot l)"
  by (cases l) (simp_all add: loop_quiet, simp add: quiet_def)

lemmas future_quiet =
  access_quiet wait_quiet notify_quiet write_notify_quiet deadline_quiet for_quiet

lemma awaiting_quiet: "task_awaiting l \<Longrightarrow> quiet (task_foot l)"
  by (cases l) (simp_all add: future_quiet)

section \<open>The system\<close>

datatype ('l, 'a) slot = Vacant | Suspended 'l | Running 'l | Done "'a outcome"

record ('w, 'l, 'a) sys =
  sys_mon :: 'w
  sys_slots :: "nat \<Rightarrow> ('l, 'a) slot"

type_synonym ('m, 't, 'q, 'n, 'k, 'p, 'i, 'f, 'e, 'r) tokio_sys =
  "(('m, 'n, 'k) TokioMonitor, ('t, 'q, 'p, 'i, 'f, 'e, 'r) task, ('e, 'r) task_result) sys"

definition set_slot :: "nat \<Rightarrow> ('l, 'a) slot \<Rightarrow> 'w \<Rightarrow> ('w, 'l, 'a) sys \<Rightarrow> ('w, 'l, 'a) sys" where
  "set_slot i x w s = s\<lparr>sys_mon := w, sys_slots := (sys_slots s)(i := x)\<rparr>"

lemma set_slot_simps [simp]:
  "sys_mon (set_slot i x w s) = w" "sys_slots (set_slot i x w s) = (sys_slots s)(i := x)"
  by (simp_all add: set_slot_def)

inductive sys_step ::
  "('m, 't, 'q, 'n, 'k, 'i, 'f, 'e) tokio_platform \<Rightarrow>
   ('m, 't, 'q, 'n, 'k, 'p, 'i, 'f, 'e, 'r) tokio_sys \<Rightarrow>
   ('m, 't, 'q, 'n, 'k, 'p, 'i, 'f, 'e, 'r) tokio_sys \<Rightarrow> bool"
for P where
  spawn: "sys_slots s i = Vacant \<Longrightarrow> task_start l \<Longrightarrow>
    sys_step P s (set_slot i (Suspended l) (sys_mon s) s)"
| poll: "sys_slots s i = Suspended l \<Longrightarrow> sys_step P s (set_slot i (Running l) (sys_mon s) s)"
| go: "sys_slots s i = Running l \<Longrightarrow> task_step P i l (sys_mon s) = (Go l', w) \<Longrightarrow>
    sys_step P s (set_slot i (Running l') w s)"
| pend: "sys_slots s i = Running l \<Longrightarrow> task_step P i l (sys_mon s) = (Pend l', w) \<Longrightarrow>
    sys_step P s (set_slot i (Suspended l') w s)"
| fin: "sys_slots s i = Running l \<Longrightarrow> task_step P i l (sys_mon s) = (Fin r, w) \<Longrightarrow>
    sys_step P s (set_slot i (Done r) w s)"
| cancel: "sys_slots s i = Suspended l \<Longrightarrow>
    sys_step P s (set_slot i Vacant (task_drop P l (sys_mon s)) s)"
| tick: "sys_step P s (s\<lparr>sys_mon := (sys_mon s)
    \<lparr>tok_timer := fst (tm_tick (tp_timer P) (tok_timer (sys_mon s)))\<rparr>\<rparr>)"

definition sys_init ::
  "('m, 't, 'q, 'n, 'k, 'i, 'f, 'e) tokio_platform \<Rightarrow> 't \<Rightarrow> 'k \<Rightarrow>
   ('m, 't, 'q, 'n, 'k, 'p, 'i, 'f, 'e, 'r) tokio_sys"
where
  "sys_init P d k = \<lparr>sys_mon = tokio_with_timer P d k, sys_slots = (\<lambda>_. Vacant)\<rparr>"

inductive tok_reachable ::
  "('m, 't, 'q, 'n, 'k, 'i, 'f, 'e) tokio_platform \<Rightarrow> 't \<Rightarrow> 'k \<Rightarrow>
   ('m, 't, 'q, 'n, 'k, 'p, 'i, 'f, 'e, 'r) tokio_sys \<Rightarrow> bool"
for P d k where
  init: "tok_reachable P d k (sys_init P d k)"
| step: "tok_reachable P d k s \<Longrightarrow> sys_step P s s' \<Longrightarrow> tok_reachable P d k s'"

inductive_simps task_start_simps [simp]:
  "task_start (T_read f a)" "task_start (T_write f a)" "task_start (T_write_one f n)"
  "task_start (T_write_all f n)" "task_start (T_wait predicate action l)"
  "task_start (T_deadline deadline predicate action b)" "task_start (T_for limit predicate action c)"
  "task_start (T_notify_one e)" "task_start (T_notify_all e)"

section \<open>Schedules\<close>

text \<open>A schedule resolves the choices of the relation; running one is a computation.\<close>

datatype 'l sched_act = Spawn nat 'l | Poll nat | Advance nat | Cancel nat | Tick

definition sys_exec ::
  "('m, 't, 'q, 'n, 'k, 'i, 'f, 'e) tokio_platform \<Rightarrow> ('t, 'q, 'p, 'i, 'f, 'e, 'r) task sched_act \<Rightarrow>
   ('m, 't, 'q, 'n, 'k, 'p, 'i, 'f, 'e, 'r) tokio_sys \<Rightarrow>
   ('m, 't, 'q, 'n, 'k, 'p, 'i, 'f, 'e, 'r) tokio_sys option"
where
  "sys_exec P act s = (case act of
       Spawn i l \<Rightarrow> (case sys_slots s i of
           Vacant \<Rightarrow> if task_start l then Some (set_slot i (Suspended l) (sys_mon s) s) else None
         | _ \<Rightarrow> None)
     | Poll i \<Rightarrow> (case sys_slots s i of
           Suspended l \<Rightarrow> Some (set_slot i (Running l) (sys_mon s) s)
         | _ \<Rightarrow> None)
     | Advance i \<Rightarrow> (case sys_slots s i of
           Running l \<Rightarrow> (case task_step P i l (sys_mon s) of
               (Go l', w) \<Rightarrow> Some (set_slot i (Running l') w s)
             | (Pend l', w) \<Rightarrow> Some (set_slot i (Suspended l') w s)
             | (Fin r, w) \<Rightarrow> Some (set_slot i (Done r) w s))
         | _ \<Rightarrow> None)
     | Cancel i \<Rightarrow> (case sys_slots s i of
           Suspended l \<Rightarrow> Some (set_slot i Vacant (task_drop P l (sys_mon s)) s)
         | _ \<Rightarrow> None)
     | Tick \<Rightarrow> Some (s\<lparr>sys_mon := (sys_mon s)
         \<lparr>tok_timer := fst (tm_tick (tp_timer P) (tok_timer (sys_mon s)))\<rparr>\<rparr>))"

fun sys_run ::
  "('m, 't, 'q, 'n, 'k, 'i, 'f, 'e) tokio_platform \<Rightarrow> ('t, 'q, 'p, 'i, 'f, 'e, 'r) task sched_act list \<Rightarrow>
   ('m, 't, 'q, 'n, 'k, 'p, 'i, 'f, 'e, 'r) tokio_sys \<Rightarrow>
   ('m, 't, 'q, 'n, 'k, 'p, 'i, 'f, 'e, 'r) tokio_sys option"
where
  "sys_run P [] s = Some s"
| "sys_run P (act # acts) s = (case sys_exec P act s of None \<Rightarrow> None | Some s' \<Rightarrow> sys_run P acts s')"

lemma sys_exec_step: "sys_exec P act s = Some s' \<Longrightarrow> sys_step P s s'"
  by (cases act)
    (auto simp: sys_exec_def intro: sys_step.intros split: slot.splits prod.splits stepped.splits if_splits)

lemma sys_step_exec: "sys_step P s s' \<Longrightarrow> \<exists>act. sys_exec P act s = Some s'"
proof (induction rule: sys_step.induct)
  case (spawn s i l)
  then show ?case by (intro exI [of _ "Spawn i l"]) (simp add: sys_exec_def)
next
  case (poll s i l)
  then show ?case by (intro exI [of _ "Poll i"]) (simp add: sys_exec_def)
next
  case (go s i l l' w)
  then show ?case by (intro exI [of _ "Advance i"]) (simp add: sys_exec_def)
next
  case (pend s i l l' w)
  then show ?case by (intro exI [of _ "Advance i"]) (simp add: sys_exec_def)
next
  case (fin s i l r w)
  then show ?case by (intro exI [of _ "Advance i"]) (simp add: sys_exec_def)
next
  case (cancel s i l)
  then show ?case by (intro exI [of _ "Cancel i"]) (simp add: sys_exec_def)
next
  case (tick s)
  then show ?case by (intro exI [of _ Tick]) (simp add: sys_exec_def)
qed

lemma sys_run_steps: "sys_run P acts s = Some s' \<Longrightarrow> (sys_step P)\<^sup>*\<^sup>* s s'"
  by (induction acts arbitrary: s)
    (auto split: option.splits intro: converse_rtranclp_into_rtranclp sys_exec_step)

lemma reachable_steps:
  "(sys_step P)\<^sup>*\<^sup>* s s' \<Longrightarrow> tok_reachable P d k s \<Longrightarrow> tok_reachable P d k s'"
  by (induction rule: rtranclp_induct) (auto intro: tok_reachable.step)

text \<open>The reachable states are exactly those that schedules compute.\<close>

lemma sys_run_append:
  "sys_run P (as @ bs) s = (case sys_run P as s of None \<Rightarrow> None | Some s' \<Rightarrow> sys_run P bs s')"
  by (induction as arbitrary: s) (auto split: option.splits)

lemma reachable_iff_run:
  "tok_reachable P d k s \<longleftrightarrow> (\<exists>acts. sys_run P acts (sys_init P d k) = Some s)"
proof
  show "\<exists>acts. sys_run P acts (sys_init P d k) = Some s" if "tok_reachable P d k s"
    using that
  proof (induction rule: tok_reachable.induct)
    case init
    show ?case by (rule exI [of _ "[]"]) simp
  next
    case (step s s')
    then obtain acts act where "sys_run P acts (sys_init P d k) = Some s" "sys_exec P act s = Some s'"
      using sys_step_exec by metis
    then show ?case by (intro exI [of _ "acts @ [act]"]) (simp add: sys_run_append)
  qed
  show "tok_reachable P d k s" if "\<exists>acts. sys_run P acts (sys_init P d k) = Some s"
    using that sys_run_steps reachable_steps [OF _ tok_reachable.init] by metis
qed

end
