(* ===== verification/Tokio_Demo.thy ===== *)
theory Tokio_Demo
  imports Tokio_System Manual_Timer
begin

text \<open>
  A platform to run the Tokio monitor with: the standard mutex polled instead of blocked on, the
  latch of a blocking waiter as \<^verbatim>\<open>Notify\<close>, and the manual Timer. It meets the contract. The
  protected value is a counter; the demo waiter takes one from it when it is positive.
\<close>

definition demo_tokio ::
  "(nat mutex, nat, unit, BlockingConditionWaiter, manual_clock, nat, nat, string) tokio_platform"
where
  "demo_tokio = \<lparr>tp_mutex = std_tokio, tp_notify = latch_notify, tp_timer = manual_timer\<rparr>"

lemma demo_tokio_simps [simp]:
  "tp_mutex demo_tokio = std_tokio" "tp_notify demo_tokio = latch_notify"
  "tp_timer demo_tokio = manual_timer"
  by (simp_all add: demo_tokio_def)

interpretation demo: tokio_contract demo_tokio is_signalled
  by (simp add: tokio_contract_def std_tokio_mutex latch.notify_latch_axioms)

lemma demo_contract: "tokio_contract demo_tokio is_signalled"
  by (rule demo.tokio_contract_axioms)

type_synonym demo_task = "(nat, unit, unit, nat, nat, string, nat) task"

type_synonym demo_sys =
  "(nat mutex, nat, unit, BlockingConditionWaiter, manual_clock, unit, nat, nat, string, nat) tokio_sys"

definition demo_zero :: "(unit, nat) predicate" where
  "demo_zero = (\<lambda>p d. (Return (d = 0), p))"

definition demo_take_one :: "(nat, nat) action" where
  "demo_take_one = (\<lambda>d. (Return d, d - 1))"

definition demo_put :: "(nat, nat) action" where
  "demo_put = (\<lambda>d. (Return d, d + 1))"

definition demo_waiter :: demo_task where
  "demo_waiter = T_wait demo_zero demo_take_one (Wt_lock None ())"

definition demo_deadline_waiter :: demo_task where
  "demo_deadline_waiter = T_deadline 2 demo_zero demo_take_one (Dl_lock None ())"

definition demo_producer_task :: demo_task where
  "demo_producer_task = T_write_one demo_put (Wn_write (Acc_lock None))"

definition demo_init :: demo_sys where
  "demo_init = sys_init demo_tokio 0 manual_start"

lemma std_tokio_simps [simp]:
  "tk_poll_lock std_tokio q m = (if mx_locked m then (Queued (), m) else (Granted, m\<lparr>mx_locked := True\<rparr>))"
  "tk_new std_tokio = mutex_new" "tk_guarded std_tokio = mx_locked" "tk_cancel std_tokio p m = m"
  "tk_unlock std_tokio m = mutex_guard_drop False m" "tk_data std_tokio = mx_data"
  "tk_set std_tokio d m = m\<lparr>mx_data := d\<rparr>"
  by (simp_all add: std_tokio_def mutex_lock_def)

lemma latch_notify_simps [simp]:
  "nt_new latch_notify = BlockingConditionWaiter_new" "nt_notify_one latch_notify = waiter_signal"
  "nt_poll_notified latch_notify c = (is_signalled c, c)"
  by (simp_all add: latch_notify_def)

lemma checked_one: "checked_add (1 :: u64) 1 = Some 2" "checked_add (2 :: u64) 1 = Some 3"
  by (simp_all add: checked_add_def)

lemmas statement_defs =
  tokio_poll_lock_def tokio_deref_def tokio_deref_mut_def tokio_drop_guard_def tokio_cancel_lock_def
  tokio_register_waiter_def tokio_registration_drop_def tokio_signal_def tokio_poll_notified_def
  tokio_timer_at_def tokio_poll_deadline_def tokio_deadline_reached_def recovered_section_eq
  recovered_call_eq registry_register_def registry_take_one_def registry_take_all_def
  registry_unregister_def btree_pop_first_def mutex_guard_drop_def Let_def checked_one

lemmas task_defs =
  task_step_def tokio_with_write_async_def tokio_with_read_async_def tokio_wait_while_async_def
  tokio_notify_one_def tokio_notify_all_def tokio_with_write_notify_one_async_def after_write_def
  tokio_with_write_notify_all_async_def tokio_wait_while_with_deadline_async_def after_wait_def
  tokio_wait_while_for_async_def timed_loop_step_def wait_until_signalled_or_deadline_def

lemmas demo_defs =
  demo_waiter_def demo_deadline_waiter_def demo_producer_task_def demo_init_def demo_zero_def
  demo_take_one_def demo_put_def sys_init_def tokio_with_timer_def mutex_new_def
  WaiterRegistry_new_def TokioConditionWaiter_new_def manual_start_def

text \<open>The waiter found the counter at zero, registered, released the guard and is suspended.\<close>

definition demo_parked :: "demo_sys option" where
  "demo_parked = sys_run demo_tokio
     [Spawn 0 demo_waiter, Poll 0, Advance 0, Advance 0, Advance 0, Advance 0, Advance 0] demo_init"

lemma demo_parked_slot:
  "map_option (\<lambda>s. (sys_slots s 0, tok_active (sys_mon s))) demo_parked =
   Some (Suspended (T_wait demo_zero demo_take_one
      (Wt_notified \<lparr>tcr_waiter_id = 1, tcr_waiter = 0\<rparr> ())), [(1, 0)])"
  by (simp add: demo_parked_def sys_exec_def task_defs statement_defs demo_defs tok_active_def
      tok_registry_def)

text \<open>
  Then a producer adds one and notifies, and the waiter is polled until only the destructor of its
  guard is left.
\<close>

definition demo_handoff :: "demo_sys option" where
  "demo_handoff = sys_run demo_tokio
     ([Spawn 0 demo_waiter, Poll 0, Advance 0, Advance 0, Advance 0, Advance 0, Advance 0,
       Spawn 1 demo_producer_task, Poll 1, Advance 1, Advance 1, Advance 1, Advance 1, Advance 1,
       Advance 1, Poll 0, Advance 0, Advance 0, Advance 0, Advance 0, Advance 0]) demo_init"

lemma demo_handoff_slot:
  "map_option (\<lambda>s. (sys_slots s 0, sys_slots s 1, tokio_deref demo_tokio (sys_mon s))) demo_handoff =
   Some (Running (T_wait demo_zero demo_take_one (Wt_drop_guard (Return 1))),
     Done (Return (Value 0)), 0)"
  by (simp add: demo_handoff_def sys_exec_def task_defs statement_defs demo_defs)

lemma demo_reachable:
  "sys_run demo_tokio acts demo_init = Some s \<Longrightarrow> tok_reachable demo_tokio 0 manual_start s"
  unfolding demo_init_def reachable_iff_run by blast

lemma demo_runs_reachable:
  "demo_parked = Some s \<Longrightarrow> tok_reachable demo_tokio 0 manual_start s"
  "demo_handoff = Some s \<Longrightarrow> tok_reachable demo_tokio 0 manual_start s"
  using demo_reachable unfolding demo_parked_def demo_handoff_def by blast+

end
