(* ===== verification/Tokio_Safety.thy ===== *)
theory Tokio_Safety
  imports Tokio_Demo
begin

text \<open>
  Invariants of every reachable state of a Tokio monitor with its tasks: mutual exclusion, no guard
  across an await, no lost wake-up, and no registration left behind by a cancelled or finished call.
\<close>

section \<open>The system invariant\<close>

fun slot_foot :: "(('t, 'q, 'p, 'i, 'f, 'e, 'r) task, 'a) slot \<Rightarrow> foot" where
  "slot_foot (Suspended l) = task_foot l"
| "slot_foot (Running l) = task_foot l"
| "slot_foot _ = Free"

definition feet :: "('m, 't, 'q, 'n, 'k, 'p, 'i, 'f, 'e, 'r) tokio_sys \<Rightarrow> nat \<Rightarrow> foot" where
  "feet s i = slot_foot (sys_slots s i)"

definition sys_inv ::
  "('m, 't, 'q, 'n, 'k, 'i, 'f, 'e) tokio_platform \<Rightarrow> ('n \<Rightarrow> bool) \<Rightarrow>
   ('m, 't, 'q, 'n, 'k, 'p, 'i, 'f, 'e, 'r) tokio_sys \<Rightarrow> bool"
where
  "sys_inv P permit s \<longleftrightarrow>
     guard_inv P (feet s) (sys_mon s) \<and> owner_inv (feet s) (sys_mon s) \<and>
     wake_inv permit (feet s) (sys_mon s) \<and>
     (\<forall>i l. sys_slots s i = Suspended l \<longrightarrow> task_awaiting l)"

lemma feet_set_slot [simp]: "feet (set_slot i x w s) = (feet s)(i := slot_foot x)"
  by (auto simp: feet_def)

lemma stepped_foot_simps:
  "stepped_foot task_foot (Go l) = slot_foot (Running l)"
  "stepped_foot task_foot (Pend l) = slot_foot (Suspended l)"
  "stepped_foot task_foot (Fin r) = slot_foot (Done r)"
  by simp_all

text \<open>A step of the system is an effect of one task and leaves the other tasks alone.\<close>

lemma sys_step_effect:
  assumes "sys_step P s s'" and "\<forall>i l. sys_slots s i = Suspended l \<longrightarrow> task_awaiting l"
  obtains i x where "tok_effect P (feet s i) (sys_mon s) (slot_foot x) (sys_mon s')"
    and "feet s' = (feet s)(i := slot_foot x)" and "sys_slots s' = (sys_slots s)(i := x)"
    and "\<And>l. x = Suspended l \<Longrightarrow> task_awaiting l"
  using assms(1)
proof (cases rule: sys_step.cases)
  case (spawn i l)
  then show ?thesis
    by (intro that [of i "Suspended l"]) (auto simp: feet_def task_start_awaiting intro: tok_effect.idle)
next
  case (poll i l)
  then show ?thesis
    by (intro that [of i "Running l"]) (auto simp: feet_def intro: tok_effect.idle)
next
  case (go i l l' w)
  then show ?thesis
    using tasks.step_effect [OF go(3)] by (intro that [of i "Running l'"]) (auto simp: feet_def)
next
  case (pend i l l' w)
  then show ?thesis
    using tasks.step_effect [OF pend(3)] tasks.pend_awaiting [OF pend(3)]
    by (intro that [of i "Suspended l'"]) (auto simp: feet_def)
next
  case (fin i l r w)
  then show ?thesis
    using tasks.step_effect [OF fin(3)] by (intro that [of i "Done r"]) (auto simp: feet_def)
next
  case (cancel i l)
  then show ?thesis
    using tasks.drop_effect [of l P "sys_mon s"] assms(2)
    by (intro that [of i Vacant]) (auto simp: feet_def)
next
  case tick
  then show ?thesis
    using tok_effect.timer [of P "sys_mon s", OF clock_moves.tick, of "feet s 0"]
    by (intro that [of 0 "sys_slots s 0"]) (use assms(2) in \<open>auto simp: feet_def fun_eq_iff\<close>)
qed

context tokio_contract
begin

lemma sys_inv_init: "sys_inv P permit (sys_init P d k)"
  by (auto simp: sys_inv_def sys_init_def tokio_with_timer_def feet_def guard_inv_def owner_inv_def
      wake_inv_def tok_registry_def tok_active_def mutex_new_def)

lemma sys_step_inv:
  assumes "sys_step P s s'" and "sys_inv P permit s"
  shows "sys_inv P permit s'"
proof -
  have await: "\<forall>i l. sys_slots s i = Suspended l \<longrightarrow> task_awaiting l"
    using assms(2) by (simp add: sys_inv_def)
  obtain i x where eff: "tok_effect P (feet s i) (sys_mon s) (slot_foot x) (sys_mon s')"
    and feet: "feet s' = (feet s)(i := slot_foot x)" and slots: "sys_slots s' = (sys_slots s)(i := x)"
    and x: "\<And>l. x = Suspended l \<Longrightarrow> task_awaiting l"
    using sys_step_effect [OF assms(1) await] by metis
  show ?thesis
    using effect_guard [of "feet s" i "sys_mon s", OF eff] effect_owner [of "feet s" i "sys_mon s", OF eff] effect_wake [of "feet s" i "sys_mon s", OF eff] assms(2) x
    by (auto simp: sys_inv_def feet slots)
qed

lemma reachable_inv: "tok_reachable P d k s \<Longrightarrow> sys_inv P permit s"
  by (induction rule: tok_reachable.induct) (auto intro: sys_inv_init sys_step_inv)

lemma suspended_quiet:
  "sys_inv P permit s \<Longrightarrow> sys_slots s i = Suspended l \<Longrightarrow> quiet (task_foot l)"
  by (auto simp: sys_inv_def intro: awaiting_quiet)

lemma expecting_woken:
  assumes "sys_inv P permit s" and "sys_slots s i = Suspended l" and "task_foot l = Listening n a"
  shows "(n, a) \<in> set (tok_active (sys_mon s)) \<or>
    (\<exists>j m. sys_slots s j = Running m \<and> a \<in> set (sending (task_foot m))) \<or>
    fst (tokio_poll_notified P a (sys_mon s))"
proof -
  have "expecting (feet s i) = Some (n, a)" using assms(2,3) by (simp add: feet_def)
  then consider "(n, a) \<in> set (tok_active (sys_mon s))" | j where "a \<in> set (sending (feet s j))"
    | "permit (tcw_signal (tok_cells (sys_mon s) ! a))"
    using assms(1) unfolding sys_inv_def wake_inv_def by blast
  then show ?thesis
  proof cases
    case (2 j)
    then have "\<exists>m. sys_slots s j = Running m \<and> a \<in> set (sending (task_foot m))"
      using suspended_quiet [OF assms(1), of j]
      by (cases "sys_slots s j") (auto simp: feet_def quiet_def)
    then show ?thesis by blast
  next
    case 3
    obtain ready w where poll: "tokio_poll_notified P a (sys_mon s) = (ready, w)" by fastforce
    show ?thesis using poll_notified_permit [OF poll] 3 poll by simp
  qed blast
qed

text \<open>What dropping a suspended future does.\<close>

lemma effect_to_free:
  assumes "tok_effect P \<phi> w Free w'" and "quiet \<phi>" and "registry_inv (tok_registry w)"
    and "\<And>e. e \<in> set (tok_active w) \<Longrightarrow> (\<exists>n a. registration_of \<phi> = Some (n, a) \<and> n = fst e) \<Longrightarrow>
      registration_of \<phi> = Some e"
  shows "tok_active w' = filter (\<lambda>e. registration_of \<phi> \<noteq> Some e) (tok_active w)"
    and "tk_guarded (tp_mutex P) (tok_state w') = tk_guarded (tp_mutex P) (tok_state w)"
    and "tokio_deref P w' = tokio_deref P w"
proof -
  show "tok_active w' = filter (\<lambda>e. registration_of \<phi> \<noteq> Some e) (tok_active w)"
    using assms(1)
  proof cases
    case (unregistered n a)
    have reg: "registration_of \<phi> = Some (n, a)" using unregistered(2) by auto
    have "fst e \<noteq> n \<longleftrightarrow> registration_of \<phi> \<noteq> Some e" if e: "e \<in> set (tok_active w)" for e
      using assms(4) [OF e] reg by auto
    then show ?thesis
      using registration_drop_registry(1) [OF assms(3), of "\<lparr>tcr_waiter_id = n, tcr_waiter = a\<rparr>"]
      by (simp add: unregistered(1) cong: filter_cong)
  qed (use assms(2) in \<open>auto simp: quiet_def tok_active_def tok_registry_def dest!: poll_lock_frame
      intro!: filter_True [symmetric]\<close>)
  show "tk_guarded (tp_mutex P) (tok_state w') = tk_guarded (tp_mutex P) (tok_state w)"
    using assms(1,2) by cases (auto simp: quiet_def dest: poll_lock_view(3))
  show "tokio_deref P w' = tokio_deref P w"
    using effect_deref [OF assms(1)] assms(2) by (auto simp: quiet_def)
qed

lemma cancel_exact:
  assumes "sys_inv P permit s" and "sys_slots s i = Suspended l"
  shows "tok_active (task_drop P l (sys_mon s)) =
      filter (\<lambda>e. registration_of (task_foot l) \<noteq> Some e) (tok_active (sys_mon s))"
    and "tk_guarded (tp_mutex P) (tok_state (task_drop P l (sys_mon s))) =
      tk_guarded (tp_mutex P) (tok_state (sys_mon s))"
    and "tokio_deref P (task_drop P l (sys_mon s)) = tokio_deref P (sys_mon s)"
proof -
  have await: "task_awaiting l" using assms by (simp add: sys_inv_def)
  have inv: "owner_inv (feet s) (sys_mon s)" and reg: "registry_inv (tok_registry (sys_mon s))"
    using assms(1) by (simp_all add: sys_inv_def owner_inv_def)
  have own: "registration_of (task_foot l) = Some e"
    if e: "e \<in> set (tok_active (sys_mon s))" "\<exists>n a. registration_of (task_foot l) = Some (n, a) \<and> n = fst e"
    for e
  proof -
    obtain j where j: "registration_of (feet s j) = Some e"
      using inv e(1) unfolding owner_inv_def by blast
    have "registration_of (feet s i) = registration_of (task_foot l)" using assms(2) by (simp add: feet_def)
    moreover have "j = i"
      using inv j e(2) calculation unfolding owner_inv_def by (metis prod.collapse)
    ultimately show ?thesis using j by simp
  qed
  note drop = effect_to_free [OF tasks.drop_effect [OF await] awaiting_quiet [OF await] reg own]
  show "tok_active (task_drop P l (sys_mon s)) =
      filter (\<lambda>e. registration_of (task_foot l) \<noteq> Some e) (tok_active (sys_mon s))"
    and "tk_guarded (tp_mutex P) (tok_state (task_drop P l (sys_mon s))) =
      tk_guarded (tp_mutex P) (tok_state (sys_mon s))"
    and "tokio_deref P (task_drop P l (sys_mon s)) = tokio_deref P (sys_mon s)"
    using drop by blast+
qed

lemma exclusion:
  assumes "sys_inv P permit s"
  shows "tk_guarded (tp_mutex P) (tok_state (sys_mon s)) \<longleftrightarrow>
      (\<exists>i l. sys_slots s i = Running l \<and> holds_guard (task_foot l))"
    and "sys_slots s i = Running l \<Longrightarrow> holds_guard (task_foot l) \<Longrightarrow>
      sys_slots s j = Running m \<Longrightarrow> holds_guard (task_foot m) \<Longrightarrow> i = j"
proof -
  have held: "holds_guard (feet s i) \<longleftrightarrow> (\<exists>l. sys_slots s i = Running l \<and> holds_guard (task_foot l))" for i
    using suspended_quiet [OF assms, of i] by (cases "sys_slots s i") (auto simp: feet_def quiet_def)
  have inv: "guard_inv P (feet s) (sys_mon s)" using assms by (simp add: sys_inv_def)
  then show "tk_guarded (tp_mutex P) (tok_state (sys_mon s)) \<longleftrightarrow>
      (\<exists>i l. sys_slots s i = Running l \<and> holds_guard (task_foot l))"
    unfolding guard_inv_def held by blast
  show "i = j" if "sys_slots s i = Running l" "holds_guard (task_foot l)"
      "sys_slots s j = Running m" "holds_guard (task_foot m)"
    using inv that unfolding guard_inv_def held by blast
qed

text \<open>When no call is in progress, nothing of any earlier call is left.\<close>

lemma at_rest:
  assumes "sys_inv P permit s" and "\<forall>i. sys_slots s i = Vacant \<or> (\<exists>r. sys_slots s i = Done r)"
  shows "tok_active (sys_mon s) = []" and "\<not> tk_guarded (tp_mutex P) (tok_state (sys_mon s))"
proof -
  have free: "feet s i = Free" for i
    using assms(2) [THEN spec, of i] by (auto simp: feet_def)
  have "e \<notin> set (tok_active (sys_mon s))" for e
    using assms(1) free unfolding sys_inv_def owner_inv_def by fastforce
  then show "tok_active (sys_mon s) = []" by (metis list.set_intros(1) neq_Nil_conv)
  show "\<not> tk_guarded (tp_mutex P) (tok_state (sys_mon s))"
    using assms(1) free by (simp add: sys_inv_def guard_inv_def)
qed

end

section \<open>Guarantees\<close>

text \<open>C16: mutual exclusion, and no guard across an await. In every reachable state of any number of
  tasks on one Tokio monitor the state mutex is guarded exactly when some running task is inside a
  section, at most one task is, and no suspended task holds the guard.\<close>

theorem tokio_mutual_exclusion:
  assumes "tokio_contract P permit" and "tok_reachable P d k s"
  shows "(tk_guarded (tp_mutex P) (tok_state (sys_mon s)) \<longleftrightarrow>
      (\<exists>i l. sys_slots s i = Running l \<and> holds_guard (task_foot l))) \<and>
    (\<forall>i j l m. sys_slots s i = Running l \<and> holds_guard (task_foot l) \<and>
      sys_slots s j = Running m \<and> holds_guard (task_foot m) \<longrightarrow> i = j) \<and>
    (\<forall>i l. sys_slots s i = Suspended l \<longrightarrow> \<not> holds_guard (task_foot l))"
proof -
  note inv = tokio_contract.reachable_inv [OF assms]
  note ex = tokio_contract.exclusion [OF assms(1) inv]
  have "\<not> holds_guard (task_foot l)" if "sys_slots s i = Suspended l" for i l
    using tokio_contract.suspended_quiet [OF assms(1) inv that] by (simp add: quiet_def)
  then show ?thesis using ex by blast
qed

theorem tokio_mutual_exclusion_witness:
  "\<exists>s l. sys_run demo_tokio [Spawn 0 demo_waiter, Poll 0, Advance 0] demo_init = Some s \<and>
     sys_slots s 0 = Running l \<and> mx_locked (tok_state (sys_mon s))"
proof -
  let ?run = "sys_run demo_tokio [Spawn 0 demo_waiter, Poll 0, Advance 0] demo_init"
  have "map_option (\<lambda>s. sys_slots s 0) ?run =
      Some (Running (T_wait demo_zero demo_take_one (Wt_check ())))"
    by (simp add: sys_exec_def task_defs statement_defs demo_defs)
  then obtain s where run: "?run = Some s"
    and slot: "sys_slots s 0 = Running (T_wait demo_zero demo_take_one (Wt_check ()))" by auto
  have "holds_guard (task_foot (T_wait demo_zero demo_take_one (Wt_check ())))" by simp
  then have "tk_guarded (tp_mutex demo_tokio) (tok_state (sys_mon s))"
    using tokio_mutual_exclusion [OF demo_contract demo_reachable [OF run]] slot by blast
  then show ?thesis using run slot by (intro exI [of _ s]) auto
qed

text \<open>C5: no wake-up is lost. A suspended call that waits for its signal is still registered, or it
  has been selected by a notification that is just being delivered, or its next poll finds the
  signal. This holds for the untimed and the timed waits, under any interleaving and any
  cancellations.\<close>

theorem tokio_no_lost_wakeup:
  assumes "tokio_contract P permit" and "tok_reachable P d k s"
    and "sys_slots s i = Suspended l" and "task_foot l = Listening n a"
  shows "(n, a) \<in> set (tok_active (sys_mon s)) \<or>
    (\<exists>j m. sys_slots s j = Running m \<and> a \<in> set (sending (task_foot m))) \<or>
    fst (tokio_poll_notified P a (sys_mon s))"
  using tokio_contract.expecting_woken [OF assms(1) tokio_contract.reachable_inv [OF assms(1,2)] assms(3,4)] .

theorem tokio_no_lost_wakeup_witness:
  "\<exists>s. demo_parked = Some s \<and>
    ((1, 0) \<in> set (tok_active (sys_mon s)) \<or>
     (\<exists>j m. sys_slots s j = Running m \<and> 0 \<in> set (sending (task_foot m))) \<or>
     fst (tokio_poll_notified demo_tokio 0 (sys_mon s)))"
proof -
  obtain s where run: "demo_parked = Some s" and slot: "sys_slots s 0 = Suspended
      (T_wait demo_zero demo_take_one (Wt_notified \<lparr>tcr_waiter_id = 1, tcr_waiter = 0\<rparr> ()))"
    using demo_parked_slot by auto
  have "tok_reachable demo_tokio 0 manual_start s"
    by (rule demo_runs_reachable(1) [OF run])
  from tokio_no_lost_wakeup [OF demo_contract this slot] show ?thesis using run by auto
qed

text \<open>C18: cancelling a call is clean. Dropping a suspended future removes exactly the registration it
  owns, if any, keeps every other registration in its place, and leaves the value and the guard as
  they are.\<close>

theorem tokio_cancel_clean:
  assumes "tokio_contract P permit" and "tok_reachable P d k s" and "sys_slots s i = Suspended l"
  shows "tok_active (task_drop P l (sys_mon s)) =
      filter (\<lambda>e. registration_of (task_foot l) \<noteq> Some e) (tok_active (sys_mon s)) \<and>
    tk_guarded (tp_mutex P) (tok_state (task_drop P l (sys_mon s))) =
      tk_guarded (tp_mutex P) (tok_state (sys_mon s)) \<and>
    tokio_deref P (task_drop P l (sys_mon s)) = tokio_deref P (sys_mon s)"
  using tokio_contract.cancel_exact [OF assms(1) tokio_contract.reachable_inv [OF assms(1,2)] assms(3)]
  by blast

theorem tokio_cancel_clean_witness:
  "\<exists>s l. demo_parked = Some s \<and> sys_slots s 0 = Suspended l \<and>
     tok_active (task_drop demo_tokio l (sys_mon s)) = []"
proof -
  obtain s where run: "demo_parked = Some s" and act: "tok_active (sys_mon s) = [(1, 0)]"
    and slot: "sys_slots s 0 = Suspended
      (T_wait demo_zero demo_take_one (Wt_notified \<lparr>tcr_waiter_id = 1, tcr_waiter = 0\<rparr> ()))"
    using demo_parked_slot by auto
  have "tok_reachable demo_tokio 0 manual_start s"
    by (rule demo_runs_reachable(1) [OF run])
  from tokio_cancel_clean [OF demo_contract this slot] show ?thesis
    using run slot act by (intro exI [of _ s]) auto
qed

text \<open>C29: nothing is left behind. Whenever no call is in progress, whatever was completed, cancelled
  or ended in a panic before, the registry is empty and the state mutex is free.\<close>

theorem tokio_nothing_left_behind:
  assumes "tokio_contract P permit" and "tok_reachable P d k s"
    and "\<forall>i. sys_slots s i = Vacant \<or> (\<exists>r. sys_slots s i = Done r)"
  shows "waiters (mx_data (tok_waiters (sys_mon s))) = [] \<and>
    \<not> tk_guarded (tp_mutex P) (tok_state (sys_mon s))"
  using tokio_contract.at_rest [OF assms(1) tokio_contract.reachable_inv [OF assms(1,2)] assms(3)]
  by (simp add: tok_active_def tok_registry_def)

theorem tokio_nothing_left_behind_witness:
  "\<exists>s. sys_run demo_tokio [Spawn 0 demo_waiter, Poll 0, Advance 0, Advance 0, Advance 0, Advance 0,
      Advance 0, Cancel 0] demo_init = Some s \<and> waiters (mx_data (tok_waiters (sys_mon s))) = []"
proof -
  let ?run = "sys_run demo_tokio [Spawn 0 demo_waiter, Poll 0, Advance 0, Advance 0, Advance 0,
    Advance 0, Advance 0, Cancel 0] demo_init"
  have "map_option sys_slots ?run = Some (\<lambda>_. Vacant)"
    by (simp add: sys_exec_def task_defs statement_defs demo_defs fun_eq_iff)
  then obtain s where run: "?run = Some s" and slots: "sys_slots s = (\<lambda>_. Vacant)" by auto
  then show ?thesis
    using tokio_nothing_left_behind [OF demo_contract demo_reachable [OF run]] by auto
qed

end
