(* ===== verification/Tokio_Regions.thy ===== *)
theory Tokio_Regions
  imports Tokio_Safety
begin

text \<open>
  The abstract specification of the Tokio monitor is a conditional critical region: a wait is one
  atomic step that is enabled when the predicate answers false and applies the action to the value;
  a write is one atomic step that applies its closure. The tasks refine it. The proof attaches to
  every program counter what is known of the current value there; what is known under the guard
  is stable, because nobody else holds the guard.
\<close>

section \<open>Assertions\<close>

abbreviation exhausted_message :: string where
  "exhausted_message \<equiv> ''monitor waiter identifiers exhausted''"

text \<open>The predicate answered \<open>b\<close> on the value \<open>d\<close>.\<close>

definition answered :: "('p, 't) predicate \<Rightarrow> bool \<Rightarrow> 't \<Rightarrow> bool" where
  "answered predicate b d \<longleftrightarrow> (\<exists>p p'. predicate p d = (Return b, p'))"

text \<open>
  The action ran on a value on which the predicate had answered false, gave \<open>r\<close> and left \<open>d\<close>.
\<close>

definition region_left :: "('p, 't) predicate \<Rightarrow> ('t, 'r) action \<Rightarrow> 'r outcome \<Rightarrow> 't \<Rightarrow> bool" where
  "region_left predicate action r d \<longleftrightarrow> (\<exists>d0. answered predicate False d0 \<and> action d0 = (r, d))"

definition panic_left :: "('p, 't) predicate \<Rightarrow> ('t, 'r) action \<Rightarrow> string \<Rightarrow> 't \<Rightarrow> bool" where
  "panic_left predicate action m d \<longleftrightarrow>
     (\<exists>p p'. predicate p d = (Panic m, p')) \<or> region_left predicate action (Panic m) d \<or>
     m = exhausted_message"

fun wait_result :: "('p, 't) predicate \<Rightarrow> ('t, 'r) action \<Rightarrow> 'r outcome \<Rightarrow> 't \<Rightarrow> bool" where
  "wait_result predicate action (Return x) d = region_left predicate action (Return x) d"
| "wait_result predicate action (Panic m) d = panic_left predicate action m d"
| "wait_result predicate action Blocked d = False"

fun timed_result ::
  "('p, 't) predicate \<Rightarrow> ('t, 'r) action \<Rightarrow> ('e + 'r WaitTimeoutResult) outcome \<Rightarrow> 't \<Rightarrow> bool"
where
  "timed_result predicate action (Return (Inr (Ready x))) d =
     region_left predicate action (Return x) d"
| "timed_result predicate action (Return (Inr TimedOut)) d = answered predicate True d"
| "timed_result predicate action (Return (Inl e)) d = True"
| "timed_result predicate action (Panic m) d = panic_left predicate action m d"
| "timed_result predicate action Blocked d = False"

fun read_ok :: "('t \<Rightarrow> 'r outcome) \<Rightarrow> ('q, 'r) access_pc \<Rightarrow> 't \<Rightarrow> bool" where
  "read_ok f (Acc_drop_guard r) d \<longleftrightarrow> f d = r"
| "read_ok f _ d \<longleftrightarrow> True"

fun write_ok :: "('t, 'r) action \<Rightarrow> ('q, 'r) access_pc \<Rightarrow> 't \<Rightarrow> bool" where
  "write_ok f (Acc_drop_guard r) d \<longleftrightarrow> (\<exists>d0. f d0 = (r, d))"
| "write_ok f _ d \<longleftrightarrow> True"

fun write_notify_ok :: "('t, 'r) action \<Rightarrow> ('q, 'r) write_notify_pc \<Rightarrow> 't \<Rightarrow> bool" where
  "write_notify_ok f (Wn_write a) d \<longleftrightarrow> write_ok f a d"
| "write_notify_ok f (Wn_notify r n) d \<longleftrightarrow> (\<exists>d0 d1. f d0 = (Return r, d1))"

fun wait_ok :: "('p, 't) predicate \<Rightarrow> ('t, 'r) action \<Rightarrow> ('q, 'p, 'r) wait_pc \<Rightarrow> 't \<Rightarrow> bool" where
  "wait_ok predicate action (Wt_register p) d \<longleftrightarrow> answered predicate True d"
| "wait_ok predicate action Wt_action d \<longleftrightarrow> answered predicate False d"
| "wait_ok predicate action (Wt_drop_guard r) d \<longleftrightarrow> wait_result predicate action r d"
| "wait_ok predicate action _ d \<longleftrightarrow> True"

fun loop_ok :: "('p, 't) predicate \<Rightarrow> ('t, 'r) action \<Rightarrow> ('q, 'p, 'f, 'e, 'r) loop_pc \<Rightarrow> 't \<Rightarrow> bool" where
  "loop_ok predicate action (Lp_register f p) d \<longleftrightarrow> answered predicate True d"
| "loop_ok predicate action Lp_action d \<longleftrightarrow> answered predicate False d"
| "loop_ok predicate action (Lp_drop_guard r) d \<longleftrightarrow> timed_result predicate action r d"
| "loop_ok predicate action _ d \<longleftrightarrow> True"

fun deadline_ok ::
  "('p, 't) predicate \<Rightarrow> ('t, 'r) action \<Rightarrow> ('q, 'p, 'f, 'e, 'r) deadline_pc \<Rightarrow> 't \<Rightarrow> bool"
where
  "deadline_ok predicate action (Dl_arm p) d \<longleftrightarrow> answered predicate True d"
| "deadline_ok predicate action (Dl_probe f p) d \<longleftrightarrow> answered predicate True d"
| "deadline_ok predicate action (Dl_loop l) d \<longleftrightarrow> loop_ok predicate action l d"
| "deadline_ok predicate action _ d \<longleftrightarrow> True"

fun for_ok ::
  "('p, 't) predicate \<Rightarrow> ('t, 'r) action \<Rightarrow> ('q, 'p, 'i, 'f, 'e, 'r) for_pc \<Rightarrow> 't \<Rightarrow> bool"
where
  "for_ok predicate action (Fo_deadline i p) d \<longleftrightarrow> answered predicate True d"
| "for_ok predicate action (Fo_arm i p) d \<longleftrightarrow> answered predicate True d"
| "for_ok predicate action (Fo_loop l) d \<longleftrightarrow> loop_ok predicate action l d"
| "for_ok predicate action _ d \<longleftrightarrow> True"

fun task_ok :: "('t, 'q, 'p, 'i, 'f, 'e, 'r) task \<Rightarrow> 't \<Rightarrow> bool" where
  "task_ok (T_read f a) d \<longleftrightarrow> read_ok f a d"
| "task_ok (T_write f a) d \<longleftrightarrow> write_ok f a d"
| "task_ok (T_write_one f n) d \<longleftrightarrow> write_notify_ok f n d"
| "task_ok (T_write_all f n) d \<longleftrightarrow> write_notify_ok f n d"
| "task_ok (T_wait predicate action l) d \<longleftrightarrow> wait_ok predicate action l d"
| "task_ok (T_deadline deadline predicate action l) d \<longleftrightarrow> deadline_ok predicate action l d"
| "task_ok (T_for limit predicate action l) d \<longleftrightarrow> for_ok predicate action l d"
| "task_ok _ d \<longleftrightarrow> True"

text \<open>What the result \<open>r\<close> of a call means when the value is \<open>d\<close> at its end.\<close>

fun call_result :: "('t, 'q, 'p, 'i, 'f, 'e, 'r) task \<Rightarrow> ('e, 'r) task_result outcome \<Rightarrow> 't \<Rightarrow> bool" where
  "call_result (T_read f a) r d \<longleftrightarrow> r = map_outcome Value (f d)"
| "call_result (T_write f a) r d \<longleftrightarrow> (\<exists>x d0. f d0 = (x, d) \<and> r = map_outcome Value x)"
| "call_result (T_write_one f n) r d \<longleftrightarrow> (\<exists>x d0 d1. f d0 = (x, d1) \<and> r = map_outcome Value x)"
| "call_result (T_write_all f n) r d \<longleftrightarrow> (\<exists>x d0 d1. f d0 = (x, d1) \<and> r = map_outcome Value x)"
| "call_result (T_wait predicate action l) r d \<longleftrightarrow>
     (\<exists>x. r = map_outcome Value x \<and> wait_result predicate action x d)"
| "call_result (T_deadline deadline predicate action l) r d \<longleftrightarrow>
     (\<exists>x. r = map_outcome Timed x \<and> timed_result predicate action x d)"
| "call_result (T_for limit predicate action l) r d \<longleftrightarrow>
     (\<exists>x. r = map_outcome Timed x \<and> timed_result predicate action x d)"
| "call_result (T_notify_one n) r d \<longleftrightarrow> r = Return Notified"
| "call_result (T_notify_all n) r d \<longleftrightarrow> r = Return Notified"

text \<open>The atomic step of a call on the value.\<close>

fun region :: "('t, 'q, 'p, 'i, 'f, 'e, 'r) task \<Rightarrow> 't \<Rightarrow> 't \<Rightarrow> bool" where
  "region (T_write f a) d d' \<longleftrightarrow> (\<exists>r. f d = (r, d'))"
| "region (T_write_one f n) d d' \<longleftrightarrow> (\<exists>r. f d = (r, d'))"
| "region (T_write_all f n) d d' \<longleftrightarrow> (\<exists>r. f d = (r, d'))"
| "region (T_wait predicate action l) d d' \<longleftrightarrow> answered predicate False d \<and> (\<exists>r. action d = (r, d'))"
| "region (T_deadline deadline predicate action l) d d' \<longleftrightarrow>
     answered predicate False d \<and> (\<exists>r. action d = (r, d'))"
| "region (T_for limit predicate action l) d d' \<longleftrightarrow>
     answered predicate False d \<and> (\<exists>r. action d = (r, d'))"
| "region _ d d' \<longleftrightarrow> False"

section \<open>Steps keep the assertions\<close>

definition stepped_ok ::
  "('l \<Rightarrow> 't \<Rightarrow> bool) \<Rightarrow> ('a outcome \<Rightarrow> 't \<Rightarrow> bool) \<Rightarrow> ('l, 'a) stepped \<Rightarrow> 't \<Rightarrow> bool"
where
  "stepped_ok ok res r d \<longleftrightarrow> (case r of Go l \<Rightarrow> ok l d | Pend l \<Rightarrow> ok l d | Fin x \<Rightarrow> res x d)"

lemma stepped_ok_simps [simp]:
  "stepped_ok ok res (Go l) d = ok l d" "stepped_ok ok res (Pend l) d = ok l d"
  "stepped_ok ok res (Fin x) d = res x d"
  by (simp_all add: stepped_ok_def)

lemma stepped_ok_await:
  assumes "stepped_ok ok res x d" and "\<And>l. ok l d \<Longrightarrow> ok' (inside l) d"
    and "\<And>y. res y d \<Longrightarrow> stepped_ok ok' res' (k y) d"
  shows "stepped_ok ok' res' (await_step inside k x) d"
  using assms by (cases x) simp_all

lemma answeredI: "predicate p d = (Return b, p') \<Longrightarrow> answered predicate b d"
  by (auto simp: answered_def)

lemma region_leftI:
  "answered predicate False d \<Longrightarrow> action d = (r, d') \<Longrightarrow> region_left predicate action r d'"
  by (auto simp: region_left_def)

lemma wait_result_panicI: "panic_left predicate action m d \<Longrightarrow> wait_result predicate action (Panic m) d"
  "region_left predicate action r d \<Longrightarrow> r \<noteq> Blocked \<Longrightarrow> wait_result predicate action r d"
  "region_left predicate action r d \<Longrightarrow> r \<noteq> Blocked \<Longrightarrow>
   timed_result predicate action (map_outcome (\<lambda>x. Inr (Ready x)) r) d"
  by (auto, (cases r; auto simp: panic_left_def)+)

text \<open>Without the guard nothing is claimed of the current value.\<close>

lemma part_ok_unguarded:
  "\<not> holds_guard (access_foot a) \<Longrightarrow> read_ok g a d"
  "\<not> holds_guard (access_foot a) \<Longrightarrow> write_ok f a d"
  by (cases a; simp)+

lemma wait_ok_unguarded: "\<not> holds_guard (wait_foot l) \<Longrightarrow> wait_ok predicate action l d"
  by (cases l) simp_all

lemma loop_ok_unguarded: "\<not> holds_guard (loop_foot m) \<Longrightarrow> loop_ok predicate action m d"
  by (cases m) simp_all

lemma timed_ok_unguarded:
  "\<not> holds_guard (deadline_foot b) \<Longrightarrow> deadline_ok predicate action b d"
  "\<not> holds_guard (for_foot c) \<Longrightarrow> for_ok predicate action c d"
  by (cases b; simp add: loop_ok_unguarded) (cases c; simp add: loop_ok_unguarded)

lemma task_ok_unguarded:
  assumes "\<not> holds_guard (task_foot l)" and "task_ok l d"
  shows "task_ok l d'"
proof -
  have "write_notify_ok f n d'" if "\<not> holds_guard (write_notify_foot n)" "write_notify_ok f n d"
    for f :: "('t, 'r) action" and n :: "('q, 'r) write_notify_pc" and d d'
    using that by (cases n) (simp_all add: part_ok_unguarded)
  with assms show ?thesis
    by (cases l) (simp_all add: part_ok_unguarded wait_ok_unguarded timed_ok_unguarded)
qed

lemma task_start_ok: "task_start l \<Longrightarrow> task_ok l d"
  by (erule task_start.cases) simp_all

fun slot_after :: "('l, 'a) stepped \<Rightarrow> ('l, 'a) slot" where
  "slot_after (Go l) = Running l"
| "slot_after (Pend l) = Suspended l"
| "slot_after (Fin r) = Done r"

definition live :: "('l, 'a) slot \<Rightarrow> 'l \<Rightarrow> bool" where
  "live x l \<longleftrightarrow> x = Suspended l \<or> x = Running l"

lemma live_simps [simp]:
  "live (Suspended m) l \<longleftrightarrow> m = l" "live (Running m) l \<longleftrightarrow> m = l" "\<not> live Vacant l" "\<not> live (Done r) l"
  by (auto simp: live_def)

lemma live_after: "live (slot_after r) l \<longleftrightarrow> r = Go l \<or> r = Pend l"
  by (cases r) auto

definition values_inv ::
  "('m, 't, 'q, 'n, 'k, 'i, 'f, 'e) tokio_platform \<Rightarrow>
   ('m, 't, 'q, 'n, 'k, 'p, 'i, 'f, 'e, 'r) tokio_sys \<Rightarrow> bool"
where
  "values_inv P s \<longleftrightarrow> (\<forall>i l. live (sys_slots s i) l \<longrightarrow> task_ok l (tokio_deref P (sys_mon s)))"

lemma deref_frame:
  "tokio_deref P (w\<lparr>tok_timer := k\<rparr>) = tokio_deref P w"
  "tokio_deref P (w\<lparr>tok_waiters := m\<rparr>) = tokio_deref P w"
  "tokio_deref P (tokio_signal P a w) = tokio_deref P w"
  "tokio_deref P (tokio_registration_drop g w) = tokio_deref P w"
  "tokio_poll_notified P a w = (ready, w') \<Longrightarrow> tokio_deref P w' = tokio_deref P w"
  "tokio_register_waiter P w = (r, w') \<Longrightarrow> tokio_deref P w' = tokio_deref P w"
  "tokio_poll_deadline P wk f w = (pr, f', w') \<Longrightarrow> tokio_deref P w' = tokio_deref P w"
  "tokio_deadline_reached P wk f w = (b, f', w') \<Longrightarrow> tokio_deref P w' = tokio_deref P w"
  "tokio_timer_at P i w = (x, w') \<Longrightarrow> tokio_deref P w' = tokio_deref P w"
  by (auto simp: tokio_deref_def dest!: poll_notified_frame register_waiter_frame poll_deadline_moves
      deadline_reached_moves timer_at_moves)

context tokio_contract
begin

text \<open>One step: what is known before gives what is known after, and the value moves by the region.\<close>

lemma read_step_ok:
  assumes "tokio_with_read_async P f l w = (r, w')" and "read_ok f l (tokio_deref P w)"
  shows "stepped_ok (read_ok f) (\<lambda>x d. f d = x) r (tokio_deref P w') \<and> tokio_deref P w' = tokio_deref P w"
  using assms
  by (cases l) (auto simp: tokio_with_read_async_def Let_def poll_lock_view(1) split: lock_poll.splits prod.splits)

lemma write_step_ok:
  assumes "tokio_with_write_async P f l w = (r, w')" and "write_ok f l (tokio_deref P w)"
  shows "stepped_ok (write_ok f) (\<lambda>x d. \<exists>d0. f d0 = (x, d)) r (tokio_deref P w') \<and>
    (tokio_deref P w' = tokio_deref P w \<or> (\<exists>x. f (tokio_deref P w) = (x, tokio_deref P w')))"
  using assms
  by (cases l) (auto simp: tokio_with_write_async_def poll_lock_view(1) split: lock_poll.splits prod.splits)

lemma notify_step_ok:
  "tokio_notify_one P n w = (r, w') \<Longrightarrow> tokio_deref P w' = tokio_deref P w \<and>
     stepped_ok (\<lambda>_ _. True) (\<lambda>x d. x = Return ()) r (tokio_deref P w')"
  "tokio_notify_all P n w = (r, w') \<Longrightarrow> tokio_deref P w' = tokio_deref P w \<and>
     stepped_ok (\<lambda>_ _. True) (\<lambda>x d. x = Return ()) r (tokio_deref P w')"
  by (auto simp: tokio_notify_one_def tokio_notify_all_def deref_frame
      split: notify_pc.splits list.splits prod.splits)

lemma wait_step_ok:
  assumes "tokio_wait_while_async P predicate action l w = (r, w')"
    and "wait_ok predicate action l (tokio_deref P w)" and "registry_inv (tok_registry w)"
  shows "stepped_ok (wait_ok predicate action) (wait_result predicate action) r (tokio_deref P w') \<and>
    (tokio_deref P w' = tokio_deref P w \<or> (answered predicate False (tokio_deref P w) \<and>
      (\<exists>x. action (tokio_deref P w) = (x, tokio_deref P w'))))"
proof (cases l)
  case (Wt_check p)
  obtain b p' where b: "predicate p (tokio_deref P w) = (b, p')" by fastforce
  have "answered predicate c (tokio_deref P w)" if "b = Return c" for c
    using b that by (auto intro: answeredI)
  then show ?thesis
    using assms(1) Wt_check b
    by (cases b) (auto simp: tokio_wait_while_async_def panic_left_def split: bool.splits)
next
  case (Wt_register p)
  obtain g v where g: "tokio_register_waiter P w = (g, v)" by fastforce
  have "g = Panic exhausted_message" if "\<forall>x. g \<noteq> Return x"
    using register_waiter_failed(2) [OF assms(3) g] that by simp
  then show ?thesis
    using assms(1) Wt_register g deref_frame(6) [OF g]
    by (cases g) (auto simp: tokio_wait_while_async_def panic_left_def)
next
  case Wt_action
  then show ?thesis
    using assms(1,2) by (auto simp: tokio_wait_while_async_def Let_def
        intro: wait_result_panicI(2) [OF region_leftI] split: prod.splits)
qed (use assms in \<open>auto simp: tokio_wait_while_async_def deref_frame poll_lock_view(1)
    split: lock_poll.splits prod.splits\<close>)

lemma loop_step_ok:
  assumes "timed_loop_step P wk predicate action l w = (r, w')"
    and "loop_ok predicate action l (tokio_deref P w)" and "registry_inv (tok_registry w)"
  shows "stepped_ok (loop_ok predicate action) (timed_result predicate action) r (tokio_deref P w') \<and>
    (tokio_deref P w' = tokio_deref P w \<or> (answered predicate False (tokio_deref P w) \<and>
      (\<exists>x. action (tokio_deref P w) = (x, tokio_deref P w'))))"
proof (cases l)
  case (Lp_check reached f p)
  obtain b p' where b: "predicate p (tokio_deref P w) = (b, p')" by fastforce
  have "answered predicate c (tokio_deref P w)" if "b = Return c" for c
    using b that by (auto intro: answeredI)
  then show ?thesis
    using assms(1) Lp_check b
    by (cases b) (auto simp: timed_loop_step_def panic_left_def)
next
  case (Lp_register f p)
  obtain g v where g: "tokio_register_waiter P w = (g, v)" by fastforce
  have "g = Panic exhausted_message" if "\<forall>x. g \<noteq> Return x"
    using register_waiter_failed(2) [OF assms(3) g] that by simp
  then show ?thesis
    using assms(1) Lp_register g deref_frame(6) [OF g]
    by (cases g) (auto simp: timed_loop_step_def panic_left_def)
next
  case Lp_action
  then show ?thesis
    using assms(1,2) by (auto simp: timed_loop_step_def Let_def
        intro: wait_result_panicI(3) [OF region_leftI] split: prod.splits)
next
  case (Lp_wait g s p)
  then show ?thesis
    using assms(1) by (auto simp: timed_loop_step_def wait_until_signalled_or_deadline_def
        after_wait_def deref_frame split: signal_pc.splits prod.splits poll.splits sum.splits)
qed (use assms in \<open>auto simp: timed_loop_step_def deref_frame poll_lock_view(1)
    split: lock_poll.splits prod.splits sum.splits\<close>)

lemma deadline_step_ok:
  assumes "tokio_wait_while_with_deadline_async P wk deadline predicate action l w = (r, w')"
    and "deadline_ok predicate action l (tokio_deref P w)" and "registry_inv (tok_registry w)"
  shows "stepped_ok (deadline_ok predicate action) (timed_result predicate action) r (tokio_deref P w') \<and>
    (tokio_deref P w' = tokio_deref P w \<or> (answered predicate False (tokio_deref P w) \<and>
      (\<exists>x. action (tokio_deref P w) = (x, tokio_deref P w'))))"
proof (cases l)
  case (Dl_check p)
  obtain b p' where b: "predicate p (tokio_deref P w) = (b, p')" by fastforce
  have "answered predicate c (tokio_deref P w)" if "b = Return c" for c
    using b that by (auto intro: answeredI)
  then show ?thesis
    using assms(1) Dl_check b
    by (cases b) (auto simp: tokio_wait_while_with_deadline_async_def panic_left_def)
next
  case (Dl_loop m)
  then obtain x where x: "timed_loop_step P wk predicate action m w = (x, w')"
    "r = await_step Dl_loop Fin x"
    using assms(1) by (cases "timed_loop_step P wk predicate action m w")
      (auto simp: tokio_wait_while_with_deadline_async_def)
  note step = loop_step_ok [OF x(1) _ assms(3)]
  show ?thesis
    using step assms(2) Dl_loop x(2)
    by (auto intro!: stepped_ok_await [of "loop_ok predicate action" "timed_result predicate action"])
qed (use assms in \<open>auto simp: tokio_wait_while_with_deadline_async_def deref_frame poll_lock_view(1)
    split: lock_poll.splits prod.splits sum.splits bool.splits\<close>)

lemma for_step_ok:
  assumes "tokio_wait_while_for_async P wk limit predicate action l w = (r, w')"
    and "for_ok predicate action l (tokio_deref P w)" and "registry_inv (tok_registry w)"
  shows "stepped_ok (for_ok predicate action) (timed_result predicate action) r (tokio_deref P w') \<and>
    (tokio_deref P w' = tokio_deref P w \<or> (answered predicate False (tokio_deref P w) \<and>
      (\<exists>x. action (tokio_deref P w) = (x, tokio_deref P w'))))"
proof (cases l)
  case (Fo_check i p)
  obtain b p' where b: "predicate p (tokio_deref P w) = (b, p')" by fastforce
  have "answered predicate c (tokio_deref P w)" if "b = Return c" for c
    using b that by (auto intro: answeredI)
  then show ?thesis
    using assms(1) Fo_check b by (cases b) (auto simp: tokio_wait_while_for_async_def panic_left_def)
next
  case (Fo_loop m)
  then obtain x where x: "timed_loop_step P wk predicate action m w = (x, w')"
    "r = await_step Fo_loop Fin x"
    using assms(1) by (cases "timed_loop_step P wk predicate action m w")
      (auto simp: tokio_wait_while_for_async_def)
  note step = loop_step_ok [OF x(1) _ assms(3)]
  show ?thesis
    using step assms(2) Fo_loop x(2)
    by (auto intro!: stepped_ok_await [of "loop_ok predicate action" "timed_result predicate action"])
qed (use assms in \<open>auto simp: tokio_wait_while_for_async_def deref_frame poll_lock_view(1)
    split: lock_poll.splits prod.splits sum.splits\<close>)

lemma write_notify_step_ok:
  assumes "tokio_with_write_notify_one_async P f l w = (r, w') \<or>
      tokio_with_write_notify_all_async P f l w = (r, w')"
    and "write_notify_ok f l (tokio_deref P w)"
  shows "stepped_ok (write_notify_ok f) (\<lambda>x d. \<exists>d0 d1. f d0 = (x, d1)) r (tokio_deref P w') \<and>
    (tokio_deref P w' = tokio_deref P w \<or> (\<exists>x. f (tokio_deref P w) = (x, tokio_deref P w')))"
proof (cases l)
  case (Wn_write a)
  then obtain x where x: "tokio_with_write_async P f a w = (x, w')" "r = await_step Wn_write after_write x"
    using assms(1) by (cases "tokio_with_write_async P f a w")
      (auto simp: tokio_with_write_notify_one_async_def tokio_with_write_notify_all_async_def)
  have "stepped_ok (write_notify_ok f) (\<lambda>x d. \<exists>d0 d1. f d0 = (x, d1)) (after_write y) d"
    if "\<exists>d0. f d0 = (y, d)" for y d
    using that by (cases y) (auto simp: after_write_def)
  then show ?thesis
    using write_step_ok [OF x(1)] assms(2) Wn_write x(2) by (auto intro!: stepped_ok_await)
next
  case (Wn_notify y n)
  then consider x where "tokio_notify_one P n w = (x, w')"
      "r = await_step (Wn_notify y) (\<lambda>_. Fin (Return y)) x"
    | x where "tokio_notify_all P n w = (x, w')" "r = await_step (Wn_notify y) (\<lambda>_. Fin (Return y)) x"
    using assms(1) by (cases "tokio_notify_one P n w"; cases "tokio_notify_all P n w")
      (auto simp: tokio_with_write_notify_one_async_def tokio_with_write_notify_all_async_def)
  then show ?thesis
    using assms(2) Wn_notify notify_step_ok [of n w _ w'] by cases (case_tac x; fastforce)+
qed

lemma await_ok:
  assumes "apfst (await_step inside k) p = (r, w')"
    and "\<And>x. p = (x, w') \<Longrightarrow> stepped_ok ok res x (tokio_deref P w') \<and> Q'"
    and "Q' \<Longrightarrow> Q" and "\<And>l d. ok l d \<Longrightarrow> ok' (inside l) d" and "\<And>y d. res y d \<Longrightarrow> stepped_ok ok' res' (k y) d"
  shows "stepped_ok ok' res' r (tokio_deref P w') \<and> Q"
proof -
  obtain x where "p = (x, w')" "r = await_step inside k x" using assms(1) by (cases p) auto
  then show ?thesis using assms(2-5) by (auto intro: stepped_ok_await)
qed

lemma task_step_ok:
  assumes "task_step P i l w = (r, w')" and "task_ok l (tokio_deref P w)" and "registry_inv (tok_registry w)"
  shows "stepped_ok task_ok (call_result l) r (tokio_deref P w') \<and>
    (tokio_deref P w' = tokio_deref P w \<or> region l (tokio_deref P w) (tokio_deref P w'))"
proof (cases l)
  case (T_read f a)
  note eq = assms(1) [unfolded T_read task_step_def task.case]
  show ?thesis
    by (rule await_ok [OF eq], rule read_step_ok) (use assms(2,3) T_read in auto)
next
  case (T_write f a)
  note eq = assms(1) [unfolded T_write task_step_def task.case]
  show ?thesis
    by (rule await_ok [OF eq], rule write_step_ok) (use assms(2,3) T_write in auto)
next
  case (T_write_one f a)
  note eq = assms(1) [unfolded T_write_one task_step_def task.case]
  show ?thesis
    by (rule await_ok [OF eq], rule write_notify_step_ok [OF disjI1]) (use assms(2,3) T_write_one in auto)
next
  case (T_write_all f a)
  note eq = assms(1) [unfolded T_write_all task_step_def task.case]
  show ?thesis
    by (rule await_ok [OF eq], rule write_notify_step_ok [OF disjI2]) (use assms(2,3) T_write_all in auto)
next
  case (T_wait predicate action a)
  note eq = assms(1) [unfolded T_wait task_step_def task.case]
  show ?thesis
    by (rule await_ok [OF eq], rule wait_step_ok) (use assms(2,3) T_wait in auto)
next
  case (T_deadline deadline predicate action a)
  note eq = assms(1) [unfolded T_deadline task_step_def task.case]
  show ?thesis
    by (rule await_ok [OF eq], rule deadline_step_ok) (use assms(2,3) T_deadline in auto)
next
  case (T_for limit predicate action a)
  note eq = assms(1) [unfolded T_for task_step_def task.case]
  show ?thesis
    by (rule await_ok [OF eq], rule for_step_ok) (use assms(2,3) T_for in auto)
next
  case (T_notify_one n)
  note eq = assms(1) [unfolded T_notify_one task_step_def task.case]
  show ?thesis
    by (rule await_ok [OF eq], rule conj_commute [THEN iffD1], rule notify_step_ok(1)) (use assms(2,3) T_notify_one in auto)
next
  case (T_notify_all n)
  note eq = assms(1) [unfolded T_notify_all task_step_def task.case]
  show ?thesis
    by (rule await_ok [OF eq], rule conj_commute [THEN iffD1], rule notify_step_ok(2)) (use assms(2,3) T_notify_all in auto)
qed

text \<open>A step of the system is a step of one task, or does not touch the value.\<close>

lemma sys_step_kinds:
  assumes "sys_step P s s'" and "sys_inv P permit s"
  obtains (stepped) i l r where "sys_slots s i = Running l" "task_step P i l (sys_mon s) = (r, sys_mon s')"
      "sys_slots s' = (sys_slots s)(i := slot_after r)"
    | (other) "tokio_deref P (sys_mon s') = tokio_deref P (sys_mon s)"
      "\<And>j m. live (sys_slots s' j) m \<Longrightarrow> live (sys_slots s j) m \<or> task_start m"
      "\<And>j l r. sys_slots s j = Running l \<Longrightarrow> sys_slots s' j \<noteq> Done r"
  using assms(1)
proof (cases rule: sys_step.cases)
  case (go i l l' w)
  then show ?thesis by (intro stepped [of i l "Go l'"]) simp_all
next
  case (pend i l l' w)
  then show ?thesis by (intro stepped [of i l "Pend l'"]) simp_all
next
  case (fin i l r w)
  then show ?thesis by (intro stepped [of i l "Fin r"]) simp_all
next
  case (cancel i l)
  then show ?thesis
    using cancel_exact(3) [OF assms(2)] by (intro other) (auto split: if_splits)
next
  case tick
  then show ?thesis by (intro other) (auto simp: deref_frame)
qed (rule other; force split: if_splits)+

lemma step_guarded_value:
  assumes "sys_slots s i = Running l" and "task_step P i l (sys_mon s) = (r, w)"
  shows "holds_guard (task_foot l) \<or> tokio_deref P w = tokio_deref P (sys_mon s)"
  using effect_deref [OF tasks.step_effect [OF assms(2)]] by auto

lemma sys_step_values:
  assumes "sys_step P s s'" and "sys_inv P permit s" and "values_inv P s"
  shows "values_inv P s' \<and> (tokio_deref P (sys_mon s') = tokio_deref P (sys_mon s) \<or>
      (\<exists>i l. sys_slots s i = Running l \<and>
        region l (tokio_deref P (sys_mon s)) (tokio_deref P (sys_mon s')))) \<and>
    (\<forall>i l r. sys_slots s i = Running l \<and> sys_slots s' i = Done r \<longrightarrow>
      call_result l r (tokio_deref P (sys_mon s')))"
  using assms(1,2)
proof (cases rule: sys_step_kinds)
  case (stepped i l r)
  have "registry_inv (tok_registry (sys_mon s))" using assms(2) by (simp add: sys_inv_def owner_inv_def)
  moreover have "task_ok l (tokio_deref P (sys_mon s))"
    using assms(3) [unfolded values_inv_def, rule_format, of i l] stepped(1) by simp
  ultimately have own: "stepped_ok task_ok (call_result l) r (tokio_deref P (sys_mon s'))"
    and move: "tokio_deref P (sys_mon s') = tokio_deref P (sys_mon s) \<or>
      region l (tokio_deref P (sys_mon s)) (tokio_deref P (sys_mon s'))"
    using task_step_ok [OF stepped(2)] by simp_all
  have others: "task_ok m (tokio_deref P (sys_mon s'))" if m: "j \<noteq> i" "live (sys_slots s j) m" for j m
  proof (cases "holds_guard (task_foot m)")
    case True
    have "sys_slots s j = Running m"
      using m(2) True suspended_quiet [OF assms(2), of j m] by (auto simp: quiet_def live_def)
    then have "\<not> holds_guard (task_foot l)"
      using exclusion(2) [OF assms(2) stepped(1) _ _ True] m(1) by blast
    then have "tokio_deref P (sys_mon s') = tokio_deref P (sys_mon s)"
      using step_guarded_value [OF stepped(1,2)] by simp
    then show ?thesis using assms(3) m(2) by (simp add: values_inv_def)
  next
    case False
    have "task_ok m (tokio_deref P (sys_mon s))" using assms(3) m(2) by (simp add: values_inv_def)
    then show ?thesis by (rule task_ok_unguarded [OF False])
  qed
  have "task_ok m (tokio_deref P (sys_mon s'))" if "live (sys_slots s' j) m" for j m
    using that own others [of j m] stepped(3) by (cases "j = i") (auto simp: live_after)
  then have "values_inv P s'" by (simp add: values_inv_def)
  moreover have "call_result m x (tokio_deref P (sys_mon s'))"
    if "sys_slots s j = Running m" "sys_slots s' j = Done x" for j m x
    using that own stepped(1,3) by (cases "j = i"; cases r) auto
  ultimately show ?thesis using move stepped(1) by blast
next
  case other
  have "task_ok m (tokio_deref P (sys_mon s'))" if "live (sys_slots s' j) m" for j m
    using other(2) [OF that] assms(3) other(1) task_start_ok by (auto simp: values_inv_def)
  then show ?thesis using other(1,3) by (auto simp: values_inv_def)
qed

lemma reachable_values: "tok_reachable P d k s \<Longrightarrow> values_inv P s"
proof (induction rule: tok_reachable.induct)
  case init
  show ?case by (simp add: values_inv_def sys_init_def)
next
  case (step s s')
  then show ?case using sys_step_values reachable_inv by blast
qed

end

section \<open>Guarantees\<close>

text \<open>C6: the Tokio monitor refines conditional critical regions. Every step of every interleaving
  leaves the protected value alone, or it is the atomic step of one running call: the closure of a
  write applied to the current value, or the action of a wait applied to a current value on which
  its predicate has answered false.\<close>

theorem tokio_refines_regions:
  assumes "tokio_contract P permit" and "tok_reachable P d k s" and "sys_step P s s'"
  shows "tokio_deref P (sys_mon s') = tokio_deref P (sys_mon s) \<or>
    (\<exists>i l. sys_slots s i = Running l \<and>
      region l (tokio_deref P (sys_mon s)) (tokio_deref P (sys_mon s')))"
  using tokio_contract.sys_step_values [OF assms(1,3) tokio_contract.reachable_inv [OF assms(1,2)]
      tokio_contract.reachable_values [OF assms(1,2)]] by blast

theorem tokio_refines_regions_witness:
  "\<exists>s. demo_handoff = Some s \<and> (\<forall>s'. sys_step demo_tokio s s' \<longrightarrow>
     tokio_deref demo_tokio (sys_mon s') = tokio_deref demo_tokio (sys_mon s) \<or>
     (\<exists>i l. sys_slots s i = Running l \<and>
       region l (tokio_deref demo_tokio (sys_mon s)) (tokio_deref demo_tokio (sys_mon s'))))"
proof -
  obtain s where run: "demo_handoff = Some s" using demo_handoff_slot by auto
  show ?thesis
    using run tokio_refines_regions [OF demo_contract demo_runs_reachable(2) [OF run]] by blast
qed

text \<open>C17: what the result of a call means. When a call finishes, a read gives its closure's result on
  the current value; a write gives its closure's result; a wait gives the result of its action, run
  on a value on which the predicate had answered false, and the value is what the action left; a
  timed wait that reports \<^verbatim>\<open>TimedOut\<close> leaves a value on which the predicate answered true; a panic is
  that of the predicate, of the action, or of exhausted waiter identifiers.\<close>

theorem tokio_call_results:
  assumes "tokio_contract P permit" and "tok_reachable P d k s" and "sys_step P s s'"
    and "sys_slots s i = Running l" and "sys_slots s' i = Done r"
  shows "call_result l r (tokio_deref P (sys_mon s'))"
  using tokio_contract.sys_step_values [OF assms(1,3) tokio_contract.reachable_inv [OF assms(1,2)]
      tokio_contract.reachable_values [OF assms(1,2)]] assms(4,5) by blast

theorem tokio_call_results_witness:
  "\<exists>s s'. demo_handoff = Some s \<and> sys_exec demo_tokio (Advance 0) s = Some s' \<and>
     call_result (T_wait demo_zero demo_take_one (Wt_drop_guard (Return 1)) :: demo_task) (Return (Value 1))
       (tokio_deref demo_tokio (sys_mon s'))"
proof -
  obtain s where run: "demo_handoff = Some s"
    and slot: "sys_slots s 0 = Running (T_wait demo_zero demo_take_one (Wt_drop_guard (Return 1)))"
    using demo_handoff_slot by auto
  have "\<exists>s'. sys_exec demo_tokio (Advance 0) s = Some s' \<and> sys_slots s' 0 = Done (Return (Value 1))"
    using slot by (simp add: sys_exec_def task_defs)
  then obtain s' where exec: "sys_exec demo_tokio (Advance 0) s = Some s'"
    and finished: "sys_slots s' 0 = Done (Return (Value 1))" by blast
  show ?thesis
    using run exec tokio_call_results [OF demo_contract demo_runs_reachable(2) [OF run]
        sys_exec_step [OF exec] slot finished] by blast
qed

end
