(* ===== verification/Tokio_Timing.thy ===== *)
theory Tokio_Timing
  imports Tokio_Regions
begin

text \<open>
  A timed wait of the Tokio monitor never gives up early. The assertions attached to the program
  counters say for which deadline the Timer future has been obtained and when the deadline is known
  to have passed; the clock does not go back, so they are stable under the steps of other tasks.
\<close>

section \<open>Assertions\<close>

text \<open>
  \<open>D\<close> is the set of admissible deadlines of the call, and \<open>Z\<close> says that it may report a timeout
  without any (a zero timeout).
\<close>

fun signal_future :: "'f signal_pc \<Rightarrow> 'f" where
  "signal_future (Sg_deadline f) = f"
| "signal_future (Sg_notified f) = f"

definition armed_for :: "('i \<Rightarrow> 'f \<Rightarrow> bool) \<Rightarrow> ('i \<Rightarrow> bool) \<Rightarrow> 'f \<Rightarrow> ('i \<Rightarrow> bool) \<Rightarrow> bool" where
  "armed_for armed D f over \<longleftrightarrow> (\<exists>i. D i \<and> armed i f \<and> over i)"

fun loop_timing ::
  "('i \<Rightarrow> bool) \<Rightarrow> ('i \<Rightarrow> 'f \<Rightarrow> bool) \<Rightarrow> ('i \<Rightarrow> bool) \<Rightarrow> bool \<Rightarrow> ('q, 'p, 'f, 'e, 'r) loop_pc \<Rightarrow> bool"
where
  "loop_timing reached armed D Z (Lp_register f p) = armed_for armed D f (\<lambda>_. True)"
| "loop_timing reached armed D Z (Lp_release g f p) = armed_for armed D f (\<lambda>_. True)"
| "loop_timing reached armed D Z (Lp_wait g s p) = armed_for armed D (signal_future s) (\<lambda>_. True)"
| "loop_timing reached armed D Z (Lp_unregister g status f p) =
     armed_for armed D f (\<lambda>i. status = Inr StatusTimedOut \<longrightarrow> reached i)"
| "loop_timing reached armed D Z (Lp_lock q status f p) =
     armed_for armed D f (\<lambda>i. status = Inr StatusTimedOut \<longrightarrow> reached i)"
| "loop_timing reached armed D Z (Lp_status status f p) =
     armed_for armed D f (\<lambda>i. status = Inr StatusTimedOut \<longrightarrow> reached i)"
| "loop_timing reached armed D Z (Lp_probe f p) = armed_for armed D f (\<lambda>_. True)"
| "loop_timing reached armed D Z (Lp_check b f p) = armed_for armed D f (\<lambda>i. b \<longrightarrow> reached i)"
| "loop_timing reached armed D Z (Lp_drop_guard r) =
     (r = Return (Inr TimedOut) \<longrightarrow> Z \<or> (\<exists>i. D i \<and> reached i))"
| "loop_timing reached armed D Z _ = True"

fun deadline_timing ::
  "('i \<Rightarrow> bool) \<Rightarrow> ('i \<Rightarrow> 'f \<Rightarrow> bool) \<Rightarrow> 'i \<Rightarrow> ('q, 'p, 'f, 'e, 'r) deadline_pc \<Rightarrow> bool"
where
  "deadline_timing reached armed at (Dl_probe f p) = armed at f"
| "deadline_timing reached armed at (Dl_loop l) = loop_timing reached armed (\<lambda>i. i = at) False l"
| "deadline_timing reached armed at _ = True"

text \<open>An instant that is not before the clock state \<open>k0\<close>, and the deadlines a timeout gives.\<close>

definition since :: "('k, 'i, 'f, 'e) timer_ops \<Rightarrow> ('i \<Rightarrow> 'i \<Rightarrow> bool) \<Rightarrow> 'k \<Rightarrow> 'i \<Rightarrow> bool" where
  "since T le k0 i \<longleftrightarrow> (\<forall>j. le j (tm_now T k0) \<longrightarrow> le j i)"

definition timeout_deadline ::
  "('k, 'i, 'f, 'e) timer_ops \<Rightarrow> ('i \<Rightarrow> 'i \<Rightarrow> bool) \<Rightarrow> 'k \<Rightarrow> duration \<Rightarrow> 'i \<Rightarrow> bool"
where
  "timeout_deadline T le k0 limit at \<longleftrightarrow>
     (\<exists>started. since T le k0 started \<and> tm_checked_add T started limit = Inr at)"

fun for_timing ::
  "('k, 'i, 'f, 'e) timer_ops \<Rightarrow> ('i \<Rightarrow> 'i \<Rightarrow> bool) \<Rightarrow> ('i \<Rightarrow> 'f \<Rightarrow> bool) \<Rightarrow> 'k \<Rightarrow> duration \<Rightarrow>
   ('q, 'p, 'i, 'f, 'e, 'r) for_pc \<Rightarrow> 'k \<Rightarrow> bool"
where
  "for_timing T le armed k0 limit (Fo_check i p) k = since T le k0 i"
| "for_timing T le armed k0 limit (Fo_deadline i p) k = since T le k0 i"
| "for_timing T le armed k0 limit (Fo_arm i p) k = timeout_deadline T le k0 limit i"
| "for_timing T le armed k0 limit (Fo_loop l) k =
     loop_timing (\<lambda>i. le i (tm_now T k)) armed (timeout_deadline T le k0 limit) (duration_is_zero limit) l"
| "for_timing T le armed k0 limit _ k = True"

fun task_timing ::
  "('k, 'i, 'f, 'e) timer_ops \<Rightarrow> ('i \<Rightarrow> 'i \<Rightarrow> bool) \<Rightarrow> ('i \<Rightarrow> 'f \<Rightarrow> bool) \<Rightarrow> 'k \<Rightarrow>
   ('t, 'q, 'p, 'i, 'f, 'e, 'r) task \<Rightarrow> 'k \<Rightarrow> bool"
where
  "task_timing T le armed k0 (T_deadline at predicate action l) k =
     deadline_timing (\<lambda>i. le i (tm_now T k)) armed at l"
| "task_timing T le armed k0 (T_for limit predicate action l) k = for_timing T le armed k0 limit l k"
| "task_timing T le armed k0 _ k = True"

text \<open>When a timed call may report \<^verbatim>\<open>TimedOut\<close>.\<close>

fun may_time_out ::
  "('k, 'i, 'f, 'e) timer_ops \<Rightarrow> ('i \<Rightarrow> 'i \<Rightarrow> bool) \<Rightarrow> 'k \<Rightarrow> ('t, 'q, 'p, 'i, 'f, 'e, 'r) task \<Rightarrow> 'k \<Rightarrow> bool"
where
  "may_time_out T le k0 (T_deadline at predicate action l) k \<longleftrightarrow> le at (tm_now T k)"
| "may_time_out T le k0 (T_for limit predicate action l) k \<longleftrightarrow> duration_is_zero limit \<or>
     (\<exists>at. timeout_deadline T le k0 limit at \<and> le at (tm_now T k))"
| "may_time_out T le k0 _ k \<longleftrightarrow> False"

section \<open>The clock\<close>

lemma clock_moves_le:
  "honest_timer T le armed \<Longrightarrow> clock_moves T k k' \<Longrightarrow> le i (tm_now T k) \<Longrightarrow> le i (tm_now T k')"
  by (erule clock_moves.cases) (auto dest: honest_timerD(4-6))

lemma effect_clock: "tok_effect P \<phi> w \<phi>' w' \<Longrightarrow>
   tok_timer w' = tok_timer w \<or> clock_moves (tp_timer P) (tok_timer w) (tok_timer w')"
  by (erule tok_effect.cases)
    (auto dest: poll_lock_frame register_waiter_frame poll_notified_frame)

lemma armed_for_mono:
  "armed_for armed D f over \<Longrightarrow> (\<And>i. over i \<Longrightarrow> over' i) \<Longrightarrow> armed_for armed D f over'"
  by (auto simp: armed_for_def)

lemma loop_timing_mono:
  assumes "loop_timing reached armed D Z l" and "\<And>i. reached i \<Longrightarrow> reached' i"
  shows "loop_timing reached' armed D Z l"
  using assms by (cases l) (auto elim!: armed_for_mono)

lemma task_timing_mono:
  assumes "task_timing T le armed k0 l k" and "\<And>i. le i (tm_now T k) \<Longrightarrow> le i (tm_now T k')"
  shows "task_timing T le armed k0 l k'"
proof (cases l)
  case (T_deadline at predicate action a)
  then show ?thesis using assms by (cases a) (auto elim: loop_timing_mono)
next
  case (T_for limit predicate action a)
  then show ?thesis using assms by (cases a) (auto elim: loop_timing_mono)
qed simp_all

section \<open>Steps keep the assertions\<close>

lemma poll_deadline_armed:
  assumes "honest_timer (tp_timer P) le armed" and "tokio_poll_deadline P wk f w = (r, f', w')"
    and "armed_for armed D f over"
  shows "armed_for armed D f' (\<lambda>i. r = Poll_ready (Inr ()) \<longrightarrow> le i (tm_now (tp_timer P) (tok_timer w')))"
proof -
  obtain k where k: "tm_poll (tp_timer P) wk f (tok_timer w) = (r, f', k)" "tok_timer w' = k"
    using assms(2) by (auto simp: tokio_poll_deadline_def split: prod.splits)
  show ?thesis
    using assms(3) honest_timerD(2,3) [OF assms(1)] k by (auto simp: armed_for_def)
qed

lemma deadline_reached_armed:
  assumes "honest_timer (tp_timer P) le armed" and "tokio_deadline_reached P wk f w = (Inr b, f', w')"
    and "armed_for armed D f over"
  shows "armed_for armed D f' (\<lambda>i. b \<longrightarrow> le i (tm_now (tp_timer P) (tok_timer w')))"
proof -
  obtain r where poll: "tokio_poll_deadline P wk f w = (r, f', w')" and "b \<Longrightarrow> r = Poll_ready (Inr ())"
    using assms(2) by (auto simp: tokio_deadline_reached_def split: prod.splits poll.splits sum.splits)
  then show ?thesis
    using poll_deadline_armed [OF assms(1) poll assms(3)] by (auto elim: armed_for_mono)
qed

lemma loop_step_timing:
  assumes "honest_timer (tp_timer P) le armed" and "timed_loop_step P wk predicate action l w = (r, w')"
    and "loop_timing (\<lambda>i. le i (tm_now (tp_timer P) (tok_timer w))) armed D Z l"
  shows "stepped_ok (\<lambda>l k. loop_timing (\<lambda>i. le i (tm_now (tp_timer P) k)) armed D Z l)
    (\<lambda>x k. x = Return (Inr TimedOut) \<longrightarrow> Z \<or> (\<exists>i. D i \<and> le i (tm_now (tp_timer P) k))) r (tok_timer w')"
proof (cases l)
  case (Lp_register f p)
  obtain g v where g: "tokio_register_waiter P w = (g, v)" by fastforce
  show ?thesis
    using assms(2,3) Lp_register g register_waiter_frame [OF g]
    by (cases g) (auto simp: timed_loop_step_def)
next
  case (Lp_wait g s p)
  then have armed: "armed_for armed D (signal_future s) (\<lambda>_. True)" using assms(3) by simp
  show ?thesis
  proof (cases s)
    case (Sg_deadline f)
    obtain pr f' v where poll: "tokio_poll_deadline P wk f w = (pr, f', v)"
      by (cases "tokio_poll_deadline P wk f w")
    have "armed_for armed D f' (\<lambda>i. pr = Poll_ready (Inr ()) \<longrightarrow> le i (tm_now (tp_timer P) (tok_timer v)))"
      using poll_deadline_armed [OF assms(1) poll] armed Sg_deadline by simp
    then show ?thesis
      using assms(2) Lp_wait Sg_deadline poll
      by (auto simp: timed_loop_step_def wait_until_signalled_or_deadline_def after_wait_def
          split: poll.splits sum.splits elim: armed_for_mono)
  next
    case (Sg_notified f)
    then show ?thesis
      using assms(2) Lp_wait armed
      by (auto simp: timed_loop_step_def wait_until_signalled_or_deadline_def after_wait_def
          split: prod.splits elim: armed_for_mono)
  qed
next
  case (Lp_status status f p)
  then show ?thesis
    using assms(2,3) by (auto simp: timed_loop_step_def split: sum.splits elim: armed_for_mono)
      (case_tac x2; auto elim: armed_for_mono)+
next
  case (Lp_probe f p)
  obtain b f' v where probe: "tokio_deadline_reached P wk f w = (b, f', v)"
    by (cases "tokio_deadline_reached P wk f w")
  show ?thesis
  proof (cases b)
    case (Inl e)
    then show ?thesis using assms(2) Lp_probe probe by (auto simp: timed_loop_step_def)
  next
    case (Inr c)
    then show ?thesis
      using assms(2,3) Lp_probe probe deadline_reached_armed [OF assms(1) probe [unfolded Inr]]
      by (auto simp: timed_loop_step_def)
  qed
next
  case (Lp_check b f p)
  then show ?thesis
    using assms(2,3) by (auto simp: timed_loop_step_def armed_for_def split: prod.splits outcome.splits)
next
  case Lp_action
  then show ?thesis
    using assms(2) by (auto simp: timed_loop_step_def split: prod.splits)
qed (use assms(2,3) in \<open>auto simp: timed_loop_step_def poll_lock_frame dest!: poll_lock_frame
    split: prod.splits lock_poll.splits elim: armed_for_mono\<close>)

lemma deadline_step_timing:
  assumes "honest_timer (tp_timer P) le armed"
    and "tokio_wait_while_with_deadline_async P wk at predicate action l w = (r, w')"
    and "deadline_timing (\<lambda>i. le i (tm_now (tp_timer P) (tok_timer w))) armed at l"
  shows "stepped_ok (\<lambda>l k. deadline_timing (\<lambda>i. le i (tm_now (tp_timer P) k)) armed at l)
    (\<lambda>x k. x = Return (Inr TimedOut) \<longrightarrow> le at (tm_now (tp_timer P) k)) r (tok_timer w')"
proof (cases l)
  case (Dl_check p)
  then show ?thesis
    using assms(2) by (auto simp: tokio_wait_while_with_deadline_async_def split: prod.splits outcome.splits)
next
  case (Dl_arm p)
  then show ?thesis
    using assms(2) honest_timerD(1) [OF assms(1)]
    by (auto simp: tokio_wait_while_with_deadline_async_def tokio_timer_at_def split: prod.splits sum.splits)
next
  case (Dl_probe f p)
  obtain b f' v where probe: "tokio_deadline_reached P wk f w = (b, f', v)"
    by (cases "tokio_deadline_reached P wk f w")
  show ?thesis
  proof (cases b)
    case (Inl e)
    then show ?thesis
      using assms(2) Dl_probe probe by (auto simp: tokio_wait_while_with_deadline_async_def)
  next
    case (Inr c)
    have "armed_for armed (\<lambda>i. i = at) f (\<lambda>_. True)" using assms(3) Dl_probe by (simp add: armed_for_def)
    from deadline_reached_armed [OF assms(1) probe [unfolded Inr] this] show ?thesis
      using assms(2) Dl_probe probe Inr
      by (cases c) (auto simp: tokio_wait_while_with_deadline_async_def armed_for_def)
  qed
next
  case (Dl_loop m)
  then obtain x where x: "timed_loop_step P wk predicate action m w = (x, w')" "r = await_step Dl_loop Fin x"
    using assms(2) by (cases "timed_loop_step P wk predicate action m w")
      (auto simp: tokio_wait_while_with_deadline_async_def)
  show ?thesis
    using loop_step_timing [OF assms(1) x(1), of "\<lambda>i. i = at" False] assms(3) Dl_loop x(2)
    by (auto elim!: stepped_ok_await)
qed (use assms(2) in \<open>auto simp: tokio_wait_while_with_deadline_async_def split: prod.splits lock_poll.splits\<close>)

lemma for_step_timing:
  assumes "honest_timer (tp_timer P) le armed"
    and "tokio_wait_while_for_async P wk limit predicate action l w = (r, w')"
    and "for_timing (tp_timer P) le armed k0 limit l (tok_timer w)"
    and "since (tp_timer P) le k0 (tm_now (tp_timer P) (tok_timer w))"
  shows "stepped_ok (for_timing (tp_timer P) le armed k0 limit)
    (\<lambda>x k. x = Return (Inr TimedOut) \<longrightarrow> duration_is_zero limit \<or>
      (\<exists>at. timeout_deadline (tp_timer P) le k0 limit at \<and> le at (tm_now (tp_timer P) k))) r (tok_timer w')"
proof (cases l)
  case (Fo_check i p)
  then show ?thesis
    using assms(2,3) by (auto simp: tokio_wait_while_for_async_def split: prod.splits outcome.splits)
next
  case (Fo_deadline i p)
  then show ?thesis
    using assms(2,3) by (auto simp: tokio_wait_while_for_async_def timeout_deadline_def split: sum.splits)
next
  case (Fo_arm i p)
  then show ?thesis
    using assms(2,3) honest_timerD(1) [OF assms(1)]
    by (auto simp: tokio_wait_while_for_async_def tokio_timer_at_def armed_for_def
        intro!: exI [of _ i] split: prod.splits sum.splits)
next
  case (Fo_loop m)
  then obtain x where x: "timed_loop_step P wk predicate action m w = (x, w')" "r = await_step Fo_loop Fin x"
    using assms(2) by (cases "timed_loop_step P wk predicate action m w")
      (auto simp: tokio_wait_while_for_async_def)
  show ?thesis
    using loop_step_timing [OF assms(1) x(1), of "timeout_deadline (tp_timer P) le k0 limit"
        "duration_is_zero limit"] assms(3) Fo_loop x(2)
    by (auto elim!: stepped_ok_await)
qed (use assms(2,4) in \<open>auto simp: tokio_wait_while_for_async_def split: prod.splits lock_poll.splits\<close>)

lemma untimed_step:
  assumes "apfst (await_step inside (\<lambda>x. Fin (map_outcome f x))) q = (r, w')"
    and "\<And>m k. ok (inside m) k" and "\<And>v. f v \<noteq> y"
  shows "stepped_ok ok (\<lambda>x k. x \<noteq> Return y) r d"
proof -
  obtain z where "q = (z, w')" "r = await_step inside (\<lambda>x. Fin (map_outcome f x)) z"
    using assms(1) by (cases q) auto
  then show ?thesis using assms(2,3) by (cases z) (auto simp: map_outcome_def split: outcome.splits)
qed

lemma timed_step:
  assumes "apfst (await_step inside (\<lambda>x. Fin (map_outcome Timed x))) q = (r, w')"
    and "\<And>z. q = (z, w') \<Longrightarrow> stepped_ok ok (\<lambda>x k. x = Return (Inr TimedOut) \<longrightarrow> Q k) z d"
    and "\<And>m. ok m d \<Longrightarrow> ok' (inside m) d"
  shows "stepped_ok ok' (\<lambda>x k. x = Return (Timed (Inr TimedOut)) \<longrightarrow> Q k) r d"
proof -
  obtain z where z: "q = (z, w')" "r = await_step inside (\<lambda>x. Fin (map_outcome Timed x)) z"
    using assms(1) by (cases q) auto
  then show ?thesis using assms(2) [OF z(1)] assms(3) by (cases z) auto
qed

lemma task_step_timing:
  assumes "honest_timer (tp_timer P) le armed" and "task_step P i l w = (r, w')"
    and "task_timing (tp_timer P) le armed k0 l (tok_timer w)"
    and "since (tp_timer P) le k0 (tm_now (tp_timer P) (tok_timer w))"
  shows "stepped_ok (task_timing (tp_timer P) le armed k0)
    (\<lambda>x k. x = Return (Timed (Inr TimedOut)) \<longrightarrow> may_time_out (tp_timer P) le k0 l k) r (tok_timer w')"
proof (cases l)
  case (T_deadline at predicate action a)
  note eq = assms(2) [unfolded T_deadline task_step_def task.case]
  show ?thesis
    unfolding T_deadline may_time_out.simps
    by (rule timed_step [OF eq], erule deadline_step_timing [OF assms(1)]) (use assms(3) T_deadline in auto)
next
  case (T_for limit predicate action a)
  note eq = assms(2) [unfolded T_for task_step_def task.case]
  show ?thesis
    unfolding T_for may_time_out.simps
    by (rule timed_step [OF eq], erule for_step_timing [OF assms(1)]) (use assms(3,4) T_for in auto)
qed (use assms(2) in \<open>auto simp: task_step_def elim!: untimed_step\<close>)

section \<open>Runs\<close>

text \<open>From a state in which slot \<open>j\<close> has not begun a timed wait, the clock being at \<open>k0\<close>.\<close>

definition timing_inv ::
  "('m, 't, 'q, 'n, 'k, 'i, 'f, 'e) tokio_platform \<Rightarrow> ('i \<Rightarrow> 'i \<Rightarrow> bool) \<Rightarrow> ('i \<Rightarrow> 'f \<Rightarrow> bool) \<Rightarrow>
   nat \<Rightarrow> 'k \<Rightarrow> ('m, 't, 'q, 'n, 'k, 'p, 'i, 'f, 'e, 'r) tokio_sys \<Rightarrow> bool"
where
  "timing_inv P le armed j k0 s \<longleftrightarrow>
     since (tp_timer P) le k0 (tm_now (tp_timer P) (tok_timer (sys_mon s))) \<and>
     (\<forall>l. live (sys_slots s j) l \<longrightarrow> task_timing (tp_timer P) le armed k0 l (tok_timer (sys_mon s))) \<and>
     (\<forall>i l. sys_slots s i = Suspended l \<longrightarrow> task_awaiting l)"

lemma task_start_timing: "task_start l \<Longrightarrow> task_timing T le armed k0 l k"
  by (erule task_start.cases) simp_all

lemma sys_step_clock:
  assumes "honest_timer (tp_timer P) le armed" and "sys_step P s s'"
    and "\<forall>i l. sys_slots s i = Suspended l \<longrightarrow> task_awaiting l"
    and "le i (tm_now (tp_timer P) (tok_timer (sys_mon s)))"
  shows "le i (tm_now (tp_timer P) (tok_timer (sys_mon s')))"
proof -
  obtain j \<phi> where "tok_effect P (feet s j) (sys_mon s) \<phi> (sys_mon s')"
    by (rule sys_step_effect [OF assms(2,3)]) blast
  from effect_clock [OF this] show ?thesis using assms(4) clock_moves_le [OF assms(1)] by auto
qed

text \<open>What happens to slot \<open>j\<close> in one step.\<close>

lemma sys_step_slot:
  assumes "sys_step P s s'"
  obtains (same) "\<And>l. live (sys_slots s' j) l \<Longrightarrow> live (sys_slots s j) l \<or> task_start l"
      "\<And>l r. sys_slots s j = Running l \<Longrightarrow> sys_slots s' j \<noteq> Done r"
    | (stepped) l r where "sys_slots s j = Running l" "task_step P j l (sys_mon s) = (r, sys_mon s')"
      "sys_slots s' j = slot_after r"
  using assms
proof (cases rule: sys_step.cases)
  case (go i l l' w)
  then show ?thesis by (cases "i = j") (auto intro: stepped [of l "Go l'"] same)
next
  case (pend i l l' w)
  then show ?thesis by (cases "i = j") (auto intro: stepped [of l "Pend l'"] same)
next
  case (fin i l r w)
  then show ?thesis by (cases "i = j") (auto intro: stepped [of l "Fin r"] same)
qed (rule same; force split: if_splits)+

lemma sys_step_timing:
  assumes "honest_timer (tp_timer P) le armed" and "sys_step P s s'" and "timing_inv P le armed j k0 s"
  shows "timing_inv P le armed j k0 s' \<and> (\<forall>l. sys_slots s j = Running l \<longrightarrow>
    sys_slots s' j = Done (Return (Timed (Inr TimedOut))) \<longrightarrow>
    may_time_out (tp_timer P) le k0 l (tok_timer (sys_mon s')))"
proof -
  let ?T = "tp_timer P"
  have since: "since ?T le k0 (tm_now ?T (tok_timer (sys_mon s)))"
    and slot: "\<And>l. live (sys_slots s j) l \<Longrightarrow> task_timing ?T le armed k0 l (tok_timer (sys_mon s))"
    and await: "\<forall>i l. sys_slots s i = Suspended l \<longrightarrow> task_awaiting l"
    using assms(3) by (simp_all add: timing_inv_def)
  note clock = sys_step_clock [OF assms(1,2) await]
  have since': "since ?T le k0 (tm_now ?T (tok_timer (sys_mon s')))"
    using since clock by (auto simp: since_def)
  have await': "\<forall>i l. sys_slots s' i = Suspended l \<longrightarrow> task_awaiting l"
    by (rule sys_step_effect [OF assms(2) await]) (use await in \<open>auto split: if_splits\<close>)
  have "(\<forall>l. live (sys_slots s' j) l \<longrightarrow> task_timing ?T le armed k0 l (tok_timer (sys_mon s'))) \<and>
    (\<forall>l. sys_slots s j = Running l \<longrightarrow> sys_slots s' j = Done (Return (Timed (Inr TimedOut))) \<longrightarrow>
      may_time_out ?T le k0 l (tok_timer (sys_mon s')))"
    using assms(2)
  proof (cases rule: sys_step_slot [where j = j])
    case same
    have "task_timing ?T le armed k0 l (tok_timer (sys_mon s'))" if "live (sys_slots s' j) l" for l
      using same(1) [OF that]
    proof
      assume "live (sys_slots s j) l"
      then show ?thesis by (rule task_timing_mono [OF slot clock])
    qed (rule task_start_timing)
    then show ?thesis using same(2) by blast
  next
    case (stepped l r)
    have "task_timing ?T le armed k0 l (tok_timer (sys_mon s))" using slot stepped(1) by simp
    from task_step_timing [OF assms(1) stepped(2) this since] show ?thesis
      using stepped(1,3) by (cases r) auto
  qed
  then show ?thesis using since' await' by (simp add: timing_inv_def)
qed

lemma steps_timing:
  assumes "honest_timer (tp_timer P) le armed" and "(sys_step P)\<^sup>*\<^sup>* s s'" and "timing_inv P le armed j k0 s"
  shows "timing_inv P le armed j k0 s'"
  using assms(2,3) by (induction rule: rtranclp_induct) (auto dest: sys_step_timing [OF assms(1)])

lemma reachable_awaiting:
  "tok_reachable P d k s \<Longrightarrow> \<forall>i l. sys_slots s i = Suspended l \<longrightarrow> task_awaiting l"
proof (induction rule: tok_reachable.induct)
  case init
  show ?case by (simp add: sys_init_def)
next
  case (step s s')
  show ?case by (rule sys_step_effect [OF step(2,3)]) (use step(3) in \<open>auto split: if_splits\<close>)
qed

lemma reachable_timing:
  assumes "honest_timer (tp_timer P) le armed" and "tok_reachable P d k s"
  shows "timing_inv P le armed j k s"
  using assms(2)
proof (induction rule: tok_reachable.induct)
  case init
  show ?case by (simp add: timing_inv_def sys_init_def tokio_with_timer_def since_def)
next
  case (step s s')
  then show ?case using sys_step_timing [OF assms(1)] by blast
qed

section \<open>Guarantees\<close>

text \<open>C28: \<^verbatim>\<open>wait_while_with_deadline_async\<close> reports \<^verbatim>\<open>TimedOut\<close> only once the deadline has been reached, in
  every interleaving, given a Timer whose futures complete no earlier than their instant.\<close>

theorem tokio_deadline_not_early:
  assumes "honest_timer (tp_timer P) le armed" and "tok_reachable P d k s" and "sys_step P s s'"
    and "sys_slots s i = Running (T_deadline deadline predicate action l)"
    and "sys_slots s' i = Done (Return (Timed (Inr TimedOut)))"
  shows "le deadline (tm_now (tp_timer P) (tok_timer (sys_mon s')))"
  using sys_step_timing [OF assms(1,3) reachable_timing [OF assms(1,2), of i]] assms(4,5) by auto

definition demo_deadline_run :: "demo_sys option" where
  "demo_deadline_run = sys_run demo_tokio
     [Spawn 0 demo_deadline_waiter, Poll 0, Advance 0, Advance 0, Advance 0, Advance 0, Advance 0,
      Advance 0, Advance 0, Advance 0, Tick, Tick, Poll 0, Advance 0, Advance 0, Advance 0, Advance 0,
      Advance 0] demo_init"

lemma demo_deadline_slot:
  "map_option (\<lambda>s. sys_slots s 0) demo_deadline_run =
   Some (Running (T_deadline 2 demo_zero demo_take_one (Dl_loop (Lp_drop_guard (Return (Inr TimedOut))))))"
  by (simp add: demo_deadline_run_def sys_exec_def task_defs statement_defs demo_defs manual_poll_def
      manual_tick_def)

theorem tokio_deadline_not_early_witness:
  "\<exists>s s'. demo_deadline_run = Some s \<and> sys_exec demo_tokio (Advance 0) s = Some s' \<and>
     sys_slots s' 0 = Done (Return (Timed (Inr TimedOut))) \<and> 2 \<le> mc_now (tok_timer (sys_mon s'))"
proof -
  obtain s where run: "demo_deadline_run = Some s" and slot: "sys_slots s 0 =
      Running (T_deadline 2 demo_zero demo_take_one (Dl_loop (Lp_drop_guard (Return (Inr TimedOut)))))"
    using demo_deadline_slot by auto
  have "\<exists>s'. sys_exec demo_tokio (Advance 0) s = Some s' \<and>
      sys_slots s' 0 = Done (Return (Timed (Inr TimedOut)))"
    using slot by (simp add: sys_exec_def task_defs)
  then obtain s' where exec: "sys_exec demo_tokio (Advance 0) s = Some s'"
    and finished: "sys_slots s' 0 = Done (Return (Timed (Inr TimedOut)))" by blast
  have honest: "honest_timer (tp_timer demo_tokio) (\<le>) (=)" by (simp add: manual_timer_honest)
  have "tok_reachable demo_tokio 0 manual_start s"
    using run demo_reachable unfolding demo_deadline_run_def by blast
  from tokio_deadline_not_early [OF honest this sys_exec_step [OF exec] slot finished]
  show ?thesis using run exec finished by auto
qed

text \<open>\<^verbatim>\<open>wait_while_for_async\<close> with a positive timeout reports \<^verbatim>\<open>TimedOut\<close> only once the full timeout has
  elapsed since an instant that is not before the call.\<close>

theorem tokio_timeout_not_early:
  assumes "honest_timer (tp_timer P) le armed" and "tok_reachable P d k s0"
    and "sys_slots s0 i = Suspended l0" and "task_start l0"
    and "(sys_step P)\<^sup>*\<^sup>* s0 s" and "sys_step P s s'"
    and "sys_slots s i = Running (T_for limit predicate action l)" and "\<not> duration_is_zero limit"
    and "sys_slots s' i = Done (Return (Timed (Inr TimedOut)))"
  shows "\<exists>started deadline.
    (\<forall>j. le j (tm_now (tp_timer P) (tok_timer (sys_mon s0))) \<longrightarrow> le j started) \<and>
    tm_checked_add (tp_timer P) started limit = Inr deadline \<and>
    le deadline (tm_now (tp_timer P) (tok_timer (sys_mon s')))"
proof -
  have "timing_inv P le armed i (tok_timer (sys_mon s0)) s0"
    using assms(3,4) reachable_awaiting [OF assms(2)] task_start_timing
    by (auto simp: timing_inv_def since_def)
  from steps_timing [OF assms(1,5) this]
  have "may_time_out (tp_timer P) le (tok_timer (sys_mon s0)) (T_for limit predicate action l)
      (tok_timer (sys_mon s'))"
    using sys_step_timing [OF assms(1,6)] assms(7,9) by blast
  then show ?thesis using assms(8) by (auto simp: timeout_deadline_def since_def)
qed

definition demo_timeout_waiter :: demo_task where
  "demo_timeout_waiter = T_for \<lparr>secs = 2, nanos = 0\<rparr> demo_zero demo_take_one (Fo_lock None ())"

definition demo_timeout_run :: "demo_sys \<Rightarrow> demo_sys option" where
  "demo_timeout_run s = sys_run demo_tokio
     [Poll 0, Advance 0, Advance 0, Advance 0, Advance 0, Advance 0, Advance 0, Advance 0, Advance 0,
      Advance 0, Tick, Tick, Poll 0, Advance 0, Advance 0, Advance 0, Advance 0, Advance 0] s"

theorem tokio_timeout_not_early_witness:
  "\<exists>s0 s s'. sys_exec demo_tokio (Spawn 0 demo_timeout_waiter) demo_init = Some s0 \<and>
     demo_timeout_run s0 = Some s \<and> sys_exec demo_tokio (Advance 0) s = Some s' \<and>
     (\<exists>started deadline. manual_deadline started \<lparr>secs = 2, nanos = 0\<rparr> = Inr deadline \<and>
        deadline \<le> mc_now (tok_timer (sys_mon s')))"
proof -
  let ?s0 = "set_slot 0 (Suspended demo_timeout_waiter) (sys_mon demo_init) demo_init"
  have spawn: "sys_exec demo_tokio (Spawn 0 demo_timeout_waiter) demo_init = Some ?s0"
    by (simp add: sys_exec_def demo_init_def sys_init_def demo_timeout_waiter_def)
  have "map_option (\<lambda>s. sys_slots s 0) (demo_timeout_run ?s0) = Some (Running (T_for \<lparr>secs = 2, nanos = 0\<rparr>
      demo_zero demo_take_one (Fo_loop (Lp_drop_guard (Return (Inr TimedOut))))))"
    by (simp add: demo_timeout_run_def sys_exec_def task_defs statement_defs demo_defs manual_poll_def
        manual_tick_def demo_timeout_waiter_def duration_is_zero_def manual_deadline_def)
  then obtain s where run: "demo_timeout_run ?s0 = Some s" and slot: "sys_slots s 0 = Running
      (T_for \<lparr>secs = 2, nanos = 0\<rparr> demo_zero demo_take_one (Fo_loop (Lp_drop_guard (Return (Inr TimedOut)))))"
    by auto
  have "\<exists>s'. sys_exec demo_tokio (Advance 0) s = Some s' \<and>
      sys_slots s' 0 = Done (Return (Timed (Inr TimedOut)))"
    using slot by (simp add: sys_exec_def task_defs)
  then obtain s' where exec: "sys_exec demo_tokio (Advance 0) s = Some s'"
    and finished: "sys_slots s' 0 = Done (Return (Timed (Inr TimedOut)))" by blast
  have honest: "honest_timer (tp_timer demo_tokio) (\<le>) (=)" by (simp add: manual_timer_honest)
  have reach: "tok_reachable demo_tokio 0 manual_start ?s0"
    using tok_reachable.step [OF tok_reachable.init sys_exec_step] spawn demo_init_def by metis
  have steps: "(sys_step demo_tokio)\<^sup>*\<^sup>* ?s0 s"
    using sys_run_steps run unfolding demo_timeout_run_def by blast
  have begun: "sys_slots ?s0 0 = Suspended demo_timeout_waiter" "task_start demo_timeout_waiter"
    by (simp_all add: demo_timeout_waiter_def)
  have positive: "\<not> duration_is_zero \<lparr>secs = 2, nanos = 0\<rparr>" by (simp add: duration_is_zero_def)
  from tokio_timeout_not_early [OF honest reach begun steps sys_exec_step [OF exec] slot positive finished]
  have "\<exists>started deadline. manual_deadline started \<lparr>secs = 2, nanos = 0\<rparr> = Inr deadline \<and>
      deadline \<le> mc_now (tok_timer (sys_mon s'))" by auto
  then show ?thesis using spawn run exec by blast
qed

end
