(* ===== verification/Async_Monitor_Traits.thy ===== *)
theory Async_Monitor_Traits
  imports Tokio_Timed
begin

text \<open>
  The asynchronous traits (\<^verbatim>\<open>async_condition_waiter.rs\<close>, \<^verbatim>\<open>async_timeout_condition_waiter.rs\<close>,
  \<^verbatim>\<open>async_monitor.rs\<close>): provided methods as functions of the required methods they call, the
  implementations for \<^verbatim>\<open>Arc<M>\<close>, and the forwarding methods of \<^verbatim>\<open>TokioMonitor\<close>.
\<close>

section \<open>Condition waiters\<close>

type_synonym ('p, 't, 'r, 'c) async_wait_method = "('p, 't) predicate \<Rightarrow> ('t, 'r) action \<Rightarrow> 'c"

definition AsyncConditionWaiter_wait_until_async ::
  "('p, 't, 'r, 'c) async_wait_method \<Rightarrow> ('p, 't, 'r, 'c) async_wait_method"
where
  "AsyncConditionWaiter_wait_until_async wait_while_async predicate action =
     wait_while_async (not_pred predicate) action"

definition AsyncConditionWaiter_wait_until_ready_async ::
  "('p, 't, unit, 'c) async_wait_method \<Rightarrow> ('p, 't) predicate \<Rightarrow> 'c"
where
  "AsyncConditionWaiter_wait_until_ready_async wait_until_async predicate =
     wait_until_async predicate no_action"

definition Arc_wait_while_async ::
  "('p, 't, 'r, 'c) async_wait_method \<Rightarrow> ('p, 't, 'r, 'c) async_wait_method"
where
  "Arc_wait_while_async wait_while_async predicate action = wait_while_async predicate action"

definition AsyncTimeoutConditionWaiter_wait_until_with_deadline_async ::
  "('i \<Rightarrow> ('p, 't, 'r, 'c) async_wait_method) \<Rightarrow> 'i \<Rightarrow> ('p, 't, 'r, 'c) async_wait_method"
where
  "AsyncTimeoutConditionWaiter_wait_until_with_deadline_async wait_while_with_deadline_async deadline
     predicate action = wait_while_with_deadline_async deadline (not_pred predicate) action"

definition AsyncTimeoutConditionWaiter_wait_until_ready_with_deadline_async ::
  "('i \<Rightarrow> ('p, 't, unit, 'c) async_wait_method) \<Rightarrow> 'i \<Rightarrow> ('p, 't) predicate \<Rightarrow> 'c"
where
  "AsyncTimeoutConditionWaiter_wait_until_ready_with_deadline_async wait_until_with_deadline_async
     deadline predicate = wait_until_with_deadline_async deadline predicate no_action"

definition AsyncTimeoutConditionWaiter_wait_until_for_async ::
  "(duration \<Rightarrow> ('p, 't, 'r, 'c) async_wait_method) \<Rightarrow> duration \<Rightarrow> ('p, 't, 'r, 'c) async_wait_method"
where
  "AsyncTimeoutConditionWaiter_wait_until_for_async wait_while_for_async timeout predicate action =
     wait_while_for_async timeout (not_pred predicate) action"

definition AsyncTimeoutConditionWaiter_wait_until_ready_for_async ::
  "(duration \<Rightarrow> ('p, 't, unit, 'c) async_wait_method) \<Rightarrow> duration \<Rightarrow> ('p, 't) predicate \<Rightarrow> 'c"
where
  "AsyncTimeoutConditionWaiter_wait_until_ready_for_async wait_until_for_async timeout predicate =
     wait_until_for_async timeout predicate no_action"

definition Arc_wait_while_with_deadline_async ::
  "('i \<Rightarrow> ('p, 't, 'r, 'c) async_wait_method) \<Rightarrow> 'i \<Rightarrow> ('p, 't, 'r, 'c) async_wait_method"
where
  "Arc_wait_while_with_deadline_async wait_while_with_deadline_async deadline predicate action =
     wait_while_with_deadline_async deadline predicate action"

definition Arc_wait_while_for_async ::
  "(duration \<Rightarrow> ('p, 't, 'r, 'c) async_wait_method) \<Rightarrow> duration \<Rightarrow> ('p, 't, 'r, 'c) async_wait_method"
where
  "Arc_wait_while_for_async wait_while_for_async timeout predicate action =
     wait_while_for_async timeout predicate action"

definition tokio_wait_until_with_deadline_async ::
  "('m, 't, 'q, 'n, 'k, 'i, 'f, 'e) tokio_platform \<Rightarrow> waker \<Rightarrow> 'i \<Rightarrow> ('p, 't) predicate \<Rightarrow>
   ('t, 'r) action \<Rightarrow> ('q, 'p, 'f, 'e, 'r) deadline_pc \<Rightarrow> ('m, 'n, 'k) TokioMonitor \<Rightarrow>
   (('q, 'p, 'f, 'e, 'r) deadline_pc, 'e + 'r WaitTimeoutResult) stepped \<times> ('m, 'n, 'k) TokioMonitor"
where
  "tokio_wait_until_with_deadline_async P wk =
     AsyncTimeoutConditionWaiter_wait_until_with_deadline_async
       (tokio_wait_while_with_deadline_async P wk)"

definition tokio_wait_until_ready_with_deadline_async ::
  "('m, 't, 'q, 'n, 'k, 'i, 'f, 'e) tokio_platform \<Rightarrow> waker \<Rightarrow> 'i \<Rightarrow> ('p, 't) predicate \<Rightarrow>
   ('q, 'p, 'f, 'e, unit) deadline_pc \<Rightarrow> ('m, 'n, 'k) TokioMonitor \<Rightarrow>
   (('q, 'p, 'f, 'e, unit) deadline_pc, 'e + unit WaitTimeoutResult) stepped \<times>
   ('m, 'n, 'k) TokioMonitor"
where
  "tokio_wait_until_ready_with_deadline_async P wk =
     AsyncTimeoutConditionWaiter_wait_until_ready_with_deadline_async
       (tokio_wait_until_with_deadline_async P wk)"

text \<open>The inherent method that forwards to the trait implementation.\<close>

definition tokio_inherent_wait_while_with_deadline_async ::
  "('m, 't, 'q, 'n, 'k, 'i, 'f, 'e) tokio_platform \<Rightarrow> waker \<Rightarrow> 'i \<Rightarrow> ('p, 't) predicate \<Rightarrow>
   ('t, 'r) action \<Rightarrow> ('q, 'p, 'f, 'e, 'r) deadline_pc \<Rightarrow> ('m, 'n, 'k) TokioMonitor \<Rightarrow>
   (('q, 'p, 'f, 'e, 'r) deadline_pc, 'e + 'r WaitTimeoutResult) stepped \<times> ('m, 'n, 'k) TokioMonitor"
where
  "tokio_inherent_wait_while_with_deadline_async P wk deadline predicate action =
     tokio_wait_while_with_deadline_async P wk deadline predicate action"

section \<open>async_monitor.rs\<close>

text \<open>
  The provided write-and-notify methods over the required \<^verbatim>\<open>with_write_async\<close> and
  \<^verbatim>\<open>notify_one\<close>, \<^verbatim>\<open>notify_all\<close>, the forwarding methods of \<^verbatim>\<open>TokioMonitor\<close> and of \<^verbatim>\<open>Arc<M>\<close>.
\<close>

type_synonym ('l, 'w, 'a) future_step = "'l \<Rightarrow> 'w \<Rightarrow> ('l, 'a) stepped \<times> 'w"

definition AsyncMonitor_with_write_notify_one_async ::
  "(('t, 'r) action \<Rightarrow> (('q, 'r) access_pc, 'w, 'r) future_step) \<Rightarrow> (notify_pc, 'w, unit) future_step \<Rightarrow>
   ('t, 'r) action \<Rightarrow> (('q, 'r) write_notify_pc, 'w, 'r) future_step"
where
  "AsyncMonitor_with_write_notify_one_async with_write_async notify_one f pc w = (case pc of
       Wn_write a \<Rightarrow> apfst (await_step Wn_write after_write) (with_write_async f a w)
     | Wn_notify result n \<Rightarrow>
         apfst (await_step (Wn_notify result) (\<lambda>_. Fin (Return result))) (notify_one n w))"

definition AsyncMonitor_with_write_notify_all_async ::
  "(('t, 'r) action \<Rightarrow> (('q, 'r) access_pc, 'w, 'r) future_step) \<Rightarrow> (notify_pc, 'w, unit) future_step \<Rightarrow>
   ('t, 'r) action \<Rightarrow> (('q, 'r) write_notify_pc, 'w, 'r) future_step"
where
  "AsyncMonitor_with_write_notify_all_async with_write_async notify_all f pc w = (case pc of
       Wn_write a \<Rightarrow> apfst (await_step Wn_write after_write) (with_write_async f a w)
     | Wn_notify result n \<Rightarrow>
         apfst (await_step (Wn_notify result) (\<lambda>_. Fin (Return result))) (notify_all n w))"

definition Arc_with_read_async ::
  "(('t \<Rightarrow> 'r outcome) \<Rightarrow> ('l, 'w, 'r) future_step) \<Rightarrow> ('t \<Rightarrow> 'r outcome) \<Rightarrow> ('l, 'w, 'r) future_step"
where
  "Arc_with_read_async with_read_async f = with_read_async f"

definition Arc_with_write_async ::
  "(('t, 'r) action \<Rightarrow> ('l, 'w, 'r) future_step) \<Rightarrow> ('t, 'r) action \<Rightarrow> ('l, 'w, 'r) future_step"
where
  "Arc_with_write_async with_write_async f = with_write_async f"

definition tokio_AsyncMonitor_with_read_async ::
  "('m, 't, 'q, 'n, 'k, 'i, 'f, 'e) tokio_platform \<Rightarrow> ('t \<Rightarrow> 'r outcome) \<Rightarrow>
   (('q, 'r) access_pc, ('m, 'n, 'k) TokioMonitor, 'r) future_step"
where
  "tokio_AsyncMonitor_with_read_async P f = tokio_with_read_async P f"

definition tokio_AsyncMonitor_with_write_async ::
  "('m, 't, 'q, 'n, 'k, 'i, 'f, 'e) tokio_platform \<Rightarrow> ('t, 'r) action \<Rightarrow>
   (('q, 'r) access_pc, ('m, 'n, 'k) TokioMonitor, 'r) future_step"
where
  "tokio_AsyncMonitor_with_write_async P f = tokio_with_write_async P f"

definition tokio_Notifier_notify_one ::
  "('m, 't, 'q, 'n, 'k, 'i, 'f, 'e) tokio_platform \<Rightarrow>
   (notify_pc, ('m, 'n, 'k) TokioMonitor, unit) future_step"
where
  "tokio_Notifier_notify_one P = tokio_notify_one P"

definition tokio_Notifier_notify_all ::
  "('m, 't, 'q, 'n, 'k, 'i, 'f, 'e) tokio_platform \<Rightarrow>
   (notify_pc, ('m, 'n, 'k) TokioMonitor, unit) future_step"
where
  "tokio_Notifier_notify_all P = tokio_notify_all P"

lemmas async_trait_defs =
  AsyncConditionWaiter_wait_until_async_def AsyncConditionWaiter_wait_until_ready_async_def
  AsyncTimeoutConditionWaiter_wait_until_with_deadline_async_def
  AsyncTimeoutConditionWaiter_wait_until_ready_with_deadline_async_def
  AsyncTimeoutConditionWaiter_wait_until_for_async_def
  AsyncTimeoutConditionWaiter_wait_until_ready_for_async_def
  AsyncMonitor_with_write_notify_one_async_def AsyncMonitor_with_write_notify_all_async_def
  Arc_wait_while_async_def Arc_wait_while_with_deadline_async_def Arc_wait_while_for_async_def
  Arc_with_read_async_def Arc_with_write_async_def
  tokio_AsyncMonitor_with_read_async_def tokio_AsyncMonitor_with_write_async_def
  tokio_Notifier_notify_one_def tokio_Notifier_notify_all_def
  tokio_inherent_wait_while_with_deadline_async_def

end
