(* ===== verification/Tokio_Termination.thy ===== *)
theory Tokio_Termination
  imports Tokio_Demo
begin

text \<open>
  A poll of a Tokio monitor future returns to the executor: a rank of the program counter and of the
  monitor decreases with every statement that does not suspend, as long as the caller's closures
  return. A wait-loop never spins, because a fresh waiter has no signal yet.
\<close>

section \<open>Closures that do not return\<close>

fun write_notify_diverged :: "('q, 'r) write_notify_pc \<Rightarrow> bool" where
  "write_notify_diverged (Wn_write a) = (a = Acc_diverged)"
| "write_notify_diverged (Wn_notify x n) = False"

fun deadline_diverged :: "('q, 'p, 'f, 'e, 'r) deadline_pc \<Rightarrow> bool" where
  "deadline_diverged (Dl_loop l) = (l = Lp_diverged)"
| "deadline_diverged _ = False"

fun for_diverged :: "('q, 'p, 'i, 'f, 'e, 'r) for_pc \<Rightarrow> bool" where
  "for_diverged (Fo_loop l) = (l = Lp_diverged)"
| "for_diverged _ = False"

fun task_diverged :: "('t, 'q, 'p, 'i, 'f, 'e, 'r) task \<Rightarrow> bool" where
  "task_diverged (T_read f a) = (a = Acc_diverged)"
| "task_diverged (T_write f a) = (a = Acc_diverged)"
| "task_diverged (T_write_one f a) = write_notify_diverged a"
| "task_diverged (T_write_all f a) = write_notify_diverged a"
| "task_diverged (T_wait predicate action a) = (a = Wt_diverged)"
| "task_diverged (T_deadline deadline predicate action a) = deadline_diverged a"
| "task_diverged (T_for limit predicate action a) = for_diverged a"
| "task_diverged (T_notify_one n) = False"
| "task_diverged (T_notify_all n) = False"

section \<open>Ranks\<close>

text \<open>\<open>p\<close> says of a waiter whether its signal is stored.\<close>

fun notify_rank :: "notify_pc \<Rightarrow> nat \<Rightarrow> nat" where
  "notify_rank Notify_select n = n + 2"
| "notify_rank (Notify_wake as) n = Suc (length as)"

fun access_rank :: "('q, 'r) access_pc \<Rightarrow> nat" where
  "access_rank (Acc_lock q) = 3"
| "access_rank Acc_body = 2"
| "access_rank (Acc_drop_guard r) = 1"
| "access_rank Acc_diverged = 0"

fun write_notify_rank :: "('q, 'r) write_notify_pc \<Rightarrow> nat \<Rightarrow> nat" where
  "write_notify_rank (Wn_write a) n = access_rank a + n + 3"
| "write_notify_rank (Wn_notify x m) n = notify_rank m n"

fun wait_rank :: "(nat \<Rightarrow> bool) \<Rightarrow> ('q, 'p, 'r) wait_pc \<Rightarrow> nat" where
  "wait_rank p (Wt_release g s) = (if p (tcr_waiter g) then 8 else 2)"
| "wait_rank p (Wt_notified g s) = (if p (tcr_waiter g) then 7 else 1)"
| "wait_rank p (Wt_unregister g s) = 6"
| "wait_rank p (Wt_lock q s) = 5"
| "wait_rank p (Wt_check s) = 4"
| "wait_rank p (Wt_register s) = 3"
| "wait_rank p Wt_action = 2"
| "wait_rank p (Wt_drop_guard r) = 1"
| "wait_rank p Wt_diverged = 0"

text \<open>After a timeout or a Timer error the loop ends; after a wake-up it may go round once more.\<close>

definition status_rank :: "'e + WaitTimeoutStatus \<Rightarrow> nat" where
  "status_rank status = (if status = Inr Woken then 9 else 0)"

fun loop_rank :: "(nat \<Rightarrow> bool) \<Rightarrow> ('q, 'p, 'f, 'e, 'r) loop_pc \<Rightarrow> nat" where
  "loop_rank p (Lp_release g f s) = (if p (tcr_waiter g) then 18 else 9)"
| "loop_rank p (Lp_wait g (Sg_deadline f) s) = (if p (tcr_waiter g) then 17 else 8)"
| "loop_rank p (Lp_wait g (Sg_notified f) s) = (if p (tcr_waiter g) then 16 else 7)"
| "loop_rank p (Lp_unregister g status f s) = status_rank status + 6"
| "loop_rank p (Lp_lock q status f s) = status_rank status + 5"
| "loop_rank p (Lp_status status f s) = status_rank status + 4"
| "loop_rank p (Lp_probe f s) = 12"
| "loop_rank p (Lp_check reached f s) = (if reached then 3 else 11)"
| "loop_rank p (Lp_register f s) = 10"
| "loop_rank p Lp_action = 2"
| "loop_rank p (Lp_drop_guard r) = 1"
| "loop_rank p Lp_diverged = 0"

fun deadline_rank :: "(nat \<Rightarrow> bool) \<Rightarrow> ('q, 'p, 'f, 'e, 'r) deadline_pc \<Rightarrow> nat" where
  "deadline_rank p (Dl_lock q s) = 14"
| "deadline_rank p (Dl_check s) = 13"
| "deadline_rank p (Dl_arm s) = 12"
| "deadline_rank p (Dl_probe f s) = 11"
| "deadline_rank p (Dl_loop l) = loop_rank p l"

fun for_rank :: "(nat \<Rightarrow> bool) \<Rightarrow> ('q, 'p, 'i, 'f, 'e, 'r) for_pc \<Rightarrow> nat" where
  "for_rank p (Fo_lock q s) = 15"
| "for_rank p (Fo_now s) = 14"
| "for_rank p (Fo_check i s) = 13"
| "for_rank p (Fo_deadline i s) = 12"
| "for_rank p (Fo_arm i s) = 11"
| "for_rank p (Fo_loop l) = loop_rank p l"

fun task_rank :: "(nat \<Rightarrow> bool) \<Rightarrow> ('t, 'q, 'p, 'i, 'f, 'e, 'r) task \<Rightarrow> nat \<Rightarrow> nat" where
  "task_rank p (T_read f a) n = access_rank a"
| "task_rank p (T_write f a) n = access_rank a"
| "task_rank p (T_write_one f a) n = write_notify_rank a n"
| "task_rank p (T_write_all f a) n = write_notify_rank a n"
| "task_rank p (T_wait predicate action a) n = wait_rank p a"
| "task_rank p (T_deadline deadline predicate action a) n = deadline_rank p a"
| "task_rank p (T_for limit predicate action a) n = for_rank p a"
| "task_rank p (T_notify_one m) n = notify_rank m n"
| "task_rank p (T_notify_all m) n = notify_rank m n"

text \<open>The rank is at most a constant above the number of waiters to notify.\<close>

lemma notify_rank_bound: "notify_rank m n \<le> 2 + n + length (sending (notify_foot m))"
  by (cases m) simp_all

lemma access_rank_bound: "access_rank a \<le> 3"
  by (cases a) simp_all

lemma loop_rank_bound: "loop_rank p l \<le> 18"
  by (cases "(p, l)" rule: loop_rank.cases) (simp_all add: status_rank_def)

lemma wait_rank_bound: "wait_rank p a \<le> 8"
  by (cases a) simp_all

lemma deadline_rank_bound: "deadline_rank p a \<le> 18"
  by (cases a) (simp_all add: loop_rank_bound)

lemma for_rank_bound: "for_rank p a \<le> 18"
  by (cases a) (simp_all add: loop_rank_bound)

lemma task_rank_bound: "task_rank p l n \<le> 18 + n + length (sending (task_foot l))"
proof (cases l)
  case (T_write_one f a)
  then show ?thesis
    by (cases a) (use access_rank_bound notify_rank_bound in \<open>fastforce intro: le_trans\<close>)+
next
  case (T_write_all f a)
  then show ?thesis
    by (cases a) (use access_rank_bound notify_rank_bound in \<open>fastforce intro: le_trans\<close>)+
qed (auto intro: le_trans [OF access_rank_bound] le_trans [OF notify_rank_bound]
    le_trans [OF wait_rank_bound] le_trans [OF deadline_rank_bound] le_trans [OF for_rank_bound] trans_le_add1)

section \<open>Every statement decreases the rank\<close>

lemma await_Go:
  "apfst (await_step inside k) x = (Go h, w') \<Longrightarrow>
   (\<exists>l. x = (Go l, w') \<and> h = inside l) \<or> (\<exists>r. x = (Fin r, w') \<and> k r = Go h)"
  by (cases x; cases "fst x") auto

lemma notify_ranked:
  "tokio_notify_one P m w = (Go m', w') \<Longrightarrow>
   notify_rank m' (length (tok_active w')) < notify_rank m (length (tok_active w))"
  "tokio_notify_all P m w = (Go m', w') \<Longrightarrow>
   notify_rank m' (length (tok_active w')) < notify_rank m (length (tok_active w))"
  by (auto simp: tokio_notify_one_def tokio_notify_all_def split: notify_pc.splits prod.splits list.splits
      option.splits dest!: take_one_registry(1) take_all_registry(1))

lemma access_ranked:
  "tokio_with_write_async P f a w = (Go a', w') \<Longrightarrow>
   tok_waiters w' = tok_waiters w \<and> (a' = Acc_diverged \<or> access_rank a' < access_rank a)"
  "tokio_with_read_async P g a w = (Go a', w') \<Longrightarrow>
   tok_waiters w' = tok_waiters w \<and> (a' = Acc_diverged \<or> access_rank a' < access_rank a)"
  by (auto simp: tokio_with_write_async_def tokio_with_read_async_def Let_def
      split: access_pc.splits prod.splits lock_poll.splits if_splits dest!: poll_lock_frame)

lemma access_Fin_frame:
  "tokio_with_write_async P f a w = (Fin r, w') \<Longrightarrow> tok_waiters w' = tok_waiters w"
  by (auto simp: tokio_with_write_async_def Let_def
      split: access_pc.splits prod.splits lock_poll.splits if_splits)

lemma after_write_Go: "after_write r = Go l \<longleftrightarrow> (\<exists>x. r = Return x \<and> l = Wn_notify x Notify_select)"
  by (auto simp: after_write_def split: outcome.splits)

lemma write_ranked:
  assumes "apfst (await_step Wn_write after_write) (tokio_with_write_async P f a w) = (Go a', w')"
  shows "write_notify_diverged a' \<or>
    write_notify_rank a' (length (tok_active w')) < write_notify_rank (Wn_write a) (length (tok_active w))"
  using await_Go [OF assms]
proof (elim disjE exE conjE)
  fix l
  assume "tokio_with_write_async P f a w = (Go l, w')" and "a' = Wn_write l"
  then show ?thesis using access_ranked(1) [of P f a w l w'] registry_congs(2) [of w' w] by auto
next
  fix r
  assume "tokio_with_write_async P f a w = (Fin r, w')" and "after_write r = Go a'"
  then show ?thesis
    using access_Fin_frame [of P f a w r w'] registry_congs(2) [of w' w] by (auto simp: after_write_Go)
qed

lemma notifying_ranked:
  assumes "apfst (await_step (Wn_notify x) (\<lambda>_. Fin (Return x))) y = (Go a', w')"
    and "\<And>m'. y = (Go m', w') \<Longrightarrow> notify_rank m' n' < notify_rank m n"
  shows "write_notify_rank a' n' < write_notify_rank (Wn_notify x m) n"
  using await_Go [OF assms(1)] assms(2) by auto

lemma write_notify_ranked:
  "tokio_with_write_notify_one_async P f a w = (Go a', w') \<Longrightarrow>
   write_notify_diverged a' \<or>
   write_notify_rank a' (length (tok_active w')) < write_notify_rank a (length (tok_active w))"
  "tokio_with_write_notify_all_async P f a w = (Go a', w') \<Longrightarrow>
   write_notify_diverged a' \<or>
   write_notify_rank a' (length (tok_active w')) < write_notify_rank a (length (tok_active w))"
  unfolding tokio_with_write_notify_one_async_def tokio_with_write_notify_all_async_def
  by (cases a; simp only: write_notify_pc.case;
      (erule write_ranked | rule disjI2, erule notifying_ranked, erule notify_ranked))+

context tokio_contract
begin

definition stored :: "('m, 'n, 'k) TokioMonitor \<Rightarrow> nat \<Rightarrow> bool" where
  "stored w a = permit (tcw_signal (tok_cells w ! a))"

lemma stored_congs: "tok_cells w' = tok_cells w \<Longrightarrow> stored w' = stored w"
  by (simp add: stored_def fun_eq_iff)

lemma fresh_not_stored:
  "tokio_register_waiter P w = (Return g, w') \<Longrightarrow> \<not> stored w' (tcr_waiter g)"
  by (auto simp: tokio_register_waiter_def stored_def TokioConditionWaiter_new_def map_outcome_def Let_def
      split: prod.splits outcome.splits)

lemma poll_stored: "tokio_poll_notified P a w = (ready, w') \<Longrightarrow> ready = stored w a"
  by (simp add: stored_def poll_notified_permit)

lemma wait_ranked:
  "tokio_wait_while_async P predicate action a w = (Go a', w') \<Longrightarrow>
   a' = Wt_diverged \<or> wait_rank (stored w') a' < wait_rank (stored w) a"
  by (cases a)
    (auto simp: tokio_wait_while_async_def Let_def fresh_not_stored
      stored_congs [of "tokio_drop_guard P w" w] dest: poll_stored
      split: prod.splits lock_poll.splits if_splits outcome.splits bool.splits)

lemma deadline_stored:
  "tokio_poll_deadline P wk f w = (x, f', w') \<Longrightarrow> stored w' = stored w"
  "tokio_deadline_reached P wk f w = (y, f', w') \<Longrightarrow> stored w' = stored w"
  "tokio_timer_at P d w = (z, w') \<Longrightarrow> stored w' = stored w"
  by (auto simp: tokio_poll_deadline_def tokio_deadline_reached_def tokio_timer_at_def stored_def fun_eq_iff
      split: prod.splits poll.splits sum.splits)

lemma signal_wait_ranked:
  assumes "apfst (await_step (\<lambda>s. Lp_wait g s p) (after_wait g p))
    (wait_until_signalled_or_deadline P wk g s w) = (Go l', w')"
  shows "l' = Lp_diverged \<or> loop_rank (stored w') l' < loop_rank (stored w) (Lp_wait g s p)"
  using assms
  by (cases s) (auto simp: wait_until_signalled_or_deadline_def after_wait_def status_rank_def Let_def
      deadline_stored(1) split: prod.splits poll.splits sum.splits if_splits dest: poll_stored)

lemma status_not_timed_out: "\<not> status_is_timed_out x \<longleftrightarrow> x = Woken"
  by (cases x) simp_all

lemma loop_ranked:
  "timed_loop_step P wk predicate action l w = (Go l', w') \<Longrightarrow>
   l' = Lp_diverged \<or> loop_rank (stored w') l' < loop_rank (stored w) l"
proof (cases l)
  case (Lp_wait g s p)
  then show "timed_loop_step P wk predicate action l w = (Go l', w') \<Longrightarrow> ?thesis"
    using signal_wait_ranked by (simp add: timed_loop_step_def)
qed (auto simp: timed_loop_step_def status_rank_def Let_def fresh_not_stored
    status_not_timed_out
    stored_congs [of "tokio_drop_guard P w" w]
    split: prod.splits lock_poll.splits if_splits outcome.splits bool.splits sum.splits
      WaitTimeoutStatus.splits)

lemma deadline_ranked:
  assumes "tokio_wait_while_with_deadline_async P wk deadline predicate action a w = (Go a', w')"
  shows "deadline_diverged a' \<or> deadline_rank (stored w') a' < deadline_rank (stored w) a"
proof (cases a)
  case (Dl_loop l)
  then show ?thesis
    using assms by (auto simp: tokio_wait_while_with_deadline_async_def dest!: await_Go dest: loop_ranked)
qed (use assms in \<open>auto simp: tokio_wait_while_with_deadline_async_def
    split: prod.splits lock_poll.splits if_splits outcome.splits bool.splits sum.splits\<close>)

lemma for_ranked:
  assumes "tokio_wait_while_for_async P wk limit predicate action a w = (Go a', w')"
  shows "for_diverged a' \<or> for_rank (stored w') a' < for_rank (stored w) a"
proof (cases a)
  case (Fo_loop l)
  then show ?thesis
    using assms by (auto simp: tokio_wait_while_for_async_def dest!: await_Go dest: loop_ranked)
qed (use assms in \<open>auto simp: tokio_wait_while_for_async_def
    split: prod.splits lock_poll.splits if_splits outcome.splits bool.splits sum.splits\<close>)

definition poll_rank :: "('t, 'q, 'p, 'i, 'f, 'e, 'r) task \<Rightarrow> ('m, 'n, 'k) TokioMonitor \<Rightarrow> nat" where
  "poll_rank l w = task_rank (stored w) l (length (tok_active w))"

lemmas futures_ranked =
  access_ranked write_notify_ranked notify_ranked wait_ranked deadline_ranked for_ranked

lemma task_ranked:
  "task_step P i l w = (Go l', w') \<Longrightarrow> task_diverged l' \<or> poll_rank l' w' < poll_rank l w"
  by (cases l; simp add: task_step_def poll_rank_def)
    (drule await_Go; elim disjE exE conjE; simp; drule futures_ranked; simp)+

section \<open>A poll in a system\<close>

lemma poll_returns:
  assumes "sys_slots s i = Running l"
  shows "\<exists>n s'. n \<le> poll_rank l (sys_mon s) \<and> sys_run P (replicate (Suc n) (Advance i)) s = Some s' \<and>
    ((\<exists>l'. sys_slots s' i = Suspended l') \<or> (\<exists>r. sys_slots s' i = Done r) \<or>
     (\<exists>l'. sys_slots s' i = Running l' \<and> task_diverged l'))"
  using assms
proof (induction "poll_rank l (sys_mon s)" arbitrary: l s rule: less_induct)
  case less
  show ?case
  proof (cases "task_step P i l (sys_mon s)")
    case (Pair x w)
    show ?thesis
    proof (cases x)
      case (Go l')
      let ?s = "set_slot i (Running l') w s"
      have exec: "sys_exec P (Advance i) s = Some ?s"
        using less.prems Pair Go by (simp add: sys_exec_def)
      consider "task_diverged l'" | "poll_rank l' (sys_mon ?s) < poll_rank l (sys_mon s)"
        using task_ranked Pair Go by fastforce
      then show ?thesis
      proof cases
        case 1
        then show ?thesis using exec by (intro exI [of _ 0] exI [of _ ?s]) simp
      next
        case 2
        from less.hyps [OF this] obtain n s' where
          "n \<le> poll_rank l' (sys_mon ?s)" "sys_run P (replicate (Suc n) (Advance i)) ?s = Some s'"
          "(\<exists>l'. sys_slots s' i = Suspended l') \<or> (\<exists>r. sys_slots s' i = Done r) \<or>
           (\<exists>l'. sys_slots s' i = Running l' \<and> task_diverged l')" by auto
        then show ?thesis
          using 2 exec by (intro exI [of _ "Suc n"] exI [of _ s']) simp
      qed
    qed (use less.prems Pair in \<open>auto simp: sys_exec_def intro!: exI [of _ 0]\<close>)
  qed
qed

end

text \<open>C20: a poll returns. Whenever a call is being polled and no other task interferes, it suspends or
  finishes after at most as many statements as there are waiters to notify, plus nineteen, unless a
  closure of the caller does not return. No wait-loop spins.\<close>

theorem tokio_poll_returns:
  assumes "tokio_contract P permit" and "sys_slots s i = Running l"
  shows "\<exists>n s'. n \<le> 19 + length (tok_active (sys_mon s)) + length (sending (task_foot l)) \<and>
    sys_run P (replicate n (Advance i)) s = Some s' \<and>
    ((\<exists>l'. sys_slots s' i = Suspended l') \<or> (\<exists>r. sys_slots s' i = Done r) \<or>
     (\<exists>l'. sys_slots s' i = Running l' \<and> task_diverged l'))"
proof -
  obtain n s' where "n \<le> tokio_contract.poll_rank permit l (sys_mon s)"
    "sys_run P (replicate (Suc n) (Advance i)) s = Some s'"
    "(\<exists>l'. sys_slots s' i = Suspended l') \<or> (\<exists>r. sys_slots s' i = Done r) \<or>
     (\<exists>l'. sys_slots s' i = Running l' \<and> task_diverged l')"
    using tokio_contract.poll_returns [OF assms] by blast
  moreover have "tokio_contract.poll_rank permit l (sys_mon s) \<le>
      18 + length (tok_active (sys_mon s)) + length (sending (task_foot l))"
    unfolding tokio_contract.poll_rank_def [OF assms(1)] by (rule task_rank_bound)
  ultimately show ?thesis by (intro exI [of _ "Suc n"] exI [of _ s']) simp
qed

theorem tokio_poll_returns_witness:
  "\<exists>s n s'. sys_run demo_tokio [Spawn 0 demo_waiter, Poll 0] demo_init = Some s \<and> n \<le> 19 \<and>
    sys_run demo_tokio (replicate n (Advance 0)) s = Some s' \<and>
    ((\<exists>l'. sys_slots s' 0 = Suspended l') \<or> (\<exists>r. sys_slots s' 0 = Done r) \<or>
     (\<exists>l'. sys_slots s' 0 = Running l' \<and> task_diverged l'))"
proof -
  let ?run = "sys_run demo_tokio [Spawn 0 demo_waiter, Poll 0] demo_init"
  have "map_option (\<lambda>s. (sys_slots s 0, tok_active (sys_mon s))) ?run = Some (Running demo_waiter, [])"
    by (simp add: sys_exec_def demo_defs tok_active_def tok_registry_def)
  then obtain s where run: "?run = Some s" and slot: "sys_slots s 0 = Running demo_waiter"
    and "tok_active (sys_mon s) = []" by auto
  moreover have "sending (task_foot demo_waiter) = []" by (simp add: demo_waiter_def)
  ultimately show ?thesis
    using tokio_poll_returns [OF demo_contract slot] by auto
qed

end
