(* ===== verification/Bounded_Queue.thy ===== *)
theory Bounded_Queue
  imports Parking_Lot_Monitor Monitor_Traits
begin

text \<open>
  \<^verbatim>\<open>examples/bounded_queue.rs\<close>: a closable bounded queue on top of any monitor. The functions are
  generic in the monitor, so the trait methods they call are their first arguments; then the queue
  on the parking_lot monitor.
\<close>

section \<open>The protected state\<close>

record 'a QueueState =
  qs_items :: "'a list"
  qs_capacity :: u64
  qs_closed :: bool

definition QueueState_new :: "u64 \<Rightarrow> 'a QueueState" where
  "QueueState_new capacity = \<lparr>qs_items = [], qs_capacity = capacity, qs_closed = False\<rparr>"

text \<open>The closures: \<^verbatim>\<open>Err(item)\<close> is \<open>Inl item\<close>, \<^verbatim>\<open>Ok(())\<close> is \<open>Inr ()\<close>.\<close>

definition has_space :: "'a QueueState \<Rightarrow> bool" where
  "has_space state \<longleftrightarrow> length (qs_items state) < unat (qs_capacity state)"

definition push_ready :: "(unit, 'a QueueState) predicate" where
  "push_ready = (\<lambda>p state. (Return (qs_closed state \<or> has_space state), p))"

definition push_action :: "'a \<Rightarrow> ('a QueueState, 'a + unit) action" where
  "push_action item = (\<lambda>state.
     if qs_closed state then (Return (Inl item), state)
     else (Return (Inr ()), state\<lparr>qs_items := qs_items state @ [item]\<rparr>))"

definition pop_ready :: "(unit, 'a QueueState) predicate" where
  "pop_ready = (\<lambda>p state. (Return (qs_closed state \<or> qs_items state \<noteq> []), p))"

definition pop_action :: "('a QueueState, 'a option) action" where
  "pop_action = (\<lambda>state. case qs_items state of
       [] \<Rightarrow> (Return None, state)
     | x # xs \<Rightarrow> (Return (Some x), state\<lparr>qs_items := xs\<rparr>))"

definition close_action :: "('a QueueState, unit) action" where
  "close_action = (\<lambda>state. (Return (), state\<lparr>qs_closed := True\<rparr>))"

section \<open>Operations\<close>

text \<open>
  \<^verbatim>\<open>if changed(&result) { queue.notify_all(); } result\<close>, after a wait that may not end: the common
  tail of the three functions.
\<close>

definition notify_if ::
  "('r \<Rightarrow> bool) \<Rightarrow> ('w \<Rightarrow> unit outcome \<times> 'w) \<Rightarrow> ('r outcome \<times> 'w) option \<Rightarrow> ('r outcome \<times> 'w) option"
where
  "notify_if changed notify_all = map_option (\<lambda>p. and_then p (\<lambda>result w.
     if changed result then and_then (notify_all w) (\<lambda>_ w. (Return result, w)) else (Return result, w)))"

type_synonym ('t, 'r, 'w) wait_until_method =
  "(unit, 't) predicate \<Rightarrow> unit \<Rightarrow> ('t, 'r) action \<Rightarrow> 'w \<Rightarrow> ('r outcome \<times> 'w) option"

definition queue_push ::
  "('a QueueState, 'a + unit, 'w) wait_until_method \<Rightarrow> ('w \<Rightarrow> unit outcome \<times> 'w) \<Rightarrow> 'a \<Rightarrow> 'w \<Rightarrow>
   (('a + unit) outcome \<times> 'w) option"
where
  "queue_push wait_until notify_all item w =
     notify_if (\<lambda>result. result = Inr ()) notify_all (wait_until push_ready () (push_action item) w)"

definition queue_pop ::
  "('a QueueState, 'a option, 'w) wait_until_method \<Rightarrow> ('w \<Rightarrow> unit outcome \<times> 'w) \<Rightarrow> 'w \<Rightarrow>
   ('a option outcome \<times> 'w) option"
where
  "queue_pop wait_until notify_all w =
     notify_if (\<lambda>item. item \<noteq> None) notify_all (wait_until pop_ready () pop_action w)"

definition popped :: "'e + 'a option WaitTimeoutResult \<Rightarrow> bool" where
  "popped result = (case result of Inr (Ready (Some _)) \<Rightarrow> True | _ \<Rightarrow> False)"

definition queue_pop_for ::
  "(duration \<Rightarrow> (unit, 'a QueueState) predicate \<Rightarrow> unit \<Rightarrow> ('a QueueState, 'a option) action \<Rightarrow> 'w \<Rightarrow>
     (('e + 'a option WaitTimeoutResult) outcome \<times> 'w) option) \<Rightarrow>
   ('w \<Rightarrow> unit outcome \<times> 'w) \<Rightarrow> duration \<Rightarrow> 'w \<Rightarrow>
   (('e + 'a option WaitTimeoutResult) outcome \<times> 'w) option"
where
  "queue_pop_for wait_until_for notify_all timeout w =
     notify_if popped notify_all (wait_until_for timeout pop_ready () pop_action w)"

definition queue_close ::
  "(('a QueueState, unit) action \<Rightarrow> 'w \<Rightarrow> unit outcome \<times> 'w) \<Rightarrow> 'w \<Rightarrow> unit outcome \<times> 'w"
where
  "queue_close with_write_notify_all w = with_write_notify_all close_action w"

section \<open>On the parking_lot monitor\<close>

text \<open>
  The monitor of \<^verbatim>\<open>main\<close>: the traits' provided methods over the implementation for
  \<^verbatim>\<open>ParkingLotMonitor\<close>.
\<close>

definition pl_queue_push where
  "pl_queue_push B T = queue_push (ConditionWaiter_wait_until (pl_ConditionWaiter_wait_while B T))
     (pl_Notifier_notify_all B T)"

definition pl_queue_pop where
  "pl_queue_pop B T = queue_pop (ConditionWaiter_wait_until (pl_ConditionWaiter_wait_while B T))
     (pl_Notifier_notify_all B T)"

definition pl_queue_pop_for where
  "pl_queue_pop_for B T = queue_pop_for
     (TimeoutConditionWaiter_wait_until_for (pl_TimeoutConditionWaiter_wait_while_for B T))
     (pl_Notifier_notify_all B T)"

definition pl_queue_close where
  "pl_queue_close B T = queue_close
     (Monitor_with_write_notify_all (pl_Monitor_with_write B T) (pl_Notifier_notify_all B T))"

end
