(* ===== verification/Region_Spec.thy ===== *)
theory Region_Spec
  imports Monitor_Regions Std_Timed_Spec Parking_Lot_Spec
begin

text \<open>
  The blocking monitors refine conditional critical regions. Whatever the other threads do to the
  protected value, as long as each of their writes is a sequence of steps of a relation \<open>S\<close>: a call
  is steps of the others, at most one atomic application of the caller's action to a value on which
  the predicate has answered that it need not wait, and again steps of the others.
\<close>

abbreviation std_value :: "('t mutex, 't, 'k) world \<Rightarrow> 't" where
  "std_value w \<equiv> mx_data (mon_state w)"

abbreviation pl_value :: "('m, 't) raw_mutex_ops \<Rightarrow> ('m, 't, 'k) world \<Rightarrow> 't" where
  "pl_value B w \<equiv> rm_data B (mon_state w)"

section \<open>The standard monitor\<close>

lemma std_wait_while_region:
  "idle (std_platform T) w \<Longrightarrow> writes_within S w \<Longrightarrow> std_wait_while T waiting p f w = Some (r, w') \<Longrightarrow>
   writes_within S w' \<and> wait_region S waiting f (std_value w) r (std_value w')"
  unfolding std_wait_while_def std_lock_eq std_guard_wait_eq
  by (drule (2) std.notified.acquire_and_wait_region) simp

lemma std_wait_while_for_region:
  assumes "idle (std_platform T) w" and "writes_within S w"
  shows "\<exists>r w'. std_wait_while_for T timeout waiting p f w = Some (r, w') \<and>
    timed_region S waiting f (std_value w) r (std_value w')"
  using std.timed.wait_while_for_spec [OF assms(1), of timeout waiting p f]
    std.timed.wait_while_for_region [OF assms, of timeout waiting p f]
  unfolding std_wait_while_for_def std_lock_eq std_guard_wait_with_timer_eq by fastforce

lemma std_wait_while_with_deadline_region:
  assumes "idle (std_platform T) w" and "writes_within S w"
  shows "\<exists>r w'. std_wait_while_with_deadline T deadline waiting p f w = Some (r, w') \<and>
    timed_region S waiting f (std_value w) r (std_value w')"
  using std.timed.wait_while_with_deadline_spec [OF assms(1), of deadline waiting p f]
    std.timed.wait_while_with_deadline_region [OF assms, of deadline waiting p f]
  unfolding std_wait_while_with_deadline_def std_lock_eq std_guard_wait_with_timer_eq by fastforce

lemma std_with_write_region:
  "idle (std_platform T) w \<Longrightarrow> writes_within S w \<Longrightarrow> std_with_write T f w = (r, w') \<Longrightarrow>
   writes_within S w' \<and> wait_region S (\<lambda>p _. (Return False, p)) f (std_value w) r (std_value w')"
  unfolding std_with_write_def std_lock_eq by (drule (2) std.with_write_region) simp

section \<open>The parking_lot monitor\<close>

context raw_mutex
begin

lemma pl_wait_while_region:
  "idle (pl_platform B T) w \<Longrightarrow> writes_within S w \<Longrightarrow> pl_wait_while B T waiting p f w = Some (r, w') \<Longrightarrow>
   writes_within S w' \<and> wait_region S waiting f (pl_value B w) r (pl_value B w')"
  unfolding pl_wait_while_def pl_lock_eq pl_guard_wait_eq
  by (drule (2) pl.notified.acquire_and_wait_region) simp

lemma pl_wait_while_for_region:
  "idle (pl_platform B T) w \<Longrightarrow> writes_within S w \<Longrightarrow>
   pl_wait_while_for B T timeout waiting p f w = Some (r, w') \<Longrightarrow>
   writes_within S w' \<and> timed_region S waiting f (pl_value B w) r (pl_value B w')"
  unfolding pl_wait_while_for_def pl_lock_eq pl_guard_wait_with_timer_eq
  by (drule (2) pl.timed.wait_while_for_region) simp

lemma pl_with_write_region:
  "idle (pl_platform B T) w \<Longrightarrow> writes_within S w \<Longrightarrow> pl_with_write B T f w = (r, w') \<Longrightarrow>
   writes_within S w' \<and> wait_region S (\<lambda>p _. (Return False, p)) f (pl_value B w) r (pl_value B w')"
  unfolding pl_with_write_def pl_lock_eq by (drule (2) pl.with_write_region) simp

end

section \<open>Guarantees\<close>

text \<open>C7: the blocking calls of the standard monitor refine conditional critical regions. Under any
  interference whose writes are steps of \<open>S\<close>, \<^verbatim>\<open>wait_while\<close>, the timed waits and \<^verbatim>\<open>with_write\<close> reach
  an outcome, and between their call and their end the value went through steps of the others and,
  for a returned result, exactly one application of the action, to a value the predicate had
  released; \<^verbatim>\<open>TimedOut\<close> means no application and a moment at which the predicate blocked.\<close>

theorem std_refines_regions:
  assumes "idle (std_platform T) w" and "writes_within S w"
  shows "(\<exists>r w'. std_wait_while T waiting p f w = Some (r, w') \<and>
      wait_region S waiting f (std_value w) r (std_value w')) \<and>
    (\<exists>r w'. std_wait_while_for T timeout waiting p f w = Some (r, w') \<and>
      timed_region S waiting f (std_value w) r (std_value w')) \<and>
    (\<exists>r w'. std_wait_while_with_deadline T deadline waiting p f w = Some (r, w') \<and>
      timed_region S waiting f (std_value w) r (std_value w')) \<and>
    (\<exists>r w'. std_with_write T f w = (r, w') \<and>
      wait_region S (\<lambda>p _. (Return False, p)) f (std_value w) r (std_value w'))"
proof (intro conjI std_wait_while_for_region std_wait_while_with_deadline_region assms)
  show "\<exists>r w'. std_wait_while T waiting p f w = Some (r, w') \<and>
      wait_region S waiting f (std_value w) r (std_value w')"
    using std_wait_while_spec [OF assms(1), of waiting p f] std_wait_while_region [OF assms, of waiting p f]
    by blast
  show "\<exists>r w'. std_with_write T f w = (r, w') \<and>
      wait_region S (\<lambda>p _. (Return False, p)) f (std_value w) r (std_value w')"
    using std_with_write_region [OF assms] by (cases "std_with_write T f w") blast
qed

text \<open>Other threads that only ever increment a counter.\<close>

abbreviation demo_incr :: "nat \<Rightarrow> nat \<Rightarrow> bool" where
  "demo_incr a b \<equiv> b = Suc a"

definition demo_counting :: "(nat, manual_clock) env_action list list" where
  "demo_counting = [[EnvLock, EnvWrite Suc, EnvUnlock False], [], [], [EnvTakeAll, EnvWake 0], []]"

lemma demo_counting_writes: "writes_within demo_incr (demo_world demo_counting)"
  by (auto simp: writes_within_def demo_world_def demo_counting_def std_world_of_def)

theorem std_refines_regions_witness:
  "\<exists>r w'. std_wait_while manual_timer demo_empty () demo_take (demo_world demo_counting) = Some (r, w') \<and>
    wait_region demo_incr demo_empty demo_take (std_value (demo_world demo_counting)) r (std_value w')"
  using std_refines_regions [OF demo_idle demo_counting_writes, where waiting = demo_empty and p = "()" and
      f = demo_take and timeout = "\<lparr>secs = 1, nanos = 0\<rparr>" and deadline = 0]
  by blast

text \<open>C31: the monitor rule, for a parking_lot monitor. An invariant of the protected value that the
  writes of the other threads keep, and that the action keeps when it is applied to a value the
  predicate has released, holds again after \<^verbatim>\<open>wait_while\<close> and after \<^verbatim>\<open>with_write\<close>, whatever their outcome.\<close>

theorem pl_keeps_invariant:
  assumes "raw_mutex B" and "idle (pl_platform B T) w" and "writes_within S w" and "I (pl_value B w)"
    and "\<And>d d'. I d \<Longrightarrow> S d d' \<Longrightarrow> I d'"
    and "\<And>q q' d r d'. I d \<Longrightarrow> waiting q d = (Return False, q') \<Longrightarrow> f d = (r, d') \<Longrightarrow> I d'"
    and "\<And>d r d'. I d \<Longrightarrow> g d = (r, d') \<Longrightarrow> I d'"
  shows "(\<exists>r w'. pl_wait_while B T waiting p f w = Some (r, w') \<and> I (pl_value B w')) \<and>
    I (pl_value B (snd (pl_with_write B T g w)))"
proof
  obtain r w' where w': "pl_wait_while B T waiting p f w = Some (r, w')"
    using raw_mutex.pl_wait_while_spec [OF assms(1,2), of waiting p f] by blast
  have region: "wait_region S waiting f (pl_value B w) r (pl_value B w')"
    using raw_mutex.pl_wait_while_region [OF assms(1-3) w'] by blast
  have "I (pl_value B w')" by (rule wait_region_invariant [OF region, of I]) (fact assms)+
  with w' show "\<exists>r w'. pl_wait_while B T waiting p f w = Some (r, w') \<and> I (pl_value B w')" by blast
  obtain x v where v: "pl_with_write B T g w = (x, v)" by fastforce
  have region: "wait_region S (\<lambda>p _. (Return False, p)) g (pl_value B w) x (pl_value B v)"
    using raw_mutex.pl_with_write_region [OF assms(1-3) v] by blast
  have "I (pl_value B v)"
    by (rule wait_region_invariant [OF region, of I]) (fact assms | (erule assms(7), assumption))+
  then show "I (pl_value B (snd (pl_with_write B T g w)))" using v by simp
qed

text \<open>The value stays below 3: the others write 0, the waiter takes.\<close>

lemma demo_zero_writes:
  "writes_within (\<lambda>_ b. b = 0)
     (demo_pl_world [[EnvLock, EnvWrite (\<lambda>_. 0), EnvUnlock False], [], [EnvTakeAll], [EnvWake 0], []])"
  by (auto simp: writes_within_def demo_pl_world_def pl_world_of_def)

theorem pl_keeps_invariant_witness:
  "\<exists>r w'. pl_wait_while std_raw manual_timer demo_empty () demo_take
      (demo_pl_world [[EnvLock, EnvWrite (\<lambda>_. 0), EnvUnlock False], [], [EnvTakeAll], [EnvWake 0], []]) =
      Some (r, w') \<and> pl_value std_raw w' < 3"
  by (rule pl_keeps_invariant [OF std_raw_mutex demo_pl_idle demo_zero_writes, of "\<lambda>d. d < 3" demo_empty
        demo_take demo_take, THEN conjunct1])
    (auto simp: demo_take_def demo_pl_world_def pl_world_of_def pl_with_timer_def std_raw_def mutex_new_def)

end
