(* ===== verification/Bounded_Queue_Spec.thy ===== *)
theory Bounded_Queue_Spec
  imports Bounded_Queue Region_Spec
begin

text \<open>
  The bounded queue of \<^verbatim>\<open>examples/bounded_queue.rs\<close> under any interleaving with other threads that
  use the same queue. The contract of a monitor as a client sees it is a locale; the queue is
  verified once against it, and both blocking monitors meet it.
\<close>

section \<open>What the threads do to the queue\<close>

text \<open>One operation of some thread. \<open>queue_trace\<close> also records what was put in and taken out.\<close>

inductive queue_step :: "'a QueueState \<Rightarrow> 'a QueueState \<Rightarrow> bool" where
  put: "\<not> qs_closed s \<Longrightarrow> has_space s \<Longrightarrow> queue_step s (s\<lparr>qs_items := qs_items s @ [x]\<rparr>)"
| take: "qs_items s = x # xs \<Longrightarrow> queue_step s (s\<lparr>qs_items := xs\<rparr>)"
| close: "queue_step s (s\<lparr>qs_closed := True\<rparr>)"

inductive queue_trace :: "'a QueueState \<Rightarrow> 'a list \<Rightarrow> 'a list \<Rightarrow> 'a QueueState \<Rightarrow> bool" where
  start: "queue_trace s [] [] s"
| put: "queue_trace s ins outs t \<Longrightarrow> \<not> qs_closed t \<Longrightarrow> has_space t \<Longrightarrow>
    queue_trace s (ins @ [x]) outs (t\<lparr>qs_items := qs_items t @ [x]\<rparr>)"
| take: "queue_trace s ins outs t \<Longrightarrow> qs_items t = x # xs \<Longrightarrow>
    queue_trace s ins (outs @ [x]) (t\<lparr>qs_items := xs\<rparr>)"
| close: "queue_trace s ins outs t \<Longrightarrow> queue_trace s ins outs (t\<lparr>qs_closed := True\<rparr>)"

text \<open>What comes out is what went in, in the same order.\<close>

lemma trace_fifo: "queue_trace s ins outs t \<Longrightarrow> qs_items s @ ins = outs @ qs_items t"
  by (induction rule: queue_trace.induct) (simp_all add: append_assoc [symmetric] del: append_assoc)

lemma trace_trans:
  assumes "queue_trace t ins' outs' u" and "queue_trace s ins outs t"
  shows "queue_trace s (ins @ ins') (outs @ outs') u"
  using assms
proof (induction rule: queue_trace.induct)
  case (put s' ins' outs' t' x)
  then show ?case using queue_trace.put [of s "ins @ ins'" "outs @ outs'" t' x] by simp
next
  case (take s' ins' outs' t' x xs)
  then show ?case using queue_trace.take [of s "ins @ ins'" "outs @ outs'" t' x xs] by simp
qed (auto intro: queue_trace.close)

lemma steps_trace: "queue_step\<^sup>*\<^sup>* s t \<Longrightarrow> \<exists>ins outs. queue_trace s ins outs t"
proof (induction rule: rtranclp_induct)
  case base
  show ?case using queue_trace.start by blast
next
  case (step t u)
  then obtain ins outs where t: "queue_trace s ins outs t" by blast
  from step.hyps(2) show ?case
    by cases (use t in \<open>blast intro: queue_trace.put queue_trace.take queue_trace.close\<close>)+
qed

text \<open>The invariant of the state: the capacity is positive, fixed and never exceeded.\<close>

definition queue_wf :: "u64 \<Rightarrow> 'a QueueState \<Rightarrow> bool" where
  "queue_wf c s \<longleftrightarrow> qs_capacity s = c \<and> c \<noteq> 0 \<and> length (qs_items s) \<le> unat c"

lemma queue_step_wf: "queue_wf c s \<Longrightarrow> queue_step s t \<Longrightarrow> queue_wf c t"
  by (auto simp: queue_wf_def has_space_def elim!: queue_step.cases)

lemma steps_closed: "queue_step\<^sup>*\<^sup>* s t \<Longrightarrow> qs_closed s \<Longrightarrow> qs_closed t"
  by (erule steps_invariant) (auto elim: queue_step.cases)

text \<open>The closures are such steps.\<close>

lemma not_pred_ready [simp]:
  "not_pred push_ready q s = (Return (\<not> (qs_closed s \<or> has_space s)), q)"
  "not_pred pop_ready q s = (Return (\<not> (qs_closed s \<or> qs_items s \<noteq> [])), q)"
  by (simp_all add: not_pred_def push_ready_def pop_ready_def)

lemma push_region_step:
  assumes "not_pred push_ready q s = (Return False, q')" and "push_action item s = (r, t)"
  shows "(r = Return (Inl item) \<and> qs_closed s \<and> t = s) \<or>
    (r = Return (Inr ()) \<and> \<not> qs_closed s \<and> has_space s \<and> t = s\<lparr>qs_items := qs_items s @ [item]\<rparr>)"
  using assms by (auto simp: push_action_def split: if_splits)

lemma pop_region_step:
  assumes "not_pred pop_ready q s = (Return False, q')" and "pop_action s = (r, t)"
  shows "(r = Return None \<and> qs_closed s \<and> qs_items s = [] \<and> t = s) \<or>
    (\<exists>x xs. r = Return (Some x) \<and> qs_items s = x # xs \<and> t = s\<lparr>qs_items := xs\<rparr>)"
  using assms by (auto simp: pop_action_def split: list.splits)

lemma steps_drained:
  "queue_step\<^sup>*\<^sup>* s t \<Longrightarrow> qs_closed s \<and> qs_items s = [] \<Longrightarrow> qs_closed t \<and> qs_items t = []"
  by (erule steps_invariant) (auto elim: queue_step.cases)

text \<open>What the results of the operations mean for the queue between the call and its end.\<close>

definition push_result :: "'a \<Rightarrow> 'a QueueState \<Rightarrow> ('a + unit) outcome \<Rightarrow> 'a QueueState \<Rightarrow> bool" where
  "push_result item a r b = (case r of
       Return (Inr _) \<Rightarrow> \<exists>ins ins' outs. queue_trace a (ins @ item # ins') outs b
     | Return (Inl x) \<Rightarrow> x = item \<and> qs_closed b \<and> queue_step\<^sup>*\<^sup>* a b
     | _ \<Rightarrow> queue_step\<^sup>*\<^sup>* a b)"

definition pop_result :: "'a QueueState \<Rightarrow> 'a option outcome \<Rightarrow> 'a QueueState \<Rightarrow> bool" where
  "pop_result a r b = (case r of
       Return (Some x) \<Rightarrow> \<exists>ins outs outs'. queue_trace a ins (outs @ x # outs') b
     | Return None \<Rightarrow> qs_closed b \<and> qs_items b = [] \<and> queue_step\<^sup>*\<^sup>* a b
     | _ \<Rightarrow> queue_step\<^sup>*\<^sup>* a b)"

lemma push_region_result:
  assumes "wait_region queue_step (not_pred push_ready) (push_action item) a r b"
  shows "push_result item a r b"
proof -
  have acted: "push_result item a r b \<and> (\<exists>x. r = Return x)"
    if acts: "acts_within queue_step (not_pred push_ready) (push_action item) a r b"
  proof -
    obtain s t q q' where before: "queue_step\<^sup>*\<^sup>* a s" and after: "queue_step\<^sup>*\<^sup>* t b"
      and ready: "not_pred push_ready q s = (Return False, q')" and act: "push_action item s = (r, t)"
      using acts unfolding acts_within_def by blast
    from push_region_step [OF ready act] show ?thesis
    proof (elim disjE conjE)
      assume r: "r = Return (Inl item)" and s: "qs_closed s" "t = s"
      then have "queue_step\<^sup>*\<^sup>* a b" "qs_closed b"
        using before after steps_closed by (auto intro: rtranclp_trans)
      then show ?thesis using r by (simp add: push_result_def)
    next
      assume r: "r = Return (Inr ())" and s: "\<not> qs_closed s" "has_space s"
        "t = s\<lparr>qs_items := qs_items s @ [item]\<rparr>"
      obtain ins outs ins' outs' where "queue_trace a ins outs s" and t: "queue_trace t ins' outs' b"
        using steps_trace before after by meson
      then have "queue_trace a (ins @ [item]) outs t" using s queue_trace.put [of a ins outs s item] by simp
      from trace_trans [OF t this] have "queue_trace a (ins @ item # ins') (outs @ outs') b" by simp
      then show ?thesis using r by (auto simp: push_result_def)
    qed
  qed
  with assms show ?thesis by (cases r) (auto simp: wait_region_def push_result_def)
qed

lemma pop_acts_result:
  assumes "acts_within queue_step (not_pred pop_ready) pop_action a r b"
  shows "pop_result a r b \<and> (\<exists>x. r = Return x)"
proof -
  obtain s t q q' where before: "queue_step\<^sup>*\<^sup>* a s" and after: "queue_step\<^sup>*\<^sup>* t b"
    and ready: "not_pred pop_ready q s = (Return False, q')" and act: "pop_action s = (r, t)"
    using assms unfolding acts_within_def by blast
  from pop_region_step [OF ready act] show ?thesis
  proof (elim disjE conjE exE)
    assume r: "r = Return None" and s: "qs_closed s" "qs_items s = []" "t = s"
    then have "queue_step\<^sup>*\<^sup>* a b" "qs_closed b \<and> qs_items b = []"
      using before after steps_drained by (auto intro: rtranclp_trans)
    then show ?thesis using r by (simp add: pop_result_def)
  next
    fix x xs assume r: "r = Return (Some x)" and s: "qs_items s = x # xs" "t = s\<lparr>qs_items := xs\<rparr>"
    obtain ins outs ins' outs' where "queue_trace a ins outs s" and t: "queue_trace t ins' outs' b"
      using steps_trace before after by meson
    then have "queue_trace a ins (outs @ [x]) t" using s queue_trace.take [of a ins outs s x xs] by simp
    from trace_trans [OF t this] have "queue_trace a (ins @ ins') (outs @ x # outs') b" by simp
    then show ?thesis using r by (auto simp: pop_result_def)
  qed
qed

lemma pop_region_result:
  "wait_region queue_step (not_pred pop_ready) pop_action a r b \<Longrightarrow> pop_result a r b"
  using pop_acts_result [of a r b] by (cases r) (auto simp: wait_region_def pop_result_def)

text \<open>Whatever the outcome, the queue went through operations of the threads only.\<close>

lemma push_result_steps: "push_result item a r b \<Longrightarrow> \<exists>ins outs. queue_trace a ins outs b"
  by (auto simp: push_result_def steps_trace split: outcome.splits sum.splits)

lemma pop_result_steps: "pop_result a r b \<Longrightarrow> \<exists>ins outs. queue_trace a ins outs b"
  by (auto simp: pop_result_def steps_trace split: outcome.splits option.splits)

lemma trace_wf: "queue_trace a ins outs b \<Longrightarrow> queue_wf c a \<Longrightarrow> queue_wf c b"
  by (induction rule: queue_trace.induct) (auto simp: queue_wf_def has_space_def)

section \<open>The monitor as the client sees it\<close>

locale region_client =
  fixes idles :: "'w \<Rightarrow> bool" and rely :: "('t \<Rightarrow> 't \<Rightarrow> bool) \<Rightarrow> 'w \<Rightarrow> bool" and val :: "'w \<Rightarrow> 't"
    and wait_until :: "('t, 'r, 'w) wait_until_method" and notify_all :: "'w \<Rightarrow> unit outcome \<times> 'w"
  assumes wait_total: "idles w \<Longrightarrow> \<exists>r w'. wait_until ready () f w = Some (r, w') \<and>
      (\<forall>x. r = Return x \<longrightarrow> idles w')"
    and wait_region: "idles w \<Longrightarrow> rely S w \<Longrightarrow> wait_until ready () f w = Some (r, w') \<Longrightarrow>
      rely S w' \<and> wait_region S (not_pred ready) f (val w) r (val w')"
    and notify: "idles w \<Longrightarrow> \<exists>w'. notify_all w = (Return (), w') \<and> idles w' \<and>
      (\<forall>S. rely S w \<longrightarrow> rely S w' \<and> S\<^sup>*\<^sup>* (val w) (val w'))"
begin

lemma call_total:
  assumes "idles w"
  shows "\<exists>r w'. notify_if changed notify_all (wait_until ready () f w) = Some (r, w') \<and>
    (\<forall>x. r = Return x \<longrightarrow> idles w')"
proof -
  obtain r v where wait: "wait_until ready () f w = Some (r, v)" and v: "\<forall>x. r = Return x \<longrightarrow> idles v"
    using wait_total [OF assms] by blast
  show ?thesis
  proof (cases r)
    case (Return x)
    then obtain u where "notify_all v = (Return (), u)" "idles u" using notify v by blast
    then show ?thesis using wait v Return by (simp add: notify_if_def)
  qed (use wait in \<open>simp_all add: notify_if_def\<close>)
qed

text \<open>A wait followed by a notification is still one region.\<close>

lemma call_region:
  assumes "idles w" and "rely S w"
    and "notify_if changed notify_all (wait_until ready () f w) = Some (r, w')"
  shows "rely S w' \<and> wait_region S (not_pred ready) f (val w) r (val w')"
proof -
  obtain r1 v where wait: "wait_until ready () f w = Some (r1, v)"
    and idle: "\<forall>x. r1 = Return x \<longrightarrow> idles v"
    using wait_total [OF assms(1)] by blast
  note v = wait_region [OF assms(1,2) wait]
  show ?thesis
  proof (cases r1)
    case (Return x)
    then obtain u where u: "notify_all v = (Return (), u)" "rely S u" "S\<^sup>*\<^sup>* (val v) (val u)"
      using notify [of v] idle v by blast
    have "acts_within S (not_pred ready) f (val w) (Return x) (val u)"
      using v Return u(3) by (auto simp: wait_region_def intro: acts_after)
    then show ?thesis
      using assms(3) wait Return v u by (auto simp: notify_if_def wait_region_def split: if_splits)
  qed (use assms(3) wait v in \<open>auto simp: notify_if_def\<close>)
qed

end

text \<open>The same for a wait that may time out.\<close>

locale timed_client =
  fixes idles :: "'w \<Rightarrow> bool" and rely :: "('t \<Rightarrow> 't \<Rightarrow> bool) \<Rightarrow> 'w \<Rightarrow> bool" and val :: "'w \<Rightarrow> 't"
    and wait_until_for :: "duration \<Rightarrow> (unit, 't) predicate \<Rightarrow> unit \<Rightarrow> ('t, 'r) action \<Rightarrow> 'w \<Rightarrow>
      (('e + 'r WaitTimeoutResult) outcome \<times> 'w) option"
    and notify_all :: "'w \<Rightarrow> unit outcome \<times> 'w"
  assumes wait_total: "idles w \<Longrightarrow> \<exists>r w'. wait_until_for timeout ready () f w = Some (r, w') \<and>
      (\<forall>x. r = Return x \<longrightarrow> idles w')"
    and wait_region: "idles w \<Longrightarrow> rely S w \<Longrightarrow> wait_until_for timeout ready () f w = Some (r, w') \<Longrightarrow>
      rely S w' \<and> timed_region S (not_pred ready) f (val w) r (val w')"
    and notify: "idles w \<Longrightarrow> \<exists>w'. notify_all w = (Return (), w') \<and> idles w' \<and>
      (\<forall>S. rely S w \<longrightarrow> rely S w' \<and> S\<^sup>*\<^sup>* (val w) (val w'))"
begin

lemma call_region:
  assumes "idles w" and "rely S w" and "\<And>x. changed x \<Longrightarrow> \<exists>y. x = Inr (Ready y)"
    and "notify_if changed notify_all (wait_until_for timeout ready () f w) = Some (r, w')"
  shows "rely S w' \<and> timed_region S (not_pred ready) f (val w) r (val w')"
proof -
  obtain r1 v where wait: "wait_until_for timeout ready () f w = Some (r1, v)"
    and idle: "\<forall>x. r1 = Return x \<longrightarrow> idles v"
    using wait_total [OF assms(1)] by blast
  note v = wait_region [OF assms(1,2) wait]
  show ?thesis
  proof (cases "\<exists>y. r1 = Return (Inr (Ready y)) \<and> changed (Inr (Ready y))")
    case True
    then obtain y where y: "r1 = Return (Inr (Ready y))" "changed (Inr (Ready y))" by blast
    then obtain u where u: "notify_all v = (Return (), u)" "rely S u" "S\<^sup>*\<^sup>* (val v) (val u)"
      using notify [of v] idle v by blast
    have "acts_within S (not_pred ready) f (val w) (Return y) (val u)"
      using v y(1) u(3) by (auto simp: timed_region_def intro: acts_after)
    then show ?thesis
      using assms(4) wait y u by (auto simp: notify_if_def timed_region_def)
  next
    case False
    then have "r = r1" "w' = v"
      using assms(3,4) wait by (cases r1; auto simp: notify_if_def split: if_splits)+
    then show ?thesis using v by simp
  qed
qed

end

section \<open>The blocking monitors meet it\<close>

lemma wait_post_idle: "wait_post P waiting p f (Return x) w \<Longrightarrow> idle P w"
  by (simp add: wait_post_def)

lemma timed_post_idle: "timed_post P waiting p f (Return x) w \<Longrightarrow> idle P w"
  by (auto simp: timed_post_def split: sum.splits WaitTimeoutResult.splits)

context state_backend
begin

lemma notify_all_client:
  assumes "idle P w"
  shows "\<exists>w'. bwr_notify_all P w = (Return (), w') \<and> idle P w' \<and>
    (\<forall>S. writes_within S w \<longrightarrow> writes_within S w' \<and> S\<^sup>*\<^sup>* (data P w) (data P w'))"
  using notify_all_spec [OF assms] drift_notify_all drift_D by metis

end

context raw_mutex
begin

lemma pl_wait_until_total:
  "idle (pl_platform B T) w \<Longrightarrow>
   \<exists>r w'. ConditionWaiter_wait_until (pl_ConditionWaiter_wait_while B T) ready () f w = Some (r, w') \<and>
     (\<forall>x. r = Return x \<longrightarrow> idle (pl_platform B T) w')"
  using pl_wait_while_spec [of T w "not_pred ready" "()" f] wait_post_idle
  by (fastforce simp: ConditionWaiter_wait_until_def pl_ConditionWaiter_wait_while_def)

end

sublocale raw_mutex \<subseteq> pl_client: region_client "idle (pl_platform B T)" writes_within
    "\<lambda>w. pl_value B w" "ConditionWaiter_wait_until (pl_ConditionWaiter_wait_while B T)"
    "pl_Notifier_notify_all B T" for T
proof (unfold_locales, goal_cases)
  case (1 w ready f)
  then show ?case by (rule pl_wait_until_total)
next
  case (2 w S ready f r w')
  then show ?case
    using pl_wait_while_region by (simp add: ConditionWaiter_wait_until_def pl_ConditionWaiter_wait_while_def)
next
  case (3 w)
  then show ?case
    using pl.notify_all_client by (simp add: pl_Notifier_notify_all_def pl_notify_all_def)
qed

context raw_mutex
begin

lemma pl_region_client: "region_client (idle (pl_platform B T)) writes_within (\<lambda>w. pl_value B w)
    (ConditionWaiter_wait_until (pl_ConditionWaiter_wait_while B T)) (pl_Notifier_notify_all B T)"
  by (rule pl_client.region_client_axioms)

lemma pl_wait_until_for_total:
  "idle (pl_platform B T) w \<Longrightarrow>
   \<exists>r w'. TimeoutConditionWaiter_wait_until_for (pl_TimeoutConditionWaiter_wait_while_for B T) timeout
       ready () f w = Some (r, w') \<and> (\<forall>x. r = Return x \<longrightarrow> idle (pl_platform B T) w')"
  using pl_wait_while_for_spec [of T w timeout "not_pred ready" "()" f] timed_post_idle
  by (fastforce simp: TimeoutConditionWaiter_wait_until_for_def pl_TimeoutConditionWaiter_wait_while_for_def)

end

sublocale raw_mutex \<subseteq> pl_timed_client: timed_client "idle (pl_platform B T)" writes_within
    "\<lambda>w. pl_value B w"
    "TimeoutConditionWaiter_wait_until_for (pl_TimeoutConditionWaiter_wait_while_for B T)"
    "pl_Notifier_notify_all B T" for T
proof (unfold_locales, goal_cases)
  case (1 w timeout ready f)
  then show ?case by (rule pl_wait_until_for_total)
next
  case (2 w S timeout ready f r w')
  then show ?case
    using pl_wait_while_for_region
    by (simp add: TimeoutConditionWaiter_wait_until_for_def pl_TimeoutConditionWaiter_wait_while_for_def)
next
  case (3 w)
  then show ?case
    using pl.notify_all_client by (simp add: pl_Notifier_notify_all_def pl_notify_all_def)
qed

context raw_mutex
begin

lemma pl_timed_client_axioms: "timed_client (idle (pl_platform B T)) writes_within
    (\<lambda>w. pl_value B w)
    (TimeoutConditionWaiter_wait_until_for (pl_TimeoutConditionWaiter_wait_while_for B T))
    (pl_Notifier_notify_all B T)"
  by (rule pl_timed_client.timed_client_axioms)

end

text \<open>Writing and notifying, as the provided trait method does it.\<close>

context state_backend
begin

lemma write_notify_region:
  assumes "idle P w" and "writes_within S w"
    and "and_then (and_then (acquire_guard (lock_state P) w) (\<lambda>_ w. end_scope P (run_action P f w)))
      (\<lambda>result w. and_then (bwr_notify_all P w) (\<lambda>_ w. (Return result, w))) = (r, w')"
  shows "writes_within S w' \<and> wait_region S (\<lambda>p _. (Return False, p)) f (data P w) r (data P w') \<and>
    (\<forall>x. r = Return x \<longrightarrow> idle P w')"
proof -
  obtain r1 v where ran:
    "and_then (acquire_guard (lock_state P) w) (\<lambda>_ w. end_scope P (run_action P f w)) = (r1, v)"
    by fastforce
  note v = with_write_region [OF assms(1,2) ran] and spec = with_write_spec [OF assms(1) ran]
  show ?thesis
  proof (cases r1)
    case (Return x)
    then have "idle P v" using spec by auto
    then obtain u where u: "bwr_notify_all P v = (Return (), u)" "idle P u" "writes_within S u"
      "S\<^sup>*\<^sup>* (data P v) (data P u)" using notify_all_client v by blast
    then have "r = Return x" "w' = u" using assms(3) ran Return by auto
    then show ?thesis using v u Return by (auto simp: wait_region_def intro: acts_after)
  qed (use assms(3) ran v in auto)
qed

end

section \<open>The operations on any such monitor\<close>

lemma push_call:
  assumes "region_client idles rely val wait_until notify_all" and "idles w" and "rely queue_step w"
    and "queue_push wait_until notify_all item w = Some (r, w')"
  shows "rely queue_step w' \<and> push_result item (val w) r (val w')"
  using region_client.call_region [OF assms(1-3) assms(4) [unfolded queue_push_def]]
  by (simp add: push_region_result)

lemma pop_call:
  assumes "region_client idles rely val wait_until notify_all" and "idles w" and "rely queue_step w"
    and "queue_pop wait_until notify_all w = Some (r, w')"
  shows "rely queue_step w' \<and> pop_result (val w) r (val w')"
  using region_client.call_region [OF assms(1-3) assms(4) [unfolded queue_pop_def]]
  by (simp add: pop_region_result)

text \<open>A timed pop.\<close>

definition pop_for_result ::
  "'a QueueState \<Rightarrow> ('e + 'a option WaitTimeoutResult) outcome \<Rightarrow> 'a QueueState \<Rightarrow> bool"
where
  "pop_for_result a r b = (case r of
       Return (Inr (Ready x)) \<Rightarrow> pop_result a (Return x) b
     | Return (Inr TimedOut) \<Rightarrow> \<exists>s. queue_step\<^sup>*\<^sup>* a s \<and> \<not> qs_closed s \<and> qs_items s = [] \<and> queue_step\<^sup>*\<^sup>* s b
     | _ \<Rightarrow> queue_step\<^sup>*\<^sup>* a b)"

lemma pop_for_region_result:
  assumes "timed_region queue_step (not_pred pop_ready) pop_action a r b"
  shows "pop_for_result a r b"
proof (cases r)
  case (Return x)
  then show ?thesis
    using assms pop_acts_result [of a _ b]
    by (auto simp: timed_region_def pop_for_result_def seen_blocking_def
        split: sum.splits WaitTimeoutResult.splits)
qed (use assms pop_acts_result [of a _ b] in \<open>auto simp: timed_region_def pop_for_result_def\<close>)

lemma popped_ready: "popped x \<Longrightarrow> \<exists>y. x = Inr (Ready y)"
  by (auto simp: popped_def split: sum.splits WaitTimeoutResult.splits)

lemma pop_for_call:
  assumes "timed_client idles rely val wait_until_for notify_all" and "idles w" and "rely queue_step w"
    and "queue_pop_for wait_until_for notify_all timeout w = Some (r, w')"
  shows "rely queue_step w' \<and> pop_for_result (val w) r (val w')"
  using timed_client.call_region [OF assms(1-3), of popped timeout pop_ready pop_action r w'] assms(4)
  by (simp add: queue_pop_for_def popped_ready pop_for_region_result)

text \<open>Closing is one step; a closed queue stays closed.\<close>

lemma close_region_result:
  assumes "wait_region queue_step (\<lambda>p _. (Return False, p)) close_action a r b"
  shows "queue_step\<^sup>*\<^sup>* a b \<and> (r = Return () \<longrightarrow> qs_closed b)"
proof -
  have "queue_step\<^sup>*\<^sup>* a b \<and> qs_closed b"
    if acts: "acts_within queue_step (\<lambda>p _. (Return False, p)) close_action a r b" for r
  proof -
    obtain s where "queue_step\<^sup>*\<^sup>* a s" and "queue_step\<^sup>*\<^sup>* (s\<lparr>qs_closed := True\<rparr>) b"
      using acts by (auto simp: acts_within_def close_action_def)
    then show ?thesis
      using queue_step.close [of s] steps_closed [of "s\<lparr>qs_closed := True\<rparr>" b]
      by (auto intro: rtranclp.rtrancl_into_rtrancl rtranclp_trans)
  qed
  with assms show ?thesis by (cases r) (auto simp: wait_region_def)
qed

section \<open>The standard monitor\<close>

interpretation std_client: region_client "idle (std_platform T)" writes_within
    "\<lambda>w. std_value w" "ConditionWaiter_wait_until (std_ConditionWaiter_wait_while T)"
    "std_Notifier_notify_all T" for T
proof (unfold_locales, goal_cases)
  case (1 w ready f)
  then show ?case
    using std_wait_while_spec [of T w "not_pred ready" "()" f] wait_post_idle
    by (fastforce simp: ConditionWaiter_wait_until_def std_ConditionWaiter_wait_while_def)
next
  case (2 w S ready f r w')
  then show ?case
    using std_wait_while_region by (simp add: ConditionWaiter_wait_until_def std_ConditionWaiter_wait_while_def)
next
  case (3 w)
  then show ?case
    using std.notify_all_client by (simp add: std_Notifier_notify_all_def std_notify_all_def)
qed

lemma std_wait_while_for_spec:
  "idle (std_platform T) w \<Longrightarrow> \<exists>r w'. std_wait_while_for T timeout waiting p f w = Some (r, w') \<and>
     timed_post (std_platform T) waiting p f r w'"
  unfolding std_wait_while_for_def std_lock_eq std_guard_wait_with_timer_eq
  by (rule std.timed.wait_while_for_spec)

lemma std_wait_while_for_call:
  "idle (std_platform T) w \<Longrightarrow> writes_within S w \<Longrightarrow> std_wait_while_for T timeout waiting p f w = Some (r, w') \<Longrightarrow>
   writes_within S w' \<and> timed_region S waiting f (std_value w) r (std_value w')"
  unfolding std_wait_while_for_def std_lock_eq std_guard_wait_with_timer_eq
  by (drule (2) std.timed.wait_while_for_region) simp

interpretation std_timed_client: timed_client "idle (std_platform T)" writes_within "\<lambda>w. std_value w"
    "TimeoutConditionWaiter_wait_until_for (std_TimeoutConditionWaiter_wait_while_for T)"
    "std_Notifier_notify_all T" for T
proof (unfold_locales, goal_cases)
  case (1 w timeout ready f)
  then show ?case
    using std_wait_while_for_spec [of T w timeout "not_pred ready" "()" f] timed_post_idle
    by (fastforce simp: TimeoutConditionWaiter_wait_until_for_def std_TimeoutConditionWaiter_wait_while_for_def)
next
  case (2 w S timeout ready f r w')
  then show ?case
    using std_wait_while_for_call
    by (simp add: TimeoutConditionWaiter_wait_until_for_def std_TimeoutConditionWaiter_wait_while_for_def)
next
  case (3 w)
  then show ?case by (rule std_client.notify)
qed

text \<open>So the queue behaves in the same way on a standard monitor.\<close>

lemma std_queue_calls:
  fixes wait_until and wait_until_for and notify_all and T
  defines "wait_until \<equiv> \<lambda>ready. ConditionWaiter_wait_until (std_ConditionWaiter_wait_while T) ready"
    and "wait_until' \<equiv> \<lambda>ready. ConditionWaiter_wait_until (std_ConditionWaiter_wait_while T) ready"
    and "wait_until_for \<equiv> TimeoutConditionWaiter_wait_until_for (std_TimeoutConditionWaiter_wait_while_for T)"
    and "notify_all \<equiv> std_Notifier_notify_all T"
  assumes "idle (std_platform T) w" and "writes_within queue_step w"
  shows "queue_push wait_until notify_all item w = Some (r, w') \<Longrightarrow>
      push_result item (std_value w) r (std_value w')"
    and "queue_pop wait_until' notify_all w = Some (r', w'') \<Longrightarrow> pop_result (std_value w) r' (std_value w'')"
    and "queue_pop_for wait_until_for notify_all timeout w = Some (s, v) \<Longrightarrow>
      pop_for_result (std_value w) s (std_value v)"
  using push_call [OF std_client.region_client_axioms assms(5,6)]
    pop_call [OF std_client.region_client_axioms assms(5,6)]
    pop_for_call [OF std_timed_client.timed_client_axioms assms(5,6)]
  unfolding assms(1-4) by blast+

section \<open>The parking_lot monitor\<close>

context raw_mutex
begin

lemma pl_write_notify_region:
  assumes "idle (pl_platform B T) w" and "writes_within S w"
    and "Monitor_with_write_notify_all (pl_Monitor_with_write B T) (pl_Notifier_notify_all B T) f w = (r, w')"
  shows "writes_within S w' \<and> wait_region S (\<lambda>p _. (Return False, p)) f (pl_value B w) r (pl_value B w') \<and>
    (\<forall>x. r = Return x \<longrightarrow> idle (pl_platform B T) w')"
  using pl.write_notify_region [OF assms(1,2), of f r w'] assms(3)
  by (simp add: Monitor_with_write_notify_all_def pl_trait_defs pl_with_write_def pl_notify_all_def)

end

lemma pl_close_call:
  assumes "raw_mutex B" and "idle (pl_platform B T) w" and "writes_within queue_step w"
    and "pl_queue_close B T w = (r, w')"
  shows "writes_within queue_step w' \<and> queue_step\<^sup>*\<^sup>* (pl_value B w) (pl_value B w') \<and>
    (r = Return () \<longrightarrow> qs_closed (pl_value B w') \<and> idle (pl_platform B T) w')"
  using raw_mutex.pl_write_notify_region [OF assms(1-3), of close_action r w'] assms(4)
    close_region_result [of "pl_value B w" r "pl_value B w'"]
  by (auto simp: pl_queue_close_def queue_close_def)

lemmas pl_push_call = push_call [OF raw_mutex.pl_region_client, folded pl_queue_push_def]
lemmas pl_pop_call = pop_call [OF raw_mutex.pl_region_client, folded pl_queue_pop_def]
lemmas pl_pop_for_call = pop_for_call [OF raw_mutex.pl_timed_client_axioms, folded pl_queue_pop_for_def]

text \<open>The queue's closures neither panic nor block, so a call that does not return is waiting.\<close>

lemma push_closures:
  "\<not> observed (not_pred push_ready) p (Panic m) d" "\<not> observed (not_pred push_ready) p Blocked d"
  "\<not> acted (not_pred push_ready) p (push_action item) (Panic m) d"
  "\<not> acted (not_pred push_ready) p (push_action item) Blocked d"
  by (auto simp: observed_def acted_def push_action_def split: if_splits)

lemma pop_closures:
  "\<not> observed (not_pred pop_ready) p (Panic m) d" "\<not> observed (not_pred pop_ready) p Blocked d"
  "\<not> acted (not_pred pop_ready) p pop_action (Panic m) d"
  "\<not> acted (not_pred pop_ready) p pop_action Blocked d"
  by (auto simp: observed_def acted_def pop_action_def split: list.splits)

text \<open>The outcomes of a call that are not results.\<close>

definition queue_stopped :: "('m, 't, 'k, 'i, 'f, 'e) platform \<Rightarrow> 'r outcome \<Rightarrow> ('m, 't, 'k) world \<Rightarrow> bool" where
  "queue_stopped P r w = (case r of
       Return _ \<Rightarrow> idle P w
     | Panic m \<Rightarrow> m = ''monitor waiter identifiers exhausted'' \<and> idle P w
     | Blocked \<Rightarrow> stuck_waiting P w \<or> stuck_locking P w)"

context raw_mutex
begin

lemma notify_if_stopped:
  assumes "queue_stopped (pl_platform B T) r v"
  shows "\<exists>r' w'. notify_if changed (pl_Notifier_notify_all B T) (Some (r, v)) = Some (r', w') \<and>
    queue_stopped (pl_platform B T) r' w'"
proof (cases r)
  case (Return x)
  then have "idle (pl_platform B T) v" using assms by (simp add: queue_stopped_def)
  then obtain u where "pl_Notifier_notify_all B T v = (Return (), u)" "idle (pl_platform B T) u"
    using pl.notify_all_spec [of T v] by (auto simp: pl_Notifier_notify_all_def pl_notify_all_def)
  then show ?thesis using Return assms by (simp add: notify_if_def queue_stopped_def)
qed (use assms in \<open>simp_all add: notify_if_def queue_stopped_def\<close>)

end

lemma wait_post_stopped:
  "wait_post P (not_pred push_ready) p (push_action item) r w \<Longrightarrow> queue_stopped P r w"
  "wait_post P (not_pred pop_ready) p pop_action r' w \<Longrightarrow> queue_stopped P r' w"
  by (auto simp: post_defs queue_stopped_def push_closures pop_closures split: outcome.splits)

lemma timed_post_stopped:
  "timed_post P (not_pred pop_ready) p pop_action r w \<Longrightarrow> queue_stopped P r w"
  by (auto simp: post_defs queue_stopped_def pop_closures
      split: outcome.splits sum.splits WaitTimeoutResult.splits)

lemma pl_push_stopped:
  assumes "raw_mutex B" and "idle (pl_platform B T) w"
  shows "\<exists>r w'. pl_queue_push B T item w = Some (r, w') \<and> queue_stopped (pl_platform B T) r w'"
proof -
  obtain r v where "pl_wait_while B T (not_pred push_ready) () (push_action item) w = Some (r, v)" and
    "wait_post (pl_platform B T) (not_pred push_ready) () (push_action item) r v"
    using raw_mutex.pl_wait_while_spec [OF assms, of "not_pred push_ready" "()" "push_action item"] by blast
  note this(1) wait_post_stopped(1) [OF this(2)]
  then show ?thesis
    using raw_mutex.notify_if_stopped [OF assms(1)]
    by (simp add: pl_queue_push_def queue_push_def ConditionWaiter_wait_until_def
        pl_ConditionWaiter_wait_while_def)
qed

lemma pl_pop_stopped:
  assumes "raw_mutex B" and "idle (pl_platform B T) w"
  shows "\<exists>r w'. pl_queue_pop B T w = Some (r, w') \<and> queue_stopped (pl_platform B T) r w'"
proof -
  obtain r v where "pl_wait_while B T (not_pred pop_ready) () pop_action w = Some (r, v)" and
    "wait_post (pl_platform B T) (not_pred pop_ready) () pop_action r v"
    using raw_mutex.pl_wait_while_spec [OF assms, of "not_pred pop_ready" "()" pop_action] by blast
  note this(1) wait_post_stopped(2) [OF this(2)]
  then show ?thesis
    using raw_mutex.notify_if_stopped [OF assms(1)]
    by (simp add: pl_queue_pop_def queue_pop_def ConditionWaiter_wait_until_def
        pl_ConditionWaiter_wait_while_def)
qed

lemma pl_pop_for_stopped:
  assumes "raw_mutex B" and "idle (pl_platform B T) w"
  shows "\<exists>r w'. pl_queue_pop_for B T timeout w = Some (r, w') \<and> queue_stopped (pl_platform B T) r w'"
proof -
  obtain r v where "pl_wait_while_for B T timeout (not_pred pop_ready) () pop_action w = Some (r, v)" and
    "timed_post (pl_platform B T) (not_pred pop_ready) () pop_action r v"
    using raw_mutex.pl_wait_while_for_spec [OF assms, of timeout "not_pred pop_ready" "()" pop_action] by blast
  note this(1) timed_post_stopped [OF this(2)]
  then show ?thesis
    using raw_mutex.notify_if_stopped [OF assms(1)]
    by (simp add: pl_queue_pop_for_def queue_pop_for_def TimeoutConditionWaiter_wait_until_for_def
        pl_TimeoutConditionWaiter_wait_while_for_def)
qed

lemma closed_trace_no_puts: "queue_trace a ins outs b \<Longrightarrow> qs_closed a \<Longrightarrow> ins = [] \<and> qs_closed b"
  by (induction rule: queue_trace.induct) auto

context raw_mutex
begin

lemma pl_released_wait_spec:
  assumes "idle (pl_platform B T) w" and "writes_within S w"
    and "\<And>s. S\<^sup>*\<^sup>* (pl_value B w) s \<Longrightarrow> fst (waiting p s) = Return False"
    and "\<And>s. \<exists>x t. f s = (Return x, t)"
  shows "\<exists>r w'. pl_wait_while B T waiting p f w = Some (r, w') \<and>
    ((\<exists>x. r = Return x) \<and> idle (pl_platform B T) w' \<or> r = Blocked \<and> stuck_locking (pl_platform B T) w')"
proof -
  obtain r w' where w': "and_then (acquire_guard (lock_state (pl_platform B T)) w)
      (\<lambda>_ w. end_scope (pl_platform B T) (run_action (pl_platform B T) f w)) = (r, w')" by fastforce
  then have "pl_wait_while B T waiting p f w = Some (r, w')"
    unfolding pl_wait_while_def pl_lock_eq pl_guard_wait_eq
    using pl.acquire_and_wait_released [OF assms(1,2), of waiting p f] assms(3) by simp
  moreover have "(\<exists>x. r = Return x) \<and> idle (pl_platform B T) w' \<or>
      r = Blocked \<and> stuck_locking (pl_platform B T) w'"
    using pl.with_write_spec [OF assms(1) w'] assms(4) by (metis outcome.distinct(3) prod.inject)
  ultimately show ?thesis by blast
qed

end

lemma closed_push_result:
  assumes "push_result item a r b" and "qs_closed a"
  shows "(\<exists>outs. qs_items a = outs @ qs_items b) \<and> (\<forall>x. r = Return x \<longrightarrow> x = Inl item)"
proof -
  obtain ins outs where trace: "queue_trace a ins outs b" using push_result_steps [OF assms(1)] by blast
  then have "ins = []" using closed_trace_no_puts assms(2) by blast
  then have "qs_items a = outs @ qs_items b" using trace_fifo [OF trace] by simp
  moreover have "x = Inl item" if "r = Return x" for x
    using assms closed_trace_no_puts that by (cases x) (fastforce simp: push_result_def)+
  ultimately show ?thesis by blast
qed

lemma closed_pop_result:
  assumes "pop_result a r b" and "qs_closed a"
  shows "(r = Return None \<longrightarrow> qs_items b = []) \<and>
    (\<forall>x. r = Return (Some x) \<longrightarrow> (\<exists>outs outs'. qs_items a = outs @ x # outs' @ qs_items b))"
proof -
  have "\<exists>outs outs'. qs_items a = outs @ x # outs' @ qs_items b" if r: "r = Return (Some x)" for x
  proof -
    obtain ins outs outs' where trace: "queue_trace a ins (outs @ x # outs') b"
      using assms(1) r by (auto simp: pop_result_def)
    then have "ins = []" using closed_trace_no_puts assms(2) by blast
    then show ?thesis using trace_fifo [OF trace] by auto
  qed
  then show ?thesis using assms(1) by (auto simp: pop_result_def)
qed

text \<open>A call on a closed queue never waits for a notification.\<close>

definition queue_settled :: "('m, 't, 'k, 'i, 'f, 'e) platform \<Rightarrow> 'r outcome \<Rightarrow> ('m, 't, 'k) world \<Rightarrow> bool" where
  "queue_settled P r w = (case r of Return _ \<Rightarrow> idle P w | Panic _ \<Rightarrow> False | Blocked \<Rightarrow> stuck_locking P w)"

context raw_mutex
begin

lemma notify_if_settled:
  assumes "queue_settled (pl_platform B T) r v"
  shows "\<exists>w'. notify_if changed (pl_Notifier_notify_all B T) (Some (r, v)) = Some (r, w') \<and>
    queue_settled (pl_platform B T) r w'"
proof (cases r)
  case (Return x)
  then have "idle (pl_platform B T) v" using assms by (simp add: queue_settled_def)
  then obtain u where "pl_Notifier_notify_all B T v = (Return (), u)" "idle (pl_platform B T) u"
    using pl.notify_all_spec [of T v] by (auto simp: pl_Notifier_notify_all_def pl_notify_all_def)
  then show ?thesis using Return assms by (simp add: notify_if_def queue_settled_def)
qed (use assms in \<open>simp_all add: notify_if_def queue_settled_def\<close>)

end

lemma pl_closed_call_settled:
  fixes f :: "('a QueueState, 'r) action"
  assumes "raw_mutex B" and "idle (pl_platform B T) w" and "writes_within queue_step w"
    and "qs_closed (pl_value B w)" and "\<And>s. qs_closed s \<Longrightarrow> fst (ready () s) = Return True"
    and "\<And>s. \<exists>x t. f s = (Return x, t)"
  shows "\<exists>r w'. notify_if changed (pl_Notifier_notify_all B T)
      (ConditionWaiter_wait_until (pl_ConditionWaiter_wait_while B T) ready () f w) = Some (r, w') \<and>
    queue_settled (pl_platform B T) r w'"
proof -
  have "fst (not_pred ready () s) = Return False" if "queue_step\<^sup>*\<^sup>* (pl_value B w) s" for s
    using assms(5) [OF steps_closed [OF that assms(4)]]
    by (auto simp: not_pred_def split: prod.splits outcome.splits)
  then obtain r v where "pl_wait_while B T (not_pred ready) () f w = Some (r, v)" and
    "(\<exists>x. r = Return x) \<and> idle (pl_platform B T) v \<or> r = Blocked \<and> stuck_locking (pl_platform B T) v"
    using raw_mutex.pl_released_wait_spec [OF assms(1-3), of "not_pred ready" "()" f] assms(6) by blast
  then have "pl_wait_while B T (not_pred ready) () f w = Some (r, v)" "queue_settled (pl_platform B T) r v"
    by (auto simp: queue_settled_def)
  with raw_mutex.notify_if_settled [OF assms(1) this(2), of changed] show ?thesis
    by (auto simp: ConditionWaiter_wait_until_def pl_ConditionWaiter_wait_while_def)
qed

lemma pl_closed_push_settled:
  assumes "raw_mutex B" and "idle (pl_platform B T) w" and "writes_within queue_step w"
    and "qs_closed (pl_value B w)"
  shows "\<exists>r w'. pl_queue_push B T item w = Some (r, w') \<and> queue_settled (pl_platform B T) r w'"
  unfolding pl_queue_push_def queue_push_def
  by (rule pl_closed_call_settled [OF assms]) (simp_all add: push_ready_def push_action_def)

lemma pl_closed_pop_settled:
  assumes "raw_mutex B" and "idle (pl_platform B T) w" and "writes_within queue_step w"
    and "qs_closed (pl_value B w)"
  shows "\<exists>r w'. pl_queue_pop B T w = Some (r, w') \<and> queue_settled (pl_platform B T) r w'"
  unfolding pl_queue_pop_def queue_pop_def
  by (rule pl_closed_call_settled [OF assms]) (simp_all add: pop_ready_def pop_action_def split: list.splits)

lemma steps_wf: "queue_step\<^sup>*\<^sup>* s t \<Longrightarrow> queue_wf c s \<Longrightarrow> queue_wf c t"
  by (erule steps_invariant) (rule queue_step_wf)

lemma pop_for_result_wf: "pop_for_result a r b \<Longrightarrow> queue_wf c a \<Longrightarrow> queue_wf c b"
  by (auto simp: pop_for_result_def split: outcome.splits sum.splits WaitTimeoutResult.splits
      dest!: pop_result_steps intro: trace_wf steps_wf)

section \<open>A queue to run\<close>

definition queue_put :: "'a \<Rightarrow> 'a QueueState \<Rightarrow> 'a QueueState" where
  "queue_put x s = (if qs_closed s \<or> \<not> has_space s then s else s\<lparr>qs_items := qs_items s @ [x]\<rparr>)"

lemma queue_put_step: "queue_step\<^sup>*\<^sup>* s (queue_put x s)"
  by (auto simp: queue_put_def intro: queue_step.put)

definition demo_queue_world ::
  "(nat QueueState, manual_clock) env_action list list \<Rightarrow> (nat QueueState mutex, nat QueueState, manual_clock) world"
where
  "demo_queue_world sc = pl_world_of (pl_with_timer std_raw (QueueState_new 1) manual_timer) manual_start sc"

text \<open>Another thread pushes 7 while the caller is suspended.\<close>

definition demo_pusher :: "(nat QueueState, manual_clock) env_action list list" where
  "demo_pusher = [[], [], [],
     [EnvLock, EnvWrite (queue_put 7), EnvUnlock False, EnvTakeAll, EnvWake 0], [], []]"

lemma demo_queue_idle: "idle (pl_platform std_raw manual_timer) (demo_queue_world sc)"
  unfolding demo_queue_world_def by (rule raw_mutex.pl_world_of_idle [OF std_raw_mutex])

lemma demo_queue_writes: "writes_within queue_step (demo_queue_world demo_pusher)"
  by (auto simp: writes_within_def demo_queue_world_def demo_pusher_def pl_world_of_def queue_put_step)


section \<open>Guarantees\<close>

lemma demo_queue_wf: "queue_wf 1 (pl_value std_raw (demo_queue_world sc))"
  by (simp add: queue_wf_def demo_queue_world_def pl_world_of_def pl_with_timer_def std_raw_def
      QueueState_new_def mutex_new_def)

lemma demo_queue_quiet: "writes_within queue_step (demo_queue_world [])"
  by (simp add: writes_within_def demo_queue_world_def pl_world_of_def)

lemma demo_queue_closes: "\<exists>w. pl_queue_close std_raw manual_timer (demo_queue_world []) = (Return (), w)"
proof -
  have "fst (pl_queue_close std_raw manual_timer (demo_queue_world [])) = Return ()" by code_simp
  then show ?thesis by (metis prod.collapse)
qed

text \<open>\<^verbatim>\<open>pop\<close> on a parking_lot monitor, with any number of other threads that push, pop and close.
  It reaches an outcome. A returned item is one that was taken from the queue; \<^verbatim>\<open>None\<close> means that the
  queue is closed and empty, for good; the only panic is exhausted waiter identifiers; a call that
  stays blocked has not been notified or waits for the monitor.\<close>

theorem queue_pop_outcome:
  assumes "raw_mutex B" and "idle (pl_platform B T) w" and "writes_within queue_step w"
  shows "\<exists>r w'. pl_queue_pop B T w = Some (r, w') \<and> queue_stopped (pl_platform B T) r w' \<and>
    pop_result (pl_value B w) r (pl_value B w')"
  using pl_pop_stopped [OF assms(1,2)] pl_pop_call [OF assms] by blast

theorem queue_pop_outcome_witness:
  "\<exists>r w'. pl_queue_pop std_raw manual_timer (demo_queue_world demo_pusher) = Some (r, w') \<and>
    queue_stopped (pl_platform std_raw manual_timer) r w' \<and>
    pop_result (pl_value std_raw (demo_queue_world demo_pusher)) r (pl_value std_raw w')"
  by (rule queue_pop_outcome [OF std_raw_mutex demo_queue_idle demo_queue_writes])





text \<open>\<^verbatim>\<open>pop_for\<close> under the same interference. \<^verbatim>\<open>Ready\<close> is the result of a pop, and \<^verbatim>\<open>TimedOut\<close>
  means that at some moment of the call the queue was open and empty.\<close>

theorem queue_pop_for_outcome:
  assumes "raw_mutex B" and "idle (pl_platform B T) w" and "writes_within queue_step w"
  shows "\<exists>r w'. pl_queue_pop_for B T timeout w = Some (r, w') \<and> queue_stopped (pl_platform B T) r w' \<and>
    pop_for_result (pl_value B w) r (pl_value B w')"
  using pl_pop_for_stopped [OF assms(1,2)] pl_pop_for_call [OF assms] by blast

theorem queue_pop_for_outcome_witness:
  "\<exists>r w'. pl_queue_pop_for std_raw manual_timer \<lparr>secs = 0, nanos = 0\<rparr> (demo_queue_world demo_pusher) =
      Some (r, w') \<and> queue_stopped (pl_platform std_raw manual_timer) r w' \<and>
    pop_for_result (pl_value std_raw (demo_queue_world demo_pusher)) r (pl_value std_raw w')"
  by (rule queue_pop_for_outcome [OF std_raw_mutex demo_queue_idle demo_queue_writes])

text \<open>C14: every operation of the queue, whatever its outcome and whatever the other threads do to the
  queue meanwhile, leaves a queue of the same positive capacity that holds no more items than that.\<close>

theorem queue_keeps_wf:
  assumes "raw_mutex B" and "idle (pl_platform B T) w" and "writes_within queue_step w"
    and "queue_wf c (pl_value B w)"
  shows "(\<exists>r w'. pl_queue_push B T item w = Some (r, w') \<and> queue_wf c (pl_value B w')) \<and>
    (\<exists>r w'. pl_queue_pop B T w = Some (r, w') \<and> queue_wf c (pl_value B w')) \<and>
    (\<exists>r w'. pl_queue_pop_for B T timeout w = Some (r, w') \<and> queue_wf c (pl_value B w')) \<and>
    queue_wf c (pl_value B (snd (pl_queue_close B T w)))"
proof (intro conjI)
  show "\<exists>r w'. pl_queue_push B T item w = Some (r, w') \<and> queue_wf c (pl_value B w')"
    using pl_push_stopped [OF assms(1,2), of item] pl_push_call [OF assms(1-3)]
      push_result_steps trace_wf [OF _ assms(4)] by meson
  show "\<exists>r w'. pl_queue_pop B T w = Some (r, w') \<and> queue_wf c (pl_value B w')"
    using pl_pop_stopped [OF assms(1,2)] pl_pop_call [OF assms(1-3)]
      pop_result_steps trace_wf [OF _ assms(4)] by meson
  show "\<exists>r w'. pl_queue_pop_for B T timeout w = Some (r, w') \<and> queue_wf c (pl_value B w')"
    using pl_pop_for_stopped [OF assms(1,2), of timeout] pl_pop_for_call [OF assms(1-3)]
      pop_for_result_wf [OF _ assms(4)] by meson
  show "queue_wf c (pl_value B (snd (pl_queue_close B T w)))"
    using pl_close_call [OF assms(1-3), of "fst (pl_queue_close B T w)"] steps_wf [OF _ assms(4)] by simp
qed

theorem queue_keeps_wf_witness:
  "(\<exists>r w'. pl_queue_push std_raw manual_timer 3 (demo_queue_world demo_pusher) = Some (r, w') \<and>
      queue_wf 1 (pl_value std_raw w')) \<and>
   queue_wf 1 (pl_value std_raw (snd (pl_queue_close std_raw manual_timer (demo_queue_world demo_pusher))))"
  using queue_keeps_wf [OF std_raw_mutex demo_queue_idle demo_queue_writes demo_queue_wf, of 3] by blast

text \<open>C30: once \<^verbatim>\<open>close\<close> has returned, a \<^verbatim>\<open>push\<close> never waits for a notification and never panics: it
  gives the item back, or is still acquiring the monitor; nothing is put in any more. A \<^verbatim>\<open>pop\<close> does not
  wait either: it drains what is left and then gives \<^verbatim>\<open>None\<close>.\<close>

theorem queue_closed_rejects:
  assumes "raw_mutex B" and "idle (pl_platform B T) w" and "writes_within queue_step w"
    and "pl_queue_close B T w = (Return (), w1)"
  shows "(\<exists>r w2. pl_queue_push B T item w1 = Some (r, w2) \<and>
      (r = Return (Inl item) \<and> idle (pl_platform B T) w2 \<or>
       r = Blocked \<and> stuck_locking (pl_platform B T) w2) \<and>
      (\<exists>outs. qs_items (pl_value B w1) = outs @ qs_items (pl_value B w2))) \<and>
    (\<exists>r w2. pl_queue_pop B T w1 = Some (r, w2) \<and>
      (r = Return None \<and> qs_items (pl_value B w2) = [] \<and> idle (pl_platform B T) w2 \<or>
       (\<exists>x outs outs'. r = Return (Some x) \<and> idle (pl_platform B T) w2 \<and>
          qs_items (pl_value B w1) = outs @ x # outs' @ qs_items (pl_value B w2)) \<or>
       r = Blocked \<and> stuck_locking (pl_platform B T) w2))"
proof -
  note closed = pl_close_call [OF assms]
  then have w1: "idle (pl_platform B T) w1" "writes_within queue_step w1" "qs_closed (pl_value B w1)"
    by simp_all
  obtain r w2 where push: "pl_queue_push B T item w1 = Some (r, w2)" "queue_settled (pl_platform B T) r w2"
    using pl_closed_push_settled [OF assms(1) w1] by blast
  have pushed: "push_result item (pl_value B w1) r (pl_value B w2)"
    using pl_push_call [OF assms(1) w1(1,2) push(1)] by simp
  obtain r' w2' where pop: "pl_queue_pop B T w1 = Some (r', w2')" "queue_settled (pl_platform B T) r' w2'"
    using pl_closed_pop_settled [OF assms(1) w1] by blast
  have popped: "pop_result (pl_value B w1) r' (pl_value B w2')"
    using pl_pop_call [OF assms(1) w1(1,2) pop(1)] by simp
  show ?thesis
    using push pop closed_push_result [OF pushed w1(3)] closed_pop_result [OF popped w1(3)]
    by (cases r; cases r') (auto simp: queue_settled_def)
qed

theorem queue_closed_rejects_witness:
  "\<exists>w1 r w2. pl_queue_close std_raw manual_timer (demo_queue_world []) = (Return (), w1) \<and>
    pl_queue_push std_raw manual_timer 8 w1 = Some (r, w2) \<and>
    (r = Return (Inl 8) \<or> r = Blocked \<and> stuck_locking (pl_platform std_raw manual_timer) w2)"
proof -
  obtain w1 where w1: "pl_queue_close std_raw manual_timer (demo_queue_world []) = (Return (), w1)"
    using demo_queue_closes by blast
  show ?thesis
    using queue_closed_rejects [OF std_raw_mutex demo_queue_idle demo_queue_quiet w1, of 8] w1 by blast
qed

end
