(* ===== verification/Lock_Traits.thy ===== *)
theory Lock_Traits
  imports Sync_Locks Async_Locks
begin

text \<open>
  The lock traits of \<^verbatim>\<open>src/lock/\<close> as values: a trait is the record of its required methods, an
  implementation is such a record, and the adapters that \<^verbatim>\<open>read_lock()\<close> and \<^verbatim>\<open>write_lock()\<close> hand out
  borrow a reader-writer lock and are a \<^verbatim>\<open>Lock\<close>.
\<close>

section \<open>Synchronous traits\<close>

record 'm Lock =
  Lock_lock :: "'m \<Rightarrow> guard outcome \<times> 'm"
  Lock_try_lock :: "'m \<Rightarrow> (TryLockError + guard) \<times> 'm"

record 'm ReadWriteLock =
  RW_read :: "'m \<Rightarrow> guard outcome \<times> 'm"
  RW_write :: "'m \<Rightarrow> guard outcome \<times> 'm"
  RW_try_read :: "'m \<Rightarrow> (TryLockError + guard) \<times> 'm"
  RW_try_write :: "'m \<Rightarrow> (TryLockError + guard) \<times> 'm"

record 'm ReadLock = ReadLock_of :: "'m ReadWriteLock"
record 'm WriteLock = WriteLock_of :: "'m ReadWriteLock"

definition ReadLock_new :: "'m ReadWriteLock \<Rightarrow> 'm ReadLock" where
  "ReadLock_new lock = \<lparr>ReadLock_of = lock\<rparr>"

definition WriteLock_new :: "'m ReadWriteLock \<Rightarrow> 'm WriteLock" where
  "WriteLock_new lock = \<lparr>WriteLock_of = lock\<rparr>"

definition ReadWriteLock_read_lock :: "'m ReadWriteLock \<Rightarrow> 'm ReadLock" where
  "ReadWriteLock_read_lock self = ReadLock_new self"

definition ReadWriteLock_write_lock :: "'m ReadWriteLock \<Rightarrow> 'm WriteLock" where
  "ReadWriteLock_write_lock self = WriteLock_new self"

text \<open>The implementations.\<close>

definition ReadLock_impl_Lock :: "'m ReadLock \<Rightarrow> 'm Lock" where
  "ReadLock_impl_Lock self = \<lparr>Lock_lock = ReadLock_lock (RW_read (ReadLock_of self)),
     Lock_try_lock = ReadLock_try_lock (RW_try_read (ReadLock_of self))\<rparr>"

definition WriteLock_impl_Lock :: "'m WriteLock \<Rightarrow> 'm Lock" where
  "WriteLock_impl_Lock self = \<lparr>Lock_lock = WriteLock_lock (RW_write (WriteLock_of self)),
     Lock_try_lock = WriteLock_try_lock (RW_try_write (WriteLock_of self))\<rparr>"

definition Mutex_impl_Lock :: "'t mutex Lock" where
  "Mutex_impl_Lock = \<lparr>Lock_lock = mutex_Lock_lock, Lock_try_lock = mutex_Lock_try_lock\<rparr>"

definition ParkingLotMutex_impl_Lock :: "('m, 't) raw_mutex_ops \<Rightarrow> 'm Lock" where
  "ParkingLotMutex_impl_Lock B = \<lparr>Lock_lock = pl_Lock_lock B, Lock_try_lock = pl_Lock_try_lock B\<rparr>"

definition Ref_impl_Lock :: "'m Lock \<Rightarrow> 'm Lock" where
  "Ref_impl_Lock L = \<lparr>Lock_lock = Ref_Lock_lock (Lock_lock L),
     Lock_try_lock = Ref_Lock_try_lock (Lock_try_lock L)\<rparr>"

definition Arc_impl_Lock :: "'m Lock \<Rightarrow> 'm Lock" where
  "Arc_impl_Lock L = \<lparr>Lock_lock = Arc_Lock_lock (Lock_lock L),
     Lock_try_lock = Arc_Lock_try_lock (Lock_try_lock L)\<rparr>"

definition RwLock_impl_ReadWriteLock :: "'t rwlock ReadWriteLock" where
  "RwLock_impl_ReadWriteLock = \<lparr>RW_read = rwlock_RW_read, RW_write = rwlock_RW_write,
     RW_try_read = rwlock_RW_try_read, RW_try_write = rwlock_RW_try_write\<rparr>"

definition ParkingLotRwLock_impl_ReadWriteLock :: "('m, 't) raw_rwlock_ops \<Rightarrow> 'm ReadWriteLock" where
  "ParkingLotRwLock_impl_ReadWriteLock L = \<lparr>RW_read = pl_RW_read L, RW_write = pl_RW_write L,
     RW_try_read = pl_RW_try_read L, RW_try_write = pl_RW_try_write L\<rparr>"

definition Ref_impl_ReadWriteLock :: "'m ReadWriteLock \<Rightarrow> 'm ReadWriteLock" where
  "Ref_impl_ReadWriteLock L = \<lparr>RW_read = Ref_RW_read (RW_read L), RW_write = Ref_RW_write (RW_write L),
     RW_try_read = Ref_RW_try_read (RW_try_read L), RW_try_write = Ref_RW_try_write (RW_try_write L)\<rparr>"

definition Arc_impl_ReadWriteLock :: "'m ReadWriteLock \<Rightarrow> 'm ReadWriteLock" where
  "Arc_impl_ReadWriteLock L = \<lparr>RW_read = Arc_RW_read (RW_read L), RW_write = Arc_RW_write (RW_write L),
     RW_try_read = Arc_RW_try_read (RW_try_read L), RW_try_write = Arc_RW_try_write (RW_try_write L)\<rparr>"

text \<open>The modes of a reader-writer lock, as clients get them.\<close>

abbreviation read_mode :: "'m ReadWriteLock \<Rightarrow> 'm Lock" where
  "read_mode L \<equiv> ReadLock_impl_Lock (ReadWriteLock_read_lock L)"

abbreviation write_mode :: "'m ReadWriteLock \<Rightarrow> 'm Lock" where
  "write_mode L \<equiv> WriteLock_impl_Lock (ReadWriteLock_write_lock L)"

lemmas lock_trait_defs =
  ReadLock_new_def WriteLock_new_def ReadWriteLock_read_lock_def ReadWriteLock_write_lock_def
  ReadLock_impl_Lock_def WriteLock_impl_Lock_def ReadLock_lock_def ReadLock_try_lock_def
  WriteLock_lock_def WriteLock_try_lock_def

lemmas lock_impl_defs =
  Mutex_impl_Lock_def ParkingLotMutex_impl_Lock_def Ref_impl_Lock_def Arc_impl_Lock_def
  RwLock_impl_ReadWriteLock_def ParkingLotRwLock_impl_ReadWriteLock_def Ref_impl_ReadWriteLock_def
  Arc_impl_ReadWriteLock_def

section \<open>Asynchronous traits\<close>

record ('q, 'm) AsyncLock =
  AsyncLock_lock :: "('q, 'm, guard) access_poll"
  AsyncLock_try_lock :: "'m \<Rightarrow> (TryLockError + guard) \<times> 'm"

record ('q, 'm) AsyncReadWriteLock =
  AsyncRW_read :: "('q, 'm, guard) access_poll"
  AsyncRW_write :: "('q, 'm, guard) access_poll"
  AsyncRW_try_read :: "'m \<Rightarrow> (TryLockError + guard) \<times> 'm"
  AsyncRW_try_write :: "'m \<Rightarrow> (TryLockError + guard) \<times> 'm"

record ('q, 'm) AsyncReadLock = AsyncReadLock_of :: "('q, 'm) AsyncReadWriteLock"
record ('q, 'm) AsyncWriteLock = AsyncWriteLock_of :: "('q, 'm) AsyncReadWriteLock"

definition AsyncReadLock_new :: "('q, 'm) AsyncReadWriteLock \<Rightarrow> ('q, 'm) AsyncReadLock" where
  "AsyncReadLock_new lock = \<lparr>AsyncReadLock_of = lock\<rparr>"

definition AsyncWriteLock_new :: "('q, 'm) AsyncReadWriteLock \<Rightarrow> ('q, 'm) AsyncWriteLock" where
  "AsyncWriteLock_new lock = \<lparr>AsyncWriteLock_of = lock\<rparr>"

definition AsyncReadWriteLock_read_lock :: "('q, 'm) AsyncReadWriteLock \<Rightarrow> ('q, 'm) AsyncReadLock" where
  "AsyncReadWriteLock_read_lock self = AsyncReadLock_new self"

definition AsyncReadWriteLock_write_lock :: "('q, 'm) AsyncReadWriteLock \<Rightarrow> ('q, 'm) AsyncWriteLock" where
  "AsyncReadWriteLock_write_lock self = AsyncWriteLock_new self"

definition AsyncReadLock_impl_AsyncLock :: "('q, 'm) AsyncReadLock \<Rightarrow> ('q, 'm) AsyncLock" where
  "AsyncReadLock_impl_AsyncLock self =
     \<lparr>AsyncLock_lock = AsyncReadLock_lock (AsyncRW_read (AsyncReadLock_of self)),
      AsyncLock_try_lock = AsyncReadLock_try_lock (AsyncRW_try_read (AsyncReadLock_of self))\<rparr>"

definition AsyncWriteLock_impl_AsyncLock :: "('q, 'm) AsyncWriteLock \<Rightarrow> ('q, 'm) AsyncLock" where
  "AsyncWriteLock_impl_AsyncLock self =
     \<lparr>AsyncLock_lock = AsyncWriteLock_lock (AsyncRW_write (AsyncWriteLock_of self)),
      AsyncLock_try_lock = AsyncWriteLock_try_lock (AsyncRW_try_write (AsyncWriteLock_of self))\<rparr>"

definition TokioMutex_impl_AsyncLock :: "('m, 't, 'q) tokio_mutex_ops \<Rightarrow> ('q, 'm) AsyncLock" where
  "TokioMutex_impl_AsyncLock A =
     \<lparr>AsyncLock_lock = async_mutex_lock A, AsyncLock_try_lock = async_mutex_try_lock A\<rparr>"

definition Ref_impl_AsyncLock :: "('q, 'm) AsyncLock \<Rightarrow> ('q, 'm) AsyncLock" where
  "Ref_impl_AsyncLock L = \<lparr>AsyncLock_lock = Ref_AsyncLock_lock (AsyncLock_lock L),
     AsyncLock_try_lock = Ref_AsyncLock_try_lock (AsyncLock_try_lock L)\<rparr>"

definition Arc_impl_AsyncLock :: "('q, 'm) AsyncLock \<Rightarrow> ('q, 'm) AsyncLock" where
  "Arc_impl_AsyncLock L = \<lparr>AsyncLock_lock = Arc_AsyncLock_lock (AsyncLock_lock L),
     AsyncLock_try_lock = Arc_AsyncLock_try_lock (AsyncLock_try_lock L)\<rparr>"

definition TokioRwLock_impl_AsyncReadWriteLock ::
  "('m, 't, 'q) tokio_rwlock_ops \<Rightarrow> ('q, 'm) AsyncReadWriteLock"
where
  "TokioRwLock_impl_AsyncReadWriteLock L =
     \<lparr>AsyncRW_read = async_rwlock_read L, AsyncRW_write = async_rwlock_write L,
      AsyncRW_try_read = async_rwlock_try_read L, AsyncRW_try_write = async_rwlock_try_write L\<rparr>"

definition Ref_impl_AsyncReadWriteLock :: "('q, 'm) AsyncReadWriteLock \<Rightarrow> ('q, 'm) AsyncReadWriteLock" where
  "Ref_impl_AsyncReadWriteLock L =
     \<lparr>AsyncRW_read = Ref_AsyncRW_read (AsyncRW_read L), AsyncRW_write = Ref_AsyncRW_write (AsyncRW_write L),
      AsyncRW_try_read = Ref_AsyncRW_try_read (AsyncRW_try_read L),
      AsyncRW_try_write = Ref_AsyncRW_try_write (AsyncRW_try_write L)\<rparr>"

definition Arc_impl_AsyncReadWriteLock :: "('q, 'm) AsyncReadWriteLock \<Rightarrow> ('q, 'm) AsyncReadWriteLock" where
  "Arc_impl_AsyncReadWriteLock L =
     \<lparr>AsyncRW_read = Arc_AsyncRW_read (AsyncRW_read L), AsyncRW_write = Arc_AsyncRW_write (AsyncRW_write L),
      AsyncRW_try_read = Arc_AsyncRW_try_read (AsyncRW_try_read L),
      AsyncRW_try_write = Arc_AsyncRW_try_write (AsyncRW_try_write L)\<rparr>"

abbreviation async_read_mode :: "('q, 'm) AsyncReadWriteLock \<Rightarrow> ('q, 'm) AsyncLock" where
  "async_read_mode L \<equiv> AsyncReadLock_impl_AsyncLock (AsyncReadWriteLock_read_lock L)"

abbreviation async_write_mode :: "('q, 'm) AsyncReadWriteLock \<Rightarrow> ('q, 'm) AsyncLock" where
  "async_write_mode L \<equiv> AsyncWriteLock_impl_AsyncLock (AsyncReadWriteLock_write_lock L)"

lemmas async_trait_defs =
  AsyncReadLock_new_def AsyncWriteLock_new_def AsyncReadWriteLock_read_lock_def
  AsyncReadWriteLock_write_lock_def AsyncReadLock_impl_AsyncLock_def AsyncWriteLock_impl_AsyncLock_def
  AsyncReadLock_lock_def AsyncReadLock_try_lock_def AsyncWriteLock_lock_def AsyncWriteLock_try_lock_def

lemmas async_impl_defs =
  TokioMutex_impl_AsyncLock_def Ref_impl_AsyncLock_def Arc_impl_AsyncLock_def
  TokioRwLock_impl_AsyncReadWriteLock_def Ref_impl_AsyncReadWriteLock_def Arc_impl_AsyncReadWriteLock_def

end
