(* ===== verification/Lock_Traits_Spec.thy ===== *)
theory Lock_Traits_Spec
  imports Lock_Traits Lock_Properties Async_Lock_Spec
begin

text \<open>
  What the lock traits promise, and that every implementation keeps it: attempts agree with blocking
  acquisitions, and the modes that \<^verbatim>\<open>ExclusiveLock\<close> marks exclude every competing guard.
\<close>

section \<open>Contracts\<close>

text \<open>
  \<^verbatim>\<open>try_lock\<close> says without blocking what \<^verbatim>\<open>lock\<close> would do: a guard where \<^verbatim>\<open>lock\<close> returns one,
  \<^verbatim>\<open>WouldBlock\<close> where it blocks, \<^verbatim>\<open>Poisoned\<close> where it panics.
\<close>

definition try_agrees :: "'m Lock \<Rightarrow> 'm \<Rightarrow> bool" where
  "try_agrees K m = (case Lock_lock K m of
       (Return g, m') \<Rightarrow> Lock_try_lock K m = (Inr g, m')
     | (Panic _, m') \<Rightarrow> m' = m \<and> Lock_try_lock K m = (Inl Poisoned, m)
     | (Blocked, m') \<Rightarrow> m' = m \<and> Lock_try_lock K m = (Inl WouldBlock, m))"

text \<open>\<open>K m\<close> has given out a guard and left the lock in state \<open>m'\<close>.\<close>

definition acquired :: "'m Lock \<Rightarrow> 'm \<Rightarrow> 'm \<Rightarrow> bool" where
  "acquired K m m' \<longleftrightarrow> (\<exists>g. Lock_lock K m = (Return g, m') \<or> Lock_try_lock K m = (Inr g, m'))"

definition excludes :: "'m Lock \<Rightarrow> 'm Lock \<Rightarrow> bool" where
  "excludes K K' \<longleftrightarrow> (\<forall>m m'. acquired K m m' \<longrightarrow>
     Lock_lock K' m' = (Blocked, m') \<and> Lock_try_lock K' m' = (Inl WouldBlock, m'))"

text \<open>A \<^verbatim>\<open>Lock\<close> that is available in some states, keeps this contract and is gone once it is held.\<close>

locale lock_contract =
  fixes K :: "'m Lock" and available :: "'m \<Rightarrow> bool"
  assumes agrees: "try_agrees K m"
    and unavailable: "\<not> available m \<Longrightarrow> Lock_lock K m = (Blocked, m)"
begin

lemma refuses: "\<not> available m \<Longrightarrow> Lock_lock K m = (Blocked, m) \<and> Lock_try_lock K m = (Inl WouldBlock, m)"
  using agrees [of m] unavailable by (simp add: try_agrees_def)

lemma acquired_lock: "acquired K m m' \<longleftrightarrow> (\<exists>g. Lock_lock K m = (Return g, m'))"
  using agrees [of m] by (auto simp: acquired_def try_agrees_def split: prod.splits outcome.splits)

lemma excluded_by:
  assumes "\<And>m m'. acquired K' m m' \<Longrightarrow> \<not> available m'"
  shows "excludes K' K"
  using assms refuses by (simp add: excludes_def)

end

text \<open>The same for a reader-writer lock; its two modes are locks.\<close>

locale read_write_contract =
  fixes L :: "'m ReadWriteLock" and readable writable :: "'m \<Rightarrow> bool"
  assumes read_agrees: "try_agrees (read_mode L) m"
    and write_agrees: "try_agrees (write_mode L) m"
    and unreadable: "\<not> readable m \<Longrightarrow> RW_read L m = (Blocked, m)"
    and unwritable: "\<not> writable m \<Longrightarrow> RW_write L m = (Blocked, m)"
    and writable_readable: "writable m \<Longrightarrow> readable m"
    and reading: "RW_read L m = (Return g, m') \<Longrightarrow> readable m' \<and> \<not> writable m'"
    and readable_returns: "readable m \<Longrightarrow> fst (RW_read L m) \<noteq> Blocked"
    and writing: "RW_write L m = (Return g, m') \<Longrightarrow> \<not> readable m'"

sublocale read_write_contract \<subseteq> reader: lock_contract "read_mode L" readable
  by unfold_locales (rule read_agrees, simp add: unreadable lock_trait_defs)

sublocale read_write_contract \<subseteq> writer: lock_contract "write_mode L" writable
  by unfold_locales (rule write_agrees, simp add: unwritable lock_trait_defs)

context read_write_contract
begin

lemma read_acquired: "acquired (read_mode L) m m' \<Longrightarrow> readable m' \<and> \<not> writable m'"
  using reader.acquired_lock [of m m'] reading by (auto simp: lock_trait_defs)

lemma write_acquired: "acquired (write_mode L) m m' \<Longrightarrow> \<not> readable m' \<and> \<not> writable m'"
  using writer.acquired_lock [of m m'] writing writable_readable by (auto simp: lock_trait_defs)

lemma modes_exclude:
  "excludes (write_mode L) (write_mode L)" "excludes (write_mode L) (read_mode L)"
  "excludes (read_mode L) (write_mode L)"
  using writer.excluded_by reader.excluded_by read_acquired write_acquired by blast+

lemma readers_share:
  assumes "RW_read L m = (Return g, m')"
  shows "\<not> excludes (read_mode L) (read_mode L)"
proof
  assume "excludes (read_mode L) (read_mode L)"
  moreover have "acquired (read_mode L) m m'" using assms by (auto simp: acquired_def lock_trait_defs)
  ultimately have "RW_read L m' = (Blocked, m')" by (auto simp: excludes_def lock_trait_defs)
  moreover have "fst (RW_read L m') \<noteq> Blocked" using reading [OF assms] readable_returns by blast
  ultimately show False by simp
qed

end

lemmas std_lock_impls =
  mutex_Lock_lock_def mutex_Lock_try_lock_def rwlock_RW_read_def rwlock_RW_write_def
  rwlock_RW_try_read_def rwlock_RW_try_write_def std_lock_defs

lemmas pl_lock_impls =
  pl_Lock_lock_def pl_Lock_try_lock_def pl_try_lock_raw_def pl_RW_read_def pl_RW_write_def
  pl_RW_try_read_def pl_RW_try_write_def pl_try_read_raw_def pl_try_write_raw_def ok_or_def

section \<open>The implementations\<close>

interpretation Mutex_Lock: lock_contract Mutex_impl_Lock "\<lambda>m. \<not> mx_locked m"
  by unfold_locales (auto simp: try_agrees_def Mutex_impl_Lock_def std_lock_impls)

interpretation RwLock_RW: read_write_contract RwLock_impl_ReadWriteLock rwlock_read_free rwlock_write_free
  by unfold_locales
    (auto simp: try_agrees_def RwLock_impl_ReadWriteLock_def lock_trait_defs std_lock_impls split: if_splits)

lemma pl_agrees:
  "try_agrees (ParkingLotMutex_impl_Lock B) n"
  "try_agrees (read_mode (ParkingLotRwLock_impl_ReadWriteLock L)) k"
  "try_agrees (write_mode (ParkingLotRwLock_impl_ReadWriteLock L)) k"
  by (simp_all add: try_agrees_def ParkingLotMutex_impl_Lock_def ParkingLotRwLock_impl_ReadWriteLock_def
      lock_trait_defs pl_lock_impls)



lemma pointers_transparent [simp]:
  "Ref_impl_Lock K = K" "Arc_impl_Lock K = K" "Ref_impl_ReadWriteLock L = L" "Arc_impl_ReadWriteLock L = L"
  by (auto simp: lock_impl_defs forwarder_defs intro!: Lock.equality ReadWriteLock.equality)





section \<open>Asynchronous modes\<close>

definition async_acquired :: "('q, 'm) AsyncLock \<Rightarrow> 'm \<Rightarrow> 'm \<Rightarrow> bool" where
  "async_acquired K m m' \<longleftrightarrow>
     (\<exists>f f' g. AsyncLock_lock K f m = (Return (Poll_ready g), f', m')) \<or>
     (\<exists>g. AsyncLock_try_lock K m = (Inr g, m'))"

definition async_excludes :: "('q, 'm) AsyncLock \<Rightarrow> ('q, 'm) AsyncLock \<Rightarrow> bool" where
  "async_excludes K K' \<longleftrightarrow> (\<forall>m m'. async_acquired K m m' \<longrightarrow>
     (\<forall>m''. \<not> async_acquired K' m' m'') \<and> AsyncLock_try_lock K' m' = (Inl WouldBlock, m'))"

lemma poll_access_ready:
  assumes "poll_access acquire (\<lambda>m. (Return Guard, m)) f m = (Return (Poll_ready g), f', m')"
  shows "\<exists>q. acquire q m = (Granted, m')"
  using assms by (auto simp: poll_access_def Let_def split: access.splits prod.splits lock_poll.splits)

lemma async_pointers_transparent [simp]:
  "Ref_impl_AsyncLock K = K" "Arc_impl_AsyncLock K = K"
  "Ref_impl_AsyncReadWriteLock L = L" "Arc_impl_AsyncReadWriteLock L = L"
  by (auto simp: async_impl_defs async_forwarder_defs fun_eq_iff
      intro!: AsyncLock.equality AsyncReadWriteLock.equality)

context tokio_mutex
begin

lemma async_mutex_acquired:
  assumes "async_acquired (TokioMutex_impl_AsyncLock A) m m'"
  shows "\<not> tk_guarded A m \<and> tk_guarded A m'"
  using assms granted try_granted
  by (auto simp: async_acquired_def TokioMutex_impl_AsyncLock_def async_mutex_lock_def async_mutex_try_lock_def
      dest!: poll_access_ready split: prod.splits bool.splits)

lemma async_mutex_try_refuses:
  "tk_guarded A m \<Longrightarrow> AsyncLock_try_lock (TokioMutex_impl_AsyncLock A) m = (Inl WouldBlock, m)"
  using try_granted [of m] try_refused [of m]
  by (auto simp: TokioMutex_impl_AsyncLock_def async_mutex_try_lock_def split: prod.splits bool.splits)

lemma async_mutex_excludes: "async_excludes (TokioMutex_impl_AsyncLock A) (TokioMutex_impl_AsyncLock A)"
  using async_mutex_acquired async_mutex_try_refuses unfolding async_excludes_def by blast

end

context tokio_rwlock
begin

abbreviation rw :: "('q, 'm) AsyncReadWriteLock" where
  "rw \<equiv> TokioRwLock_impl_AsyncReadWriteLock L"

lemma async_read_acquired:
  assumes "async_acquired (async_read_mode rw) m m'"
  shows "\<not> tr_writer L m \<and> tr_readers L m' \<noteq> 0"
  using assms read_granted [of _ m m', OF disjI1] read_granted [of _ m m', OF disjI2]
  by (auto simp: async_acquired_def TokioRwLock_impl_AsyncReadWriteLock_def async_trait_defs async_rwlock_read_def
      async_rwlock_try_read_def tr_view_def dest!: poll_access_ready split: prod.splits bool.splits)

lemma async_write_acquired:
  assumes "async_acquired (async_write_mode rw) m m'"
  shows "\<not> tr_writer L m \<and> tr_readers L m = 0 \<and> tr_writer L m'"
  using assms write_granted [of _ m m', OF disjI1] write_granted [of _ m m', OF disjI2]
  by (auto simp: async_acquired_def TokioRwLock_impl_AsyncReadWriteLock_def async_trait_defs async_rwlock_write_def
      async_rwlock_try_write_def tr_view_def dest!: poll_access_ready split: prod.splits bool.splits)

lemma async_read_refuses:
  "tr_writer L m \<Longrightarrow> AsyncLock_try_lock (async_read_mode rw) m = (Inl WouldBlock, m)"
  using read_granted [of _ m, OF disjI2] read_refused [of m]
  by (auto simp: TokioRwLock_impl_AsyncReadWriteLock_def async_trait_defs async_rwlock_try_read_def
      split: prod.splits bool.splits)

lemma async_write_refuses:
  "tr_writer L m \<or> tr_readers L m \<noteq> 0 \<Longrightarrow> AsyncLock_try_lock (async_write_mode rw) m = (Inl WouldBlock, m)"
  using write_granted [of _ m, OF disjI2] write_refused [of m]
  by (auto simp: TokioRwLock_impl_AsyncReadWriteLock_def async_trait_defs async_rwlock_try_write_def
      split: prod.splits bool.splits)

lemma async_modes_exclude:
  "async_excludes (async_write_mode rw) (async_write_mode rw)"
  "async_excludes (async_write_mode rw) (async_read_mode rw)"
  "async_excludes (async_read_mode rw) (async_write_mode rw)"
  using async_read_acquired async_write_acquired async_read_refuses async_write_refuses
  unfolding async_excludes_def by blast+

end

section \<open>Guarantees\<close>

text \<open>C37: an attempt says without blocking what the blocking call would do. For the standard and the
  parking_lot mutex and for both modes of the two reader-writer locks, in every state: \<^verbatim>\<open>try_lock\<close>
  gives a guard exactly where \<^verbatim>\<open>lock\<close> returns one, with the same effect, \<^verbatim>\<open>WouldBlock\<close> exactly where it
  blocks, and \<^verbatim>\<open>Poisoned\<close> exactly where it panics, and an error leaves the lock as it was.\<close>

theorem try_lock_agrees:
  "try_agrees Mutex_impl_Lock m \<and> try_agrees (ParkingLotMutex_impl_Lock B) n \<and>
   try_agrees (read_mode RwLock_impl_ReadWriteLock) l \<and> try_agrees (write_mode RwLock_impl_ReadWriteLock) l \<and>
   try_agrees (read_mode (ParkingLotRwLock_impl_ReadWriteLock L)) k \<and>
   try_agrees (write_mode (ParkingLotRwLock_impl_ReadWriteLock L)) k"
  by (intro conjI Mutex_Lock.agrees RwLock_RW.read_agrees RwLock_RW.write_agrees pl_agrees)



text \<open>The asynchronous modes: while a guard of a Tokio mutex or of the write mode of a Tokio
  reader-writer lock is alive, no poll and no attempt gives out another one; a reader keeps writers
  out.\<close>

theorem async_lock_modes:
  assumes "tokio_mutex A" and "tokio_rwlock L"
  defines "R \<equiv> TokioRwLock_impl_AsyncReadWriteLock L"
  shows "async_excludes (TokioMutex_impl_AsyncLock A) (Arc_impl_AsyncLock (TokioMutex_impl_AsyncLock A)) \<and>
    async_excludes (async_write_mode R) (async_write_mode (Ref_impl_AsyncReadWriteLock R)) \<and>
    async_excludes (async_write_mode (Arc_impl_AsyncReadWriteLock R)) (async_read_mode R) \<and>
    async_excludes (async_read_mode R) (async_write_mode R)"
  using tokio_mutex.async_mutex_excludes [OF assms(1)] tokio_rwlock.async_modes_exclude [OF assms(2)]
  by (simp add: R_def)

theorem async_lock_modes_witness:
  "async_excludes (async_write_mode (Arc_impl_AsyncReadWriteLock (TokioRwLock_impl_AsyncReadWriteLock std_tokio_rw)))
     (async_read_mode (TokioRwLock_impl_AsyncReadWriteLock (std_tokio_rw :: (nat rwlock, nat, unit) tokio_rwlock_ops)))"
  using async_lock_modes [OF std_tokio_mutex std_tokio_rwlock] by blast

end
