(* ===== verification/Loom_Registry.thy ===== *)
theory Loom_Registry
  imports Waiter_Registry Sync_Locks
begin

text \<open>
  \<^verbatim>\<open>test_util/loom/loom_waiter_registry.rs\<close>: the production registry behind a mutex of the \<^verbatim>\<open>loom\<close>
  model checker, for tests that explore its interleavings. That mutex is a parameter; what is relied
  on is the locale \<open>poison_mutex\<close>. The adapter unwraps, where the production code recovers.
\<close>

record ('m, 't) poison_mutex_ops =
  pm_new :: "'t \<Rightarrow> 'm"
  pm_free :: "'m \<Rightarrow> bool"
  pm_poisoned :: "'m \<Rightarrow> bool"
  pm_lock :: "'m \<Rightarrow> guard lock_result \<times> 'm"
  pm_drop :: "bool \<Rightarrow> 'm \<Rightarrow> 'm"
  pm_data :: "'m \<Rightarrow> 't"
  pm_set :: "'t \<Rightarrow> 'm \<Rightarrow> 'm"

definition pm_view :: "('m, 't) poison_mutex_ops \<Rightarrow> 'm \<Rightarrow> bool \<times> bool \<times> 't" where
  "pm_view M m = (pm_free M m, pm_poisoned M m, pm_data M m)"

locale poison_mutex =
  fixes M :: "('m, 't) poison_mutex_ops"
  assumes new_view: "pm_view M (pm_new M t) = (True, False, t)"
    and lock_result: "fst (pm_lock M m) = (if pm_poisoned M m then Poisoned_guard Guard else Ok Guard)"
    and lock_view: "pm_view M (snd (pm_lock M m)) = (False, pm_poisoned M m, pm_data M m)"
    and drop_view: "pm_view M (pm_drop M panicking m) = (True, pm_poisoned M m \<or> panicking, pm_data M m)"
    and set_view: "pm_view M (pm_set M d m) = (pm_free M m, pm_poisoned M m, d)"

definition std_poison :: "('t mutex, 't) poison_mutex_ops" where
  "std_poison = \<lparr>pm_new = mutex_new, pm_free = (\<lambda>m. \<not> mx_locked m), pm_poisoned = mx_poisoned,
     pm_lock = mutex_lock, pm_drop = mutex_guard_drop, pm_data = mx_data,
     pm_set = (\<lambda>d m. m\<lparr>mx_data := d\<rparr>)\<rparr>"

interpretation std_poison: poison_mutex std_poison
  by unfold_locales
    (simp_all add: std_poison_def pm_view_def mutex_new_def mutex_lock_def mutex_guard_drop_def)

lemma std_poison_mutex: "poison_mutex std_poison"
  by (rule std_poison.poison_mutex_axioms)

section \<open>The adapter\<close>

text \<open>\<^verbatim>\<open>self.inner.lock().unwrap().method()\<close>: the guard is a temporary of the statement.\<close>

definition locked_call ::
  "('m, 't) poison_mutex_ops \<Rightarrow> ('t \<Rightarrow> 'r outcome \<times> 't) \<Rightarrow> 'm \<Rightarrow> 'r outcome \<times> 'm"
where
  "locked_call M method m =
     (if \<not> pm_free M m then (Blocked, m)
      else case pm_lock M m of
             (Ok g, m1) \<Rightarrow> under_guard (pm_data M) (pm_set M) (pm_drop M) method m1
           | (Poisoned_guard g, m1) \<Rightarrow> (Panic unwrap_poisoned, pm_drop M True m1))"

definition LoomWaiterRegistry_new :: "('m, u64 WaiterRegistry) poison_mutex_ops \<Rightarrow> 'm" where
  "LoomWaiterRegistry_new M = pm_new M WaiterRegistry_new"

definition loom_register :: "('m, u64 WaiterRegistry) poison_mutex_ops \<Rightarrow> u64 \<Rightarrow> 'm \<Rightarrow> u64 outcome \<times> 'm" where
  "loom_register M waiter = locked_call M (registry_register waiter)"

definition loom_take_one :: "('m, u64 WaiterRegistry) poison_mutex_ops \<Rightarrow> 'm \<Rightarrow> u64 option outcome \<times> 'm" where
  "loom_take_one M = locked_call M (apfst Return \<circ> registry_take_one)"

definition loom_take_all :: "('m, u64 WaiterRegistry) poison_mutex_ops \<Rightarrow> 'm \<Rightarrow> u64 list outcome \<times> 'm" where
  "loom_take_all M = locked_call M (apfst Return \<circ> registry_take_all)"

definition loom_unregister ::
  "('m, u64 WaiterRegistry) poison_mutex_ops \<Rightarrow> u64 \<Rightarrow> 'm \<Rightarrow> u64 option outcome \<times> 'm"
where
  "loom_unregister M waiter_id = locked_call M (apfst Return \<circ> registry_unregister waiter_id)"

lemmas loom_defs = loom_register_def loom_take_one_def loom_take_all_def loom_unregister_def

context poison_mutex
begin

text \<open>A call on a sound mutex is the method on the data, and a panic in it poisons.\<close>

lemma locked_call_sound:
  assumes "pm_view M m = (True, False, t)" and "fst (method t) \<noteq> Blocked"
  shows "\<exists>m'. locked_call M method m = (fst (method t), m') \<and>
    pm_view M m' = (True, is_panic (fst (method t)), snd (method t))"
proof -
  obtain m1 where lock: "pm_lock M m = (Ok Guard, m1)" and m1: "pm_view M m1 = (False, False, t)"
    using assms(1) lock_result [of m] lock_view [of m] by (cases "pm_lock M m") (auto simp: pm_view_def)
  let ?m' = "pm_drop M (is_panic (fst (method t))) (pm_set M (snd (method t)) m1)"
  have "locked_call M method m = (fst (method t), ?m')"
    using assms lock m1
    by (simp add: locked_call_def under_guard_def pm_view_def Let_def case_prod_beta)
  moreover have "pm_view M ?m' = (True, is_panic (fst (method t)), snd (method t))"
    using m1 drop_view [of "is_panic (fst (method t))" "pm_set M (snd (method t)) m1"]
      set_view [of "snd (method t)" m1]
    by (simp add: pm_view_def)
  ultimately show ?thesis by blast
qed

lemma locked_call_poisoned:
  assumes "pm_view M m = (True, True, t)"
  shows "\<exists>m'. locked_call M method m = (Panic unwrap_poisoned, m') \<and> pm_view M m' = (True, True, t)"
proof -
  obtain m1 where lock: "pm_lock M m = (Poisoned_guard Guard, m1)" and m1: "pm_view M m1 = (False, True, t)"
    using assms lock_result [of m] lock_view [of m] by (cases "pm_lock M m") (auto simp: pm_view_def)
  then show ?thesis
    using assms drop_view [of True m1] by (auto simp: locked_call_def pm_view_def)
qed

end

section \<open>Runs\<close>

text \<open>Any sequence of calls, as the threads of a model run make them one after the other.\<close>

datatype loom_op = Loom_register u64 | Loom_take_one | Loom_take_all | Loom_unregister u64

datatype loom_result = Loom_id u64 | Loom_waiter "u64 option" | Loom_waiters "u64 list"

fun loom_method :: "loom_op \<Rightarrow> u64 WaiterRegistry \<Rightarrow> loom_result outcome \<times> u64 WaiterRegistry" where
  "loom_method (Loom_register x) r = apfst (map_outcome Loom_id) (registry_register x r)"
| "loom_method Loom_take_one r = apfst (Return \<circ> Loom_waiter) (registry_take_one r)"
| "loom_method Loom_take_all r = apfst (Return \<circ> Loom_waiters) (registry_take_all r)"
| "loom_method (Loom_unregister i) r = apfst (Return \<circ> Loom_waiter) (registry_unregister i r)"

fun loom_call ::
  "('m, u64 WaiterRegistry) poison_mutex_ops \<Rightarrow> loom_op \<Rightarrow> 'm \<Rightarrow> loom_result outcome \<times> 'm"
where
  "loom_call M (Loom_register x) m = apfst (map_outcome Loom_id) (loom_register M x m)"
| "loom_call M Loom_take_one m = apfst (map_outcome Loom_waiter) (loom_take_one M m)"
| "loom_call M Loom_take_all m = apfst (map_outcome Loom_waiters) (loom_take_all M m)"
| "loom_call M (Loom_unregister i) m = apfst (map_outcome Loom_waiter) (loom_unregister M i m)"

primrec call_all :: "('o \<Rightarrow> 's \<Rightarrow> 'a \<times> 's) \<Rightarrow> 'o list \<Rightarrow> 's \<Rightarrow> 'a list \<times> 's" where
  "call_all call [] s = ([], s)"
| "call_all call (x # xs) s = (let (a, t) = call x s; (as, u) = call_all call xs t in (a # as, u))"

text \<open>The plain registry behind a panic: from the first panic on every call panics.\<close>

definition loom_spec ::
  "loom_op \<Rightarrow> bool \<times> u64 WaiterRegistry \<Rightarrow> loom_result outcome \<times> (bool \<times> u64 WaiterRegistry)"
where
  "loom_spec x s = (case s of (poisoned, r) \<Rightarrow>
     if poisoned then (Panic unwrap_poisoned, s)
     else let (a, r') = loom_method x r in (a, (is_panic a, r')))"

lemma locked_call_map:
  "apfst (map_outcome f) (locked_call M g m) = locked_call M (apfst (map_outcome f) \<circ> g) m"
proof -
  have "is_panic (map_outcome f r) = is_panic r" for r by (cases r) simp_all
  then show ?thesis
    by (simp add: locked_call_def under_guard_def Let_def case_prod_beta split: lock_result.split)
qed

lemma loom_call_locked: "loom_call M x m = locked_call M (loom_method x) m"
proof -
  have "loom_method (Loom_register y) = apfst (map_outcome Loom_id) \<circ> registry_register y"
    "loom_method Loom_take_one = apfst (map_outcome Loom_waiter) \<circ> (apfst Return \<circ> registry_take_one)"
    "loom_method Loom_take_all = apfst (map_outcome Loom_waiters) \<circ> (apfst Return \<circ> registry_take_all)"
    "loom_method (Loom_unregister i) = apfst (map_outcome Loom_waiter) \<circ> (apfst Return \<circ> registry_unregister i)"
    for y i by (simp_all add: fun_eq_iff apfst_def map_prod_def case_prod_beta)
  then show ?thesis by (cases x) (simp_all add: locked_call_map loom_defs)
qed

lemma loom_method_not_blocked: "fst (loom_method x r) \<noteq> Blocked"
  by (cases x) (simp_all add: registry_register_def Let_def split: option.split prod.split)

lemma loom_call_simulates:
  assumes M: "poison_mutex M" and m: "pm_view M m = (True, poisoned, r)"
  shows "\<exists>m'. loom_call M x m = (fst (loom_spec x (poisoned, r)), m') \<and>
    pm_view M m' = (True, snd (loom_spec x (poisoned, r)))"
proof (cases poisoned)
  case True
  with poison_mutex.locked_call_poisoned [OF M, of m r "loom_method x"] m show ?thesis
    by (simp add: loom_call_locked loom_spec_def)
next
  case False
  with poison_mutex.locked_call_sound [OF M, of m r "loom_method x"] m show ?thesis
    by (simp add: loom_call_locked loom_spec_def loom_method_not_blocked Let_def case_prod_beta)
qed

lemma loom_run_simulates:
  assumes M: "poison_mutex M"
  shows "pm_view M m = (True, s) \<Longrightarrow> fst (call_all (loom_call M) xs m) = fst (call_all loom_spec xs s)"
proof (induction xs arbitrary: m s)
  case (Cons x xs)
  obtain m' where "loom_call M x m = (fst (loom_spec x s), m')" "pm_view M m' = (True, snd (loom_spec x s))"
    using loom_call_simulates [OF M, of m "fst s" "snd s" x] Cons.prems by auto
  then show ?case using Cons.IH [of m' "snd (loom_spec x s)"] by (simp add: Let_def case_prod_beta)
qed simp

section \<open>Guarantee\<close>

text \<open>Any sequence of calls on a fresh loom adapter gives the results of the plain registry, up to
  and including the first panic; from then on every call panics in \<^verbatim>\<open>unwrap\<close> instead of using the
  registry.\<close>

theorem loom_registry_refines:
  assumes "poison_mutex M"
  shows "fst (call_all (loom_call M) xs (LoomWaiterRegistry_new M)) =
    fst (call_all loom_spec xs (False, WaiterRegistry_new))"
  using loom_run_simulates [OF assms] poison_mutex.new_view [OF assms]
  by (simp add: LoomWaiterRegistry_new_def)

theorem loom_registry_refines_witness:
  "fst (call_all (loom_call std_poison) [Loom_register 4, Loom_register 5, Loom_take_one, Loom_take_all]
      (LoomWaiterRegistry_new std_poison)) =
   [Return (Loom_id 1), Return (Loom_id 2), Return (Loom_waiter (Some 4)), Return (Loom_waiters [5])]"
proof -
  have "fst (call_all loom_spec [Loom_register 4, Loom_register 5, Loom_take_one, Loom_take_all]
      (False, WaiterRegistry_new)) =
    [Return (Loom_id 1), Return (Loom_id 2), Return (Loom_waiter (Some 4)), Return (Loom_waiters [5])]"
    by code_simp
  then show ?thesis using loom_registry_refines [OF std_poison_mutex] by metis
qed

end
