(* ===== verification/Default_Timer.thy ===== *)
theory Default_Timer
  imports Std_Monitor Parking_Lot_Monitor
begin

text \<open>
  \<^verbatim>\<open>monitor/internal/default_timer.rs\<close>: the Timer of the monitors made with \<^verbatim>\<open>new\<close>. It lives in a
  process-wide \<^verbatim>\<open>OnceLock\<close>; its constructor belongs to the clock crate and is a parameter that may
  give another Timer each time it runs.
\<close>

definition OnceLock_get_or_init :: "('s \<Rightarrow> 'a \<times> 's) \<Rightarrow> 'a option \<times> 's \<Rightarrow> 'a \<times> 'a option \<times> 's" where
  "OnceLock_get_or_init f cell = (case cell of
       (Some v, s) \<Rightarrow> (v, Some v, s)
     | (None, s) \<Rightarrow> (let (v, s1) = f s in (v, Some v, s1)))"

definition default_timer :: "('s \<Rightarrow> 'timer \<times> 's) \<Rightarrow> 'timer option \<times> 's \<Rightarrow> 'timer \<times> 'timer option \<times> 's" where
  "default_timer StdTimer_new TIMER = OnceLock_get_or_init StdTimer_new TIMER"

text \<open>The two constructors that ask for it.\<close>

definition std_new_default where
  "std_new_default StdTimer_new state TIMER =
     (let (timer, TIMER) = default_timer StdTimer_new TIMER in (std_new timer state, TIMER))"

definition pl_new_default where
  "pl_new_default B StdTimer_new state TIMER =
     (let (timer, TIMER) = default_timer StdTimer_new TIMER in (pl_new B timer state, TIMER))"

text \<open>Once initialised, the cell is never written again.\<close>

lemma default_timer_again:
  assumes "default_timer f cell = (t, cell')"
  shows "default_timer g cell' = (t, cell')"
  using assms by (auto simp: default_timer_def OnceLock_get_or_init_def split: prod.splits option.splits)

text \<open>Monitors of either kind made with \<^verbatim>\<open>new\<close> in one process share one Timer, which is constructed
  once.\<close>

theorem default_timer_shared:
  assumes "std_new_default StdTimer_new x cell = (m, cell1)" and "pl_new_default B StdTimer_new y cell1 = (n, cell2)"
  shows "std_timer m = pl_timer n \<and> cell2 = cell1"
proof -
  obtain t c where t: "default_timer StdTimer_new cell = (t, c)" by (cases "default_timer StdTimer_new cell")
  with default_timer_again [OF t, of StdTimer_new] assms show ?thesis
    by (auto simp: std_new_default_def pl_new_default_def std_new_def pl_new_def std_timer_def
        std_with_timer_def pl_timer_def pl_with_timer_def)
qed

end
