(* ===== verification/Thread_Machine.thy ===== *)
theory Thread_Machine
  imports Blocking_Wait
begin

text \<open>
  The calls of a blocking monitor as threads that make one step at a time. A thread is at a program
  counter; its next step is one operation on the shared monitor, \<open>th_op\<close>, which other threads can
  come before and may keep from being possible, followed by the code up to the next such operation,
  \<open>th_continue\<close>. The caller's closures run in the step that acquired the guard or last used the Timer:
  they touch only the value, which the guard protects.
\<close>

section \<open>Operations\<close>

datatype ('i, 'f) th_operation =
    Op_lock
  | Op_drop bool
  | Op_register
  | Op_unregister BlockingWaiterRegistration
  | Op_wait nat
  | Op_parked nat
  | Op_deadline_after duration
  | Op_now
  | Op_at 'i
  | Op_poll waker 'f
  | Op_select bool
  | Op_wake nat

datatype ('i, 'f, 'e) th_answer =
    Done
  | Registration_is "BlockingWaiterRegistration outcome"
  | Signalled bool
  | Deadline_is "'e + 'i"
  | Now_is 'i
  | Future_is "'e + 'f"
  | Polled "('e + unit) poll" 'f
  | Selected "nat list"

text \<open>The loop condition of \<^verbatim>\<open>BlockingConditionWaiter::wait\<close>: return, or park once more.\<close>

definition wait_or_park :: "nat \<Rightarrow> ('m, 't, 'k) world \<Rightarrow> ('i, 'f, 'e) th_answer \<times> ('m, 't, 'k) world" where
  "wait_or_park a w =
     (if is_signalled (arena w ! a) then (Signalled True, w)
      else (Signalled False, w\<lparr>arena := (arena w)[a := waiter_park (arena w ! a)]\<rparr>))"

text \<open>
  One operation of the calling thread. \<open>None\<close>: the thread cannot make it now, because the monitor is
  taken or because nothing has unparked the thread.
\<close>

fun th_exec ::
  "('m, 't, 'k, 'i, 'f, 'e) platform \<Rightarrow> ('i, 'f) th_operation \<Rightarrow> ('m, 't, 'k) world \<Rightarrow>
   (('i, 'f, 'e) th_answer \<times> ('m, 't, 'k) world) option"
where
  "th_exec P Op_lock w =
     (if bk_free (bk P) (mon_state w)
      then let (g, m) = bk_lock (bk P) (mon_state w) in Some (Done, w\<lparr>mon_state := m, inner := Some g\<rparr>)
      else None)"
| "th_exec P (Op_drop panicking) w =
     Some (Done, w\<lparr>mon_state := bk_drop (bk P) panicking (mon_state w), inner := None\<rparr>)"
| "th_exec P Op_register w = Some (apfst Registration_is (bwr_register w))"
| "th_exec P (Op_unregister g) w = Some (Done, bwr_unregister (waiter_id g) w)"
| "th_exec P (Op_wait a) w = Some (wait_or_park a w)"
| "th_exec P (Op_parked a) w =
     (if waiter_woken (arena w ! a)
      then Some (wait_or_park a (w\<lparr>arena := (arena w)[a := waiter_resume (arena w ! a)]\<rparr>)) else None)"
| "th_exec P (Op_deadline_after d) w = Some (Deadline_is (tm_deadline_after (tm P) d (clock w)), w)"
| "th_exec P Op_now w = Some (Now_is (tm_now (tm P) (clock w)), w)"
| "th_exec P (Op_at i) w =
     (let (r, k) = tm_at (tm P) i (clock w) in Some (Future_is r, w\<lparr>clock := k\<rparr>))"
| "th_exec P (Op_poll wk f) w =
     (let (r, f', k) = tm_poll (tm P) wk f (clock w) in Some (Polled r f', w\<lparr>clock := k\<rparr>))"
| "th_exec P (Op_select all) w =
     (if all then Some (apfst Selected (bwr_take_all w))
      else Some (apfst (\<lambda>x. Selected (case x of None \<Rightarrow> [] | Some a \<Rightarrow> [a])) (bwr_take_one w)))"
| "th_exec P (Op_wake a) w = Some (Done, wake_waiter a w)"

section \<open>Calls\<close>

text \<open>
  Which operation of the monitor is called, with the initial state of the predicate; the closures it is given;
  and whom it notifies after it has released the guard.
\<close>

datatype notify_kind = No_notify | Notify_first | Notify_every

datatype ('p, 'i) th_entry =
    Call_wait_while 'p
  | Call_wait_while_for duration 'p
  | Call_wait_while_with_deadline 'i 'p
  | Call_wait_while_with_total_timeout duration 'p
  | Call_with_write notify_kind
  | Call_notify_one
  | Call_notify_all

record ('t, 'p, 'r, 'i) th_call =
  th_entry :: "('p, 'i) th_entry"
  th_waiting :: "('p, 't) predicate"
  th_action :: "('t, 'r) action"

definition th_notify :: "('t, 'p, 'r, 'i) th_call \<Rightarrow> notify_kind" where
  "th_notify c = (case th_entry c of
       Call_with_write n \<Rightarrow> n
     | Call_notify_one \<Rightarrow> Notify_first
     | Call_notify_all \<Rightarrow> Notify_every
     | _ \<Rightarrow> No_notify)"

datatype ('r, 'e) th_result = Got 'r | Got_timed "'e + 'r WaitTimeoutResult" | Got_nothing

text \<open>What a thread does once it has the guard: check the predicate of \<^verbatim>\<open>wait_while\<close>, read the
  clock for \<^verbatim>\<open>wait_while_for\<close>, check the predicate of \<^verbatim>\<open>wait_while_with_deadline\<close>, or poll the
  Timer after a timed suspension.\<close>

datatype ('i, 'f) after_lock = Check | Budget duration | Deadline 'i | Again nat 'f

datatype ('p, 'r, 'i, 'f, 'e) th_pc =
    Th_deadline duration 'p
  | Th_lock 'p "('i, 'f) after_lock"
  | Th_now duration 'p
  | Th_at 'i bool 'p
  | Th_probe 'f 'p
  | Th_poll 'f 'p
  | Th_register "'f option" 'p
  | Th_poll_registered BlockingWaiterRegistration 'f 'p
  | Th_drop_registration BlockingWaiterRegistration "'e + unit" 'f 'p
  | Th_release BlockingWaiterRegistration "'f option" 'p
  | Th_wait BlockingWaiterRegistration "'f option" 'p
  | Th_parked BlockingWaiterRegistration "'f option" 'p
  | Th_unregister BlockingWaiterRegistration "'f option" 'p
  | Th_poll_again nat 'f 'p
  | Th_write
  | Th_drop "('r, 'e) th_result outcome"
  | Th_select "('r, 'e) th_result"
  | Th_wake "nat list" "('r, 'e) th_result"

fun th_start :: "('p, 'i) th_entry \<Rightarrow> ('p, 'r, 'i, 'f, 'e) th_pc" where
  "th_start (Call_wait_while p) = Th_lock p Check"
| "th_start (Call_wait_while_for t p) = Th_lock p (Budget t)"
| "th_start (Call_wait_while_with_deadline i p) = Th_lock p (Deadline i)"
| "th_start (Call_wait_while_with_total_timeout t p) = Th_deadline t p"
| "th_start (Call_with_write n) = Th_write"
| "th_start Call_notify_one = Th_select Got_nothing"
| "th_start Call_notify_all = Th_select Got_nothing"

datatype ('pc, 'a) th_control = Run 'pc | Finish "'a outcome" | Hang

type_synonym ('t, 'p, 'r, 'i, 'f, 'e) th_next =
  "(('p, 'r, 'i, 'f, 'e) th_pc, ('r, 'e) th_result) th_control \<times> 't option"

fun th_op :: "notify_kind \<Rightarrow> ('p, 'r, 'i, 'f, 'e) th_pc \<Rightarrow> ('i, 'f) th_operation" where
  "th_op n (Th_deadline t p) = Op_deadline_after t"
| "th_op n (Th_lock p next) = Op_lock"
| "th_op n (Th_now t p) = Op_now"
| "th_op n (Th_at i probe p) = Op_at i"
| "th_op n (Th_probe f p) = Op_poll Waker_noop f"
| "th_op n (Th_poll f p) = Op_poll Waker_noop f"
| "th_op n (Th_register x p) = Op_register"
| "th_op n (Th_poll_registered g f p) = Op_poll (Waker_of (waiter g)) f"
| "th_op n (Th_drop_registration g r f p) = Op_unregister g"
| "th_op n (Th_release g x p) = Op_drop False"
| "th_op n (Th_wait g x p) = Op_wait (waiter g)"
| "th_op n (Th_parked g x p) = Op_parked (waiter g)"
| "th_op n (Th_unregister g x p) = Op_unregister g"
| "th_op n (Th_poll_again a f p) = Op_poll (Waker_of a) f"
| "th_op n Th_write = Op_lock"
| "th_op n (Th_drop r) = Op_drop (is_panic r)"
| "th_op n (Th_select x) = Op_select (n = Notify_every)"
| "th_op n (Th_wake as x) = Op_wake (hd as)"

text \<open>The action runs on the value and what it wrote stays; then the guard is to be dropped.\<close>

definition th_act ::
  "('t, 'p, 'r, 'i) th_call \<Rightarrow> ('r \<Rightarrow> ('r, 'e) th_result) \<Rightarrow> 't \<Rightarrow> ('t, 'p, 'r, 'i, 'f, 'e) th_next"
where
  "th_act c wrap d =
     (let (r, d') = th_action c d
      in (case r of Blocked \<Rightarrow> Hang | _ \<Rightarrow> Run (Th_drop (map_outcome wrap r)), Some d'))"

definition th_check ::
  "('t, 'p, 'r, 'i) th_call \<Rightarrow> 'p \<Rightarrow> ('p \<Rightarrow> ('p, 'r, 'i, 'f, 'e) th_pc) \<Rightarrow> ('r \<Rightarrow> ('r, 'e) th_result) \<Rightarrow> 't \<Rightarrow>
   ('t, 'p, 'r, 'i, 'f, 'e) th_next"
where
  "th_check c p blocked wrap d =
     (case th_waiting c p d of
        (Return blocking, p') \<Rightarrow> if blocking then (Run (blocked p'), None) else th_act c wrap d
      | (Panic m, p') \<Rightarrow> (Run (Th_drop (Panic m)), None)
      | (Blocked, p') \<Rightarrow> (Hang, None))"

abbreviation timed :: "('e + 'r WaitTimeoutResult) \<Rightarrow> ('p, 'r, 'i, 'f, 'e) th_pc" where
  "timed r \<equiv> Th_drop (Return (Got_timed r))"

abbreviation got_ready :: "'r \<Rightarrow> ('r, 'e) th_result" where
  "got_ready \<equiv> \<lambda>x. Got_timed (Inr (Ready x))"

text \<open>The end of a turn of \<^verbatim>\<open>wait_while_with_timer_locked\<close>.\<close>

definition th_turn ::
  "('t, 'p, 'r, 'i) th_call \<Rightarrow> 'e + WaitTimeoutStatus \<Rightarrow> 'f \<Rightarrow> 'p \<Rightarrow> 't \<Rightarrow> ('t, 'p, 'r, 'i, 'f, 'e) th_next"
where
  "th_turn c r f p d = (case r of
       Inl e \<Rightarrow> (Run (timed (Inl e)), None)
     | Inr status \<Rightarrow>
         th_check c p (\<lambda>p. if status_is_timed_out status then timed (Inr TimedOut) else Th_poll f p) got_ready d)"

definition th_polled ::
  "('e + unit \<Rightarrow> 'f \<Rightarrow> 'c) \<Rightarrow> ('f \<Rightarrow> 'c) \<Rightarrow> 'c \<Rightarrow> ('i, 'f, 'e) th_answer \<Rightarrow> 'c"
where
  "th_polled ready pending other ans = (case ans of
       Polled (Poll_ready r) f \<Rightarrow> ready r f
     | Polled Poll_pending f \<Rightarrow> pending f
     | _ \<Rightarrow> other)"

fun th_continue ::
  "('m, 't, 'k, 'i, 'f, 'e) platform \<Rightarrow> ('t, 'p, 'r, 'i) th_call \<Rightarrow> ('p, 'r, 'i, 'f, 'e) th_pc \<Rightarrow>
   ('i, 'f, 'e) th_answer \<Rightarrow> 't \<Rightarrow> ('t, 'p, 'r, 'i, 'f, 'e) th_next"
where
  "th_continue P c (Th_deadline t p) ans d = (case ans of
       Deadline_is (Inl e) \<Rightarrow> (Finish (Return (Got_timed (Inl e))), None)
     | Deadline_is (Inr i) \<Rightarrow> (Run (Th_lock p (Deadline i)), None)
     | _ \<Rightarrow> (Hang, None))"
| "th_continue P c (Th_lock p next) ans d = (case next of
       Check \<Rightarrow> th_check c p (Th_register None) Got d
     | Budget t \<Rightarrow> (Run (Th_now t p), None)
     | Deadline i \<Rightarrow> th_check c p (Th_at i True) got_ready d
     | Again a f \<Rightarrow> (Run (Th_poll_again a f p), None))"
| "th_continue P c (Th_now t p) ans d = (case ans of
       Now_is i \<Rightarrow> th_check c p (\<lambda>p.
         if duration_is_zero t then timed (Inr TimedOut)
         else case tm_checked_add (tm P) i t of Inl e \<Rightarrow> timed (Inl e) | Inr i \<Rightarrow> Th_at i False p) got_ready d
     | _ \<Rightarrow> (Hang, None))"
| "th_continue P c (Th_at i probe p) ans d = (case ans of
       Future_is (Inl e) \<Rightarrow> (Run (timed (Inl e)), None)
     | Future_is (Inr f) \<Rightarrow> (Run (if probe then Th_probe f p else Th_poll f p), None)
     | _ \<Rightarrow> (Hang, None))"
| "th_continue P c (Th_probe f p) ans d = th_polled
     (\<lambda>r f. (Run (timed (case r of Inl e \<Rightarrow> Inl e | Inr _ \<Rightarrow> Inr TimedOut)), None))
     (\<lambda>f. (Run (Th_poll f p), None)) (Hang, None) ans"
| "th_continue P c (Th_poll f p) ans d = th_polled
     (\<lambda>r f. th_turn c (timed_out_result r) f p d)
     (\<lambda>f. (Run (Th_register (Some f) p), None)) (Hang, None) ans"
| "th_continue P c (Th_register x p) ans d = (case ans of
       Registration_is (Return g) \<Rightarrow>
         (Run (case x of None \<Rightarrow> Th_release g None p | Some f \<Rightarrow> Th_poll_registered g f p), None)
     | Registration_is (Panic m) \<Rightarrow> (Run (Th_drop (Panic m)), None)
     | _ \<Rightarrow> (Hang, None))"
| "th_continue P c (Th_poll_registered g f p) ans d = th_polled
     (\<lambda>r f. (Run (Th_drop_registration g r f p), None))
     (\<lambda>f. (Run (Th_release g (Some f) p), None)) (Hang, None) ans"
| "th_continue P c (Th_drop_registration g r f p) ans d = th_turn c (timed_out_result r) f p d"
| "th_continue P c (Th_release g x p) ans d = (Run (Th_wait g x p), None)"
| "th_continue P c (Th_wait g x p) ans d = (case ans of
       Signalled b \<Rightarrow> (Run (if b then Th_unregister g x p else Th_parked g x p), None) | _ \<Rightarrow> (Hang, None))"
| "th_continue P c (Th_parked g x p) ans d = (case ans of
       Signalled b \<Rightarrow> (Run (if b then Th_unregister g x p else Th_parked g x p), None) | _ \<Rightarrow> (Hang, None))"
| "th_continue P c (Th_unregister g x p) ans d =
     (Run (Th_lock p (case x of None \<Rightarrow> Check | Some f \<Rightarrow> Again (waiter g) f)), None)"
| "th_continue P c (Th_poll_again a f p) ans d = th_polled
     (\<lambda>r f. th_turn c (timed_out_result r) f p d) (\<lambda>f. th_turn c (Inr Woken) f p d) (Hang, None) ans"
| "th_continue P c Th_write ans d = th_act c Got d"
| "th_continue P c (Th_drop r) ans d = (case r of
       Return x \<Rightarrow> (if th_notify c = No_notify then Finish (Return x) else Run (Th_select x), None)
     | _ \<Rightarrow> (Finish r, None))"
| "th_continue P c (Th_select x) ans d = (case ans of
       Selected as \<Rightarrow> (if as = [] then Finish (Return x) else Run (Th_wake as x), None) | _ \<Rightarrow> (Hang, None))"
| "th_continue P c (Th_wake as x) ans d =
     (if tl as = [] then Finish (Return x) else Run (Th_wake (tl as) x), None)"

definition th_put :: "('m, 't, 'k, 'i, 'f, 'e) platform \<Rightarrow> 't option \<Rightarrow> ('m, 't, 'k) world \<Rightarrow> ('m, 't, 'k) world" where
  "th_put P x w = (case x of None \<Rightarrow> w | Some d \<Rightarrow> w\<lparr>mon_state := bk_deref_mut (bk P) d (mon_state w)\<rparr>)"

type_synonym ('m, 't, 'k, 'p, 'r, 'i, 'f, 'e) th_stepped =
  "((('p, 'r, 'i, 'f, 'e) th_pc, ('r, 'e) th_result) th_control \<times> ('m, 't, 'k) world) option"

definition th_step ::
  "('m, 't, 'k, 'i, 'f, 'e) platform \<Rightarrow> ('t, 'p, 'r, 'i) th_call \<Rightarrow> ('p, 'r, 'i, 'f, 'e) th_pc \<Rightarrow>
   ('m, 't, 'k) world \<Rightarrow> ('m, 't, 'k, 'p, 'r, 'i, 'f, 'e) th_stepped"
where
  "th_step P c pc w = map_option (\<lambda>(ans, w).
       let (next, written) = th_continue P c pc ans (bk_deref (bk P) (mon_state w)) in (next, th_put P written w))
     (th_exec P (th_op (th_notify c) pc) w)"

text \<open>
  A call made alone against a schedule of the others: before every step of the thread they make the
  next scheduled steps; a thread that cannot go on when the schedule is used up stays blocked.
\<close>

partial_function (option) th_drive ::
  "('m, 't, 'k, 'i, 'f, 'e) platform \<Rightarrow> ('t, 'p, 'r, 'i) th_call \<Rightarrow> ('p, 'r, 'i, 'f, 'e) th_pc \<Rightarrow>
   ('m, 't, 'k) world \<Rightarrow> (('r, 'e) th_result outcome \<times> ('m, 't, 'k) world) option"
where
  "th_drive P c pc w = (case th_step P c pc (interfere P w) of
       None \<Rightarrow> if sched w = [] then Some (Blocked, w) else th_drive P c pc (interfere P w)
     | Some (next, w') \<Rightarrow> (case next of
         Run pc' \<Rightarrow> th_drive P c pc' w'
       | Finish r \<Rightarrow> Some (r, w')
       | Hang \<Rightarrow> Some (Blocked, w')))"

section \<open>Calls as a whole\<close>

text \<open>
  The operations of a monitor over the platform \<open>P\<close>, as the calls of one thread; \<open>m\<close> is the message of the
  guard slot.
\<close>

definition then_notify ::
  "('m, 't, 'k, unit) call \<Rightarrow> 'r outcome \<times> ('m, 't, 'k) world \<Rightarrow> 'r outcome \<times> ('m, 't, 'k) world"
where
  "then_notify notify q = and_then q (\<lambda>result w. and_then (notify w) (\<lambda>_ w. (Return result, w)))"

definition blocking_call ::
  "('m, 't, 'k, 'i, 'f, 'e) platform \<Rightarrow> string \<Rightarrow> ('t, 'p, 'r, 'i) th_call \<Rightarrow> ('m, 't, 'k) world \<Rightarrow>
   (('r, 'e) th_result outcome \<times> ('m, 't, 'k) world) option"
where
  "blocking_call P m c w =
     (let lock = acquire_guard (lock_state P);
          written = and_then (lock w) (\<lambda>_ w. end_scope P (run_action P (th_action c) w));
          deadline = (\<lambda>i p w. map_option (apfst (map_outcome Got_timed))
            (wait_while_with_deadline P i lock (th_waiting c) p (th_action c) (wait_with_timer P m (lock_state P)) w))
      in case th_entry c of
           Call_wait_while p \<Rightarrow> map_option (apfst (map_outcome Got))
             (and_then_loop (lock w) (\<lambda>_. wait_while_locked P (th_waiting c) p (th_action c)
               (wait_for_notification P m (lock_state P))))
         | Call_wait_while_for t p \<Rightarrow> map_option (apfst (map_outcome Got_timed))
             (wait_while_for P t lock (th_waiting c) p (th_action c) (wait_with_timer P m (lock_state P)) w)
         | Call_wait_while_with_deadline i p \<Rightarrow> deadline i p w
         | Call_wait_while_with_total_timeout t p \<Rightarrow> (case timer_deadline_after P t w of
               (Inl e, w) \<Rightarrow> Some (Return (Got_timed (Inl e)), w)
             | (Inr i, w) \<Rightarrow> deadline i p w)
         | Call_with_write n \<Rightarrow> Some (apfst (map_outcome Got) (case n of
               No_notify \<Rightarrow> written
             | Notify_first \<Rightarrow> then_notify (bwr_notify_one P) written
             | Notify_every \<Rightarrow> then_notify (bwr_notify_all P) written))
         | Call_notify_one \<Rightarrow> Some (apfst (map_outcome (\<lambda>_. Got_nothing)) (bwr_notify_one P w))
         | Call_notify_all \<Rightarrow> Some (apfst (map_outcome (\<lambda>_. Got_nothing)) (bwr_notify_all P w)))"

end
