(* ===== verification/Thread_Drive.thy ===== *)
theory Thread_Drive
  imports Thread_Machine Std_Monitor Parking_Lot_Monitor
begin

text \<open>
  The step machine of \<^verbatim>\<open>Thread_Machine\<close> against the definitions of \<^verbatim>\<open>Blocking_Wait\<close>: a call run one
  step at a time has the results of the call as a whole, in every world and against every schedule.
\<close>

section \<open>Unfolding a run\<close>

fun th_go ::
  "('m, 't, 'k, 'i, 'f, 'e) platform \<Rightarrow> ('t, 'p, 'r, 'i) th_call \<Rightarrow> ('t, 'p, 'r, 'i, 'f, 'e) th_next \<Rightarrow>
   ('m, 't, 'k) world \<Rightarrow> (('r, 'e) th_result outcome \<times> ('m, 't, 'k) world) option"
where
  "th_go P c (Run pc, x) w = th_drive P c pc (th_put P x w)"
| "th_go P c (Finish r, x) w = Some (r, th_put P x w)"
| "th_go P c (Hang, x) w = Some (Blocked, th_put P x w)"

lemma th_put_simps [simp]:
  "th_put P None w = w"
  "th_put P (Some d) w = w\<lparr>mon_state := bk_deref_mut (bk P) d (mon_state w)\<rparr>"
  by (simp_all add: th_put_def)

lemma drive_exec:
  assumes "th_exec P (th_op (th_notify c) pc) (interfere P w) = Some (ans, v)"
  shows "th_drive P c pc w = th_go P c (th_continue P c pc ans (bk_deref (bk P) (mon_state v))) v"
  by (cases "th_continue P c pc ans (bk_deref (bk P) (mon_state v))" rule: th_go.cases [of "(P, c, _, v)"])
    (simp_all add: th_drive.simps [of P c pc w] th_step_def assms)

lemma drive_refused:
  assumes "th_exec P (th_op (th_notify c) pc) (interfere P w) = None"
  shows "th_drive P c pc w = (if sched w = [] then Some (Blocked, w) else th_drive P c pc (interfere P w))"
  by (simp add: th_drive.simps [of P c pc w] th_step_def assms)

section \<open>Blocking points\<close>

lemma drive_lock_until:
  assumes "th_op (th_notify c) pc = Op_lock"
  shows "th_drive P c pc w =
    (case block_until P (\<lambda>v. bk_free (bk P) (mon_state v)) (interfere P w) of
       (True, v) \<Rightarrow> let (g, m) = bk_lock (bk P) (mon_state v)
         in th_go P c (th_continue P c pc Done (bk_deref (bk P) m)) (v\<lparr>mon_state := m, inner := Some g\<rparr>)
     | (False, v) \<Rightarrow> Some (Blocked, v))"
proof (induction "length (sched w)" arbitrary: w rule: less_induct)
  case less
  let ?v = "interfere P w"
  note block = block_until.simps [of P _ ?v]
  show ?case
  proof (cases "bk_free (bk P) (mon_state ?v)")
    case True
    then show ?thesis
      using assms by (simp add: block split: prod.split) (auto simp: drive_exec)
  next
    case False
    then have refused: "th_exec P (th_op (th_notify c) pc) ?v = None" using assms by simp
    show ?thesis
    proof (cases "sched w")
      case Nil
      then show ?thesis
        using False by (simp add: drive_refused [OF refused] block_until.simps [of P _ w])
    next
      case (Cons as rest)
      then have "length (sched ?v) < length (sched w)" by (simp add: interfere_def)
      from less [OF this] show ?thesis
        using False Cons block_until.simps [of P _ "interfere P ?v"]
        by (simp add: drive_refused [OF refused] block)
          (cases "sched ?v"; simp add: interfere_def [of P ?v])
    qed
  qed
qed

lemma drive_lock:
  assumes "th_op (th_notify c) pc = Op_lock"
  shows "th_drive P c pc w =
    (case acquire_guard (lock_state P) w of
       (Return _, v) \<Rightarrow> th_go P c (th_continue P c pc Done (bk_deref (bk P) (mon_state v))) v
     | (_, v) \<Rightarrow> Some (Blocked, v))"
  unfolding drive_lock_until [OF assms] acquire_guard_def lock_state_def
  by (simp add: Let_def split: prod.split bool.split)

text \<open>What follows a wait on the private latch.\<close>

definition resume_wait ::
  "('m, 't, 'k, 'i, 'f, 'e) platform \<Rightarrow> ('t, 'p, 'r, 'i) th_call \<Rightarrow> ('p, 'r, 'i, 'f, 'e) th_pc \<Rightarrow>
   unit outcome \<times> ('m, 't, 'k) world \<Rightarrow> (('r, 'e) th_result outcome \<times> ('m, 't, 'k) world) option"
where
  "resume_wait P c pc q = (case q of (Return _, v) \<Rightarrow> th_drive P c pc v | (_, v) \<Rightarrow> Some (Blocked, v))"

abbreviation woken_loop ::
  "('m, 't, 'k, 'i, 'f, 'e) platform \<Rightarrow> nat \<Rightarrow> ('m, 't, 'k) world \<Rightarrow> unit outcome \<times> ('m, 't, 'k) world"
where
  "woken_loop P a w \<equiv> (case block_until P (\<lambda>v. waiter_woken (arena v ! a)) w of
     (False, v) \<Rightarrow> (Blocked, v)
   | (True, v) \<Rightarrow> waiter_wait_loop P a (v\<lparr>arena := (arena v)[a := waiter_resume (arena v ! a)]\<rparr>))"

lemma wait_loop_alt:
  assumes "a < length (arena w)"
  shows "waiter_wait_loop P a w =
    (if is_signalled (arena w ! a) then (Return (), w)
     else woken_loop P a (interfere P (w\<lparr>arena := (arena w)[a := waiter_park (arena w ! a)]\<rparr>)))"
proof (cases "sched w")
  case Nil
  then show ?thesis
    using assms block_until.simps [of P _ "w\<lparr>arena := (arena w)[a := waiter_park (arena w ! a)]\<rparr>"]
    by (simp add: waiter_wait_loop.simps [of P a w] Let_def)
next
  case (Cons as rest)
  then show ?thesis
    by (simp add: waiter_wait_loop.simps [of P a w] Let_def interfere_def)
qed

definition th_waits :: "('p, 'r, 'i, 'f, 'e) th_pc \<Rightarrow> nat \<Rightarrow> ('p, 'r, 'i, 'f, 'e) th_pc \<Rightarrow>
    ('p, 'r, 'i, 'f, 'e) th_pc \<Rightarrow> bool" where
  "th_waits pc a parked done \<longleftrightarrow>
     (\<exists>g x p. pc \<in> {Th_wait g x p, Th_parked g x p} \<and> a = waiter g \<and> parked = Th_parked g x p \<and>
        done = Th_unregister g x p)"

lemma drive_wait_or_park:
  assumes parked: "\<And>v. length (sched v) \<le> length (sched w) \<Longrightarrow> a < length (arena v) \<Longrightarrow>
      \<not> waiter_woken (arena v ! a) \<Longrightarrow>
      th_drive P c parked v = resume_wait P c done (woken_loop P a (interfere P v))"
    and "th_waits pc a parked done" and "a < length (arena w)" and "wait_or_park a w = (ans, v)"
  shows "th_go P c (th_continue P c pc ans d) v = resume_wait P c done (waiter_wait_loop P a w)"
proof (cases "is_signalled (arena w ! a)")
  case True
  then show ?thesis
    using assms(2-) by (auto simp: th_waits_def wait_or_park_def wait_loop_alt resume_wait_def)
next
  case False
  then have "v = w\<lparr>arena := (arena w)[a := waiter_park (arena w ! a)]\<rparr>" and "ans = Signalled False"
    using assms(4) by (auto simp: wait_or_park_def)
  then show ?thesis
    using assms(2,3) False parked [of v] by (auto simp: th_waits_def wait_loop_alt)
qed

lemma drive_parked:
  fixes P :: "('m, 't, 'k, 'i, 'f, 'e) platform"
  assumes "waiter g < length (arena w)"
  shows "th_drive P c (Th_parked g x p) w =
    resume_wait P c (Th_unregister g x p) (woken_loop P (waiter g) (interfere P w))"
  using assms
proof (induction "2 * length (sched w) + (if waiter_woken (arena w ! waiter g) then 1 else 0)"
    arbitrary: w rule: less_induct)
  case less
  let ?v = "interfere P w" and ?a = "waiter g"
  note block = block_until.simps [of P _ ?v]
  have len: "?a < length (arena ?v)"
    using env_stable_interfere [OF arena_stable [of P "Suc ?a"], of w] less.prems by simp
  show ?case
  proof (cases "waiter_woken (arena ?v ! ?a)")
    case True
    let ?u = "?v\<lparr>arena := (arena ?v)[?a := waiter_resume (arena ?v ! ?a)]\<rparr>"
    obtain ans :: "('i, 'f, 'e) th_answer" and u where park: "wait_or_park ?a ?u = (ans, u)" by fastforce
    have "th_go P c (th_continue P c (Th_parked g x p) ans (bk_deref (bk P) (mon_state u))) u =
        resume_wait P c (Th_unregister g x p) (waiter_wait_loop P ?a ?u)"
    proof (rule drive_wait_or_park [OF _ _ _ park])
      fix y :: "('m, 't, 'k) world"
      assume y: "length (sched y) \<le> length (sched ?u)" "?a < length (arena y)"
        "\<not> waiter_woken (arena y ! ?a)"
      have "length (sched y) < length (sched w) \<or> sched y = [] \<and> w = ?v"
        using y(1) interfere_sched_less [of w P] by (cases "sched w = []") (auto simp: interfere_def)
      then show "th_drive P c (Th_parked g x p) y =
          resume_wait P c (Th_unregister g x p) (woken_loop P ?a (interfere P y))"
        using y True by (intro less.hyps) (auto split: if_splits)
    qed (use len in \<open>auto simp: th_waits_def\<close>)
    then show ?thesis
      using True park by (subst drive_exec [of P c _ w ans u]) (simp_all add: block)
  next
    case False
    then have refused: "th_exec P (th_op (th_notify c) (Th_parked g x p)) ?v = None" by simp
    show ?thesis
    proof (cases "sched w")
      case Nil
      then show ?thesis
        using False by (simp add: drive_refused [OF refused] block_until.simps [of P _ w] resume_wait_def)
    next
      case (Cons as rest)
      then have "length (sched ?v) < length (sched w)" by (simp add: interfere_def)
      then have "th_drive P c (Th_parked g x p) ?v =
          resume_wait P c (Th_unregister g x p) (woken_loop P ?a (interfere P ?v))"
        using len False by (intro less.hyps) auto
      then show ?thesis
        using False Cons
        by (simp add: drive_refused [OF refused] block)
          (cases "sched ?v"; simp add: interfere_def [of P ?v] block)
    qed
  qed
qed

lemma drive_wait:
  fixes P :: "('m, 't, 'k, 'i, 'f, 'e) platform"
  assumes "waiter g < length (arena w)"
  shows "th_drive P c (Th_wait g x p) w =
    resume_wait P c (Th_unregister g x p) (waiter_wait P (waiter g) w)"
proof -
  let ?v = "interfere P w"
  have len: "waiter g < length (arena ?v)"
    using env_stable_interfere [OF arena_stable [of P "Suc (waiter g)"], of w] assms by simp
  obtain ans :: "('i, 'f, 'e) th_answer" and u where park: "wait_or_park (waiter g) ?v = (ans, u)" by fastforce
  have "th_go P c (th_continue P c (Th_wait g x p) ans (bk_deref (bk P) (mon_state u))) u =
      resume_wait P c (Th_unregister g x p) (waiter_wait_loop P (waiter g) ?v)"
    by (rule drive_wait_or_park [OF _ _ len park, where parked = "Th_parked g x p"])
      (auto simp: drive_parked th_waits_def)
  then show ?thesis
    using park by (subst drive_exec [of P c _ w ans u]) (simp_all add: waiter_wait_def)
qed

section \<open>Closures, destructors and the registry\<close>

lemma end_scope_map: "end_scope P (apfst (map_outcome h) q) = apfst (map_outcome h) (end_scope P q)"
  by (cases q rule: outcome_pair_cases) (simp_all add: end_scope_def)

context state_backend
begin

lemma drive_drop:
  assumes "holds_guard w" and "r \<noteq> Blocked"
  shows "th_drive P c (Th_drop r) w =
    (case r of
       Return x \<Rightarrow> if th_notify c = No_notify then Some (r, drop_guard P False w)
                  else th_drive P c (Th_select x) (drop_guard P False w)
     | _ \<Rightarrow> Some (end_scope P (r, w)))"
  using assms by (subst drive_exec) (auto simp: drop_guard_eq split: outcome.split)

lemma drive_leave:
  assumes "holds_guard w" and "r \<noteq> Blocked" and "th_notify c = No_notify"
  shows "th_drive P c (Th_drop r) w = Some (end_scope P (r, w))"
  using assms by (auto simp: drive_drop split: outcome.split)

lemma drive_act:
  assumes "held P w" and "th_notify c = No_notify"
  shows "th_go P c (th_act c wrap (data P w)) w =
    Some (apfst (map_outcome wrap) (end_scope P (run_action P (th_action c) w)))"
proof -
  obtain r d where f: "th_action c (data P w) = (r, d)" by fastforce
  let ?v = "w\<lparr>mon_state := bk_deref_mut (bk P) d (mon_state w)\<rparr>"
  have run: "run_action P (th_action c) w = (r, ?v)"
    using f by (simp add: run_action_def guard_deref_held [OF assms(1)])
  have "holds_guard ?v" using assms(1) by (simp add: held_def holds_guard_def)
  then show ?thesis
    using f assms(2) unfolding run
    by (cases r) (simp_all add: th_act_def drive_leave)
qed

lemma drive_check:
  assumes "held P w" and "th_notify c = No_notify"
  shows "th_go P c (th_check c p blocked wrap (data P w)) w =
    (case eval_predicate P (th_waiting c) p w of
       (Return blocking, p') \<Rightarrow>
         (if blocking then th_drive P c (blocked p') w
          else Some (apfst (map_outcome wrap) (end_scope P (run_action P (th_action c) w))))
     | (Panic m, p') \<Rightarrow> Some (end_scope P (Panic m, w))
     | (Blocked, p') \<Rightarrow> Some (Blocked, w))"
proof -
  have "holds_guard w" using assms(1) by (simp add: held_def)
  then show ?thesis
    using drive_act [OF assms, of wrap] assms(2)
    by (simp add: th_check_def eval_predicate_held [OF assms(1)] drive_leave split: prod.split outcome.split)
qed

text \<open>From the release of the guard to its reacquisition.\<close>

lemma drive_suspend:
  assumes "enrolled P g w" and "holds_guard w"
  shows "th_drive P c (Th_release g x p) w =
    (case and_then (on_unwind (registration_drop P g) (release_guard P m w))
            (\<lambda>_ w. and_then (waiter_wait P (waiter g) w)
               (\<lambda>_ w. acquire_guard (lock_state P) (registration_drop P g w))) of
       (Return _, v) \<Rightarrow>
         th_go P c (th_continue P c (Th_lock p (case x of None \<Rightarrow> Check | Some f \<Rightarrow> Again (waiter g) f))
           Done (data P v)) v
     | (_, v) \<Rightarrow> Some (Blocked, v))"
proof -
  let ?v = "drop_guard P False w"
  have release: "th_drive P c (Th_release g x p) w = th_drive P c (Th_wait g x p) ?v"
    using assms(2) by (subst drive_exec) (auto simp: drop_guard_eq)
  have len: "waiter g < length (arena ?v)"
    using drop_guard_enrolled(1) [OF assms, of False] by (simp add: enrolled_def attended_def)
  have unregister: "th_drive P c (Th_unregister g x p) v =
      th_drive P c (Th_lock p (case x of None \<Rightarrow> Check | Some f \<Rightarrow> Again (waiter g) f))
        (registration_drop P g v)" for v
    by (subst drive_exec) (auto simp: registration_drop_def)
  obtain r v where wait: "waiter_wait P (waiter g) ?v = (r, v)" by fastforce
  then have "r = Return () \<or> r = Blocked"
    using waiter_wait_spec [OF drop_guard_enrolled [OF assms] wait] by (auto split: if_splits)
  then show ?thesis
    using wait release_enrolled [OF assms, of m]
    by (auto simp: release drive_wait [OF len] resume_wait_def unregister drive_lock split: outcome.split)
qed

lemma drive_register:
  assumes "register_waiter P w = (r, v)"
  shows "th_drive P c (Th_register x p) w = (case r of
      Return g \<Rightarrow> th_drive P c (case x of None \<Rightarrow> Th_release g None p | Some f \<Rightarrow> Th_poll_registered g f p) v
    | Panic m \<Rightarrow> th_drive P c (Th_drop (Panic m)) v
    | Blocked \<Rightarrow> Some (Blocked, v))"
  using assms by (subst drive_exec [of _ _ _ _ "Registration_is r" v])
    (auto simp: register_waiter_def split: outcome.split)

section \<open>The untimed loop\<close>

abbreviation notified :: "string \<Rightarrow> ('m, 't, 'k, unit) call" where
  "notified m \<equiv> wait_for_notification P m (lock_state P)"

lemma drive_wait_for_notification:
  assumes "held P w" and "th_notify c = No_notify"
  shows "th_drive P c (Th_register None p) w =
    (case notified m w of
       (Return _, v) \<Rightarrow> th_go P c (th_check c p (Th_register None) Got (data P v)) v
     | (Panic m, v) \<Rightarrow> Some (end_scope P (Panic m, v))
     | (Blocked, v) \<Rightarrow> Some (Blocked, v))"
proof -
  obtain r v where reg: "register_waiter P w = (r, v)" by fastforce
  from register_spec [OF assms(1) reg] show ?thesis
  proof (elim disjE exE conjE)
    fix g assume g: "r = Return g" "enrolled P g v" "holds_guard v"
    obtain r1 u where susp: "and_then (on_unwind (registration_drop P g) (release_guard P m v))
        (\<lambda>_ w. and_then (waiter_wait P (waiter g) w)
           (\<lambda>_ w. acquire_guard (lock_state P) (registration_drop P g w))) = (r1, u)" by fastforce
    show ?thesis
      using suspend_spec [OF g(2,3) susp] susp
      by (auto simp: drive_register [OF reg] g(1) drive_suspend [OF g(2,3), of _ _ _ m]
          wait_for_notification_def reg)
  next
    assume "r = Panic ''monitor waiter identifiers exhausted''" and "held P v"
    then show ?thesis
      using assms(2) reg by (simp add: drive_register [OF reg] wait_for_notification_def drive_leave held_def)
  qed
qed

lemma drive_wait_while:
  assumes "held P w" and "th_notify c = No_notify"
  shows "th_go P c (th_check c p (Th_register None) Got (data P w)) w =
    map_option (apfst (map_outcome Got)) (wait_while_locked P (th_waiting c) p (th_action c) (notified m) w)"
  using assms(1)
proof (induction "length (sched w)" arbitrary: p w rule: less_induct)
  case less
  note step = wait_while_locked.simps [of P "th_waiting c" p "th_action c" "notified m" w]
  obtain r v where wait: "notified m w = (r, v)" by fastforce
  have more: "th_go P c (th_check c p' (Th_register None) Got (data P v)) v =
      map_option (apfst (map_outcome Got)) (wait_while_locked P (th_waiting c) p' (th_action c) (notified m) v)"
    if "r = Return ()" for p'
    using wait that wait_for_notification_spec [OF less.prems wait]
      wait_for_notification_progress [OF less.prems, of m "()" v] by (intro less.hyps) auto
  show ?case
    unfolding step drive_check [OF less.prems assms(2)] drive_wait_for_notification [OF less.prems assms(2), of _ m]
    using more by (auto simp: wait end_scope_def split: prod.split outcome.split)
qed

end

section \<open>The timed loop\<close>

context state_backend
begin

lemma drive_poll:
  assumes "poll_future P wk f w = (r, f', v)" and "th_op (th_notify c) pc = Op_poll wk f"
  shows "th_drive P c pc w = th_go P c (th_continue P c pc (Polled r f') (data P v)) v"
  using assms by (intro drive_exec) (auto simp: poll_future_def Let_def split: prod.splits)

abbreviation timed_wait :: "string \<Rightarrow> 'f \<Rightarrow> ('m, 't, 'k, ('e + WaitTimeoutStatus) \<times> 'f) call" where
  "timed_wait m \<equiv> wait_with_timer P m (lock_state P)"

definition turn_of ::
  "('t, 'p, 'r, 'i) th_call \<Rightarrow> 'p \<Rightarrow> (('e + WaitTimeoutStatus) \<times> 'f) outcome \<times> ('m, 't, 'k) world \<Rightarrow>
   (('r, 'e) th_result outcome \<times> ('m, 't, 'k) world) option"
where
  "turn_of c p q = (case q of
       (Return (res, f'), v) \<Rightarrow> th_go P c (th_turn c res f' p (data P v)) v
     | (Panic m, v) \<Rightarrow> Some (end_scope P (Panic m, v))
     | (Blocked, v) \<Rightarrow> Some (Blocked, v))"

lemma turn_of_simps [simp]:
  "turn_of c p (Return y, v) = th_go P c (th_turn c (fst y) (snd y) p (data P v)) v"
  "turn_of c p (Panic m, v) = Some (end_scope P (Panic m, v))"
  "turn_of c p (Blocked, v) = Some (Blocked, v)"
  by (simp_all add: turn_of_def split: prod.split)

lemma drive_timed_tail:
  assumes "enrolled P g w" and "holds_guard w"
  shows "th_drive P c (Th_release g (Some f) p) w = turn_of c p (timed_tail m g f w)"
proof -
  obtain r v where susp: "and_then (on_unwind (registration_drop P g) (release_guard P m w))
      (\<lambda>_ w. and_then (waiter_wait P (waiter g) w)
         (\<lambda>_ w. acquire_guard (lock_state P) (registration_drop P g w))) = (r, v)" by fastforce
  obtain pr f' u where poll: "poll_future P (Waker_of (waiter g)) f v = (pr, f', u)"
    by (cases "poll_future P (Waker_of (waiter g)) f v")
  have "th_drive P c (Th_poll_again (waiter g) f p) v =
      th_go P c (th_turn c (case pr of Poll_ready r \<Rightarrow> timed_out_result r | Poll_pending \<Rightarrow> Inr Woken) f' p (data P u)) u"
    by (subst drive_poll [OF poll]) (simp_all add: th_polled_def split: poll.split)
  then show ?thesis
    using suspend_spec [OF assms susp] susp poll
    by (auto simp: drive_suspend [OF assms, of _ _ _ m] timed_tail_def poll_timer_def split: poll.split)
qed

lemma drive_wait_with_timer:
  assumes "held P w" and "th_notify c = No_notify"
  shows "th_drive P c (Th_poll f p) w = turn_of c p (timed_wait m f w)"
proof -
  obtain p1 f1 w1 where poll1: "poll_future P Waker_noop f w = (p1, f1, w1)"
    by (cases "poll_future P Waker_noop f w")
  have h1: "held P w1" using poll_future_spec(1) [OF poll1] assms(1) .
  show ?thesis
  proof (cases p1)
    case (Poll_ready result)
    then show ?thesis
      by (subst drive_poll [OF poll1])
        (simp_all add: th_polled_def wait_with_timer_alt poll_timer_without_waiter_def poll1)
  next
    case Poll_pending
    then have first: "th_drive P c (Th_poll f p) w = th_drive P c (Th_register (Some f1) p) w1"
      by (subst drive_poll [OF poll1]) (simp_all add: th_polled_def)
    obtain r2 w2 where reg: "register_waiter P w1 = (r2, w2)" by fastforce
    from register_spec [OF h1 reg] show ?thesis
    proof (elim disjE exE conjE)
      assume "r2 = Panic ''monitor waiter identifiers exhausted''" and "held P w2"
      then show ?thesis
        using assms(2) reg Poll_pending
        by (simp add: first drive_register [OF reg] wait_with_timer_alt poll_timer_without_waiter_def poll1
            drive_leave held_def)
    next
      fix g assume g: "r2 = Return g" "enrolled P g w2" "holds_guard w2"
      obtain p3 f3 w3 where poll3: "poll_future P (Waker_of (waiter g)) f1 w2 = (p3, f3, w3)"
        by (cases "poll_future P (Waker_of (waiter g)) f1 w2")
      have e3: "enrolled P g w3" "holds_guard w3"
        using poll_future_spec(3,4) [OF poll3] g(2,3) by (simp_all add: holds_guard_def)
      have "th_drive P c (Th_drop_registration g r f3 p) w3 =
          th_go P c (th_turn c (timed_out_result r) f3 p (data P (registration_drop P g w3))) (registration_drop P g w3)"
        for r by (subst drive_exec) (auto simp: registration_drop_def)
      then have "th_drive P c (Th_poll_registered g f1 p) w2 = turn_of c p (case p3 of
            Poll_ready result \<Rightarrow> (Return (timed_out_result result, f3), registration_drop P g w3)
          | Poll_pending \<Rightarrow> timed_tail m g f3 w3)"
        by (subst drive_poll [OF poll3])
          (simp_all add: th_polled_def drive_timed_tail [OF e3, of _ _ _ m] split: poll.split)
      then show ?thesis
        using reg Poll_pending g(1) poll3
        by (simp add: first drive_register [OF reg] wait_with_timer_alt poll_timer_without_waiter_def poll1
            poll_timer_def split: poll.split)
    qed
  qed
qed

lemma drive_timed_check:
  assumes "held P w" and "th_notify c = No_notify"
  shows "th_go P c (th_check c p blocked got_ready (data P w)) w =
    (case eval_predicate P (th_waiting c) p w of
       (Return blocking, p') \<Rightarrow>
         (if \<not> blocking
          then map_option (apfst (map_outcome Got_timed)) (Some (end_scope P
            (apfst (map_outcome (\<lambda>r. Inr (Ready r))) (run_action P (th_action c) w))))
          else th_drive P c (blocked p') w)
     | (Panic m, p') \<Rightarrow> Some (end_scope P (Panic m, w))
     | (Blocked, p') \<Rightarrow> Some (Blocked, w))"
  unfolding drive_check [OF assms]
  by (auto simp: end_scope_map outcome.map_comp comp_def split: prod.split outcome.split)
     (cases "end_scope P (run_action P (th_action c) w)" rule: outcome_pair_cases; simp)+

lemma drive_with_timer:
  assumes "held P w" and "th_notify c = No_notify"
  shows "th_drive P c (Th_poll f p) w =
    map_option (apfst (map_outcome Got_timed))
      (wait_while_with_timer_locked P f (th_waiting c) p (th_action c) (timed_wait m) w)"
  using assms(1)
proof (induction "length (sched w)" arbitrary: p f w rule: less_induct)
  case less
  note step = wait_while_with_timer_locked.simps [of P f "th_waiting c" p "th_action c" "timed_wait m" w]
  obtain r v where wait: "timed_wait m f w = (r, v)" by fastforce
  note spec = wait_with_timer_spec [OF less.prems wait]
  show ?case
  proof (cases r)
    case (Return y)
    then obtain res f' where y: "y = (res, f')" and h: "held P v" and
      dec: "res = Inr Woken \<longrightarrow> length (sched v) < length (sched w)" using spec by auto
    have more: "th_drive P c (Th_poll f' p') v =
        map_option (apfst (map_outcome Got_timed))
          (wait_while_with_timer_locked P f' (th_waiting c) p' (th_action c) (timed_wait m) v)"
      if "res = Inr Woken" for p'
      using that dec h by (intro less.hyps) auto
    have hg: "holds_guard v" using h by (simp add: held_def)
    show ?thesis
    proof (cases res)
      case (Inl e)
      then show ?thesis
        using hg assms(2)
        by (simp add: step wait drive_wait_with_timer [OF less.prems assms(2), of _ _ m] Return y th_turn_def
            drive_leave)
    next
      case (Inr status)
      then show ?thesis
        using hg assms(2) more
        unfolding step wait drive_wait_with_timer [OF less.prems assms(2), of _ _ m] Return y
        by (cases status)
         (auto simp: th_turn_def drive_timed_check [OF h] drive_leave split: prod.split outcome.split)
    qed
  next
    case (Panic n)
    then show ?thesis
      by (simp add: step wait drive_wait_with_timer [OF less.prems assms(2), of _ _ m] end_scope_def)
  next
    case Blocked
    then show ?thesis
      by (simp add: step wait drive_wait_with_timer [OF less.prems assms(2), of _ _ m])
  qed
qed

end

section \<open>Calls\<close>

lemma drive_wake: "as \<noteq> [] \<Longrightarrow> th_drive P c (Th_wake as x) w = Some (Return x, wake_each P as w)"
  by (induction as arbitrary: w) (subst drive_exec, auto)+

lemma drive_select:
  assumes "th_notify c \<noteq> No_notify"
  shows "th_drive P c (Th_select x) w =
    Some (Return x, snd (if th_notify c = Notify_every then bwr_notify_all P w else bwr_notify_one P w))"
proof (cases "th_notify c = Notify_every")
  case True
  obtain as v where "bwr_take_all (interfere P w) = (as, v)" by fastforce
  then show ?thesis
    using True by (subst drive_exec [of _ _ _ _ "Selected as" v])
      (auto simp: bwr_notify_all_def drive_wake)
next
  case False
  obtain y v where take: "bwr_take_one (interfere P w) = (y, v)" by fastforce
  then show ?thesis
    using False by (subst drive_exec [of _ _ _ _ "Selected (case y of None \<Rightarrow> [] | Some a \<Rightarrow> [a])" v])
      (auto simp: bwr_notify_one_def drive_wake split: option.split)
qed

context state_backend
begin

lemma drive_write:
  assumes "held P w"
  shows "th_go P c (th_act c Got (data P w)) w =
    Some (apfst (map_outcome Got)
      (let q = end_scope P (run_action P (th_action c) w) in case th_notify c of
         No_notify \<Rightarrow> q
       | Notify_first \<Rightarrow> then_notify (bwr_notify_one P) q
       | Notify_every \<Rightarrow> then_notify (bwr_notify_all P) q))"
proof -
  obtain r d where f: "th_action c (data P w) = (r, d)" by fastforce
  let ?v = "w\<lparr>mon_state := bk_deref_mut (bk P) d (mon_state w)\<rparr>"
  have run: "run_action P (th_action c) w = (r, ?v)"
    using f by (simp add: run_action_def guard_deref_held [OF assms(1)])
  have "holds_guard ?v" using assms(1) by (simp add: held_def holds_guard_def)
  then show ?thesis
    using f unfolding run
    by (cases r; cases "th_notify c")
      (simp_all add: th_act_def drive_drop drive_select then_notify_def bwr_notify_one_def bwr_notify_all_def
        split: prod.split option.split)
qed

lemma drive_entry_lock:
  assumes "idle P w" and "th_op (th_notify c) pc = Op_lock"
    and "\<And>v. held P v \<Longrightarrow> th_go P c (th_continue P c pc Done (data P v)) v =
      map_option (apfst (map_outcome h)) (body v)"
  shows "th_drive P c pc w =
    map_option (apfst (map_outcome h)) (and_then_loop (acquire_guard (lock_state P) w) (\<lambda>_. body))"
proof -
  obtain r v where acq: "acquire_guard (lock_state P) w = (r, v)" by fastforce
  then show ?thesis
    using acquire_spec [OF assms(1) acq] assms(3) by (auto simp: drive_lock [OF assms(2)])
qed

lemma drive_enter_loop:
  assumes "held P w" and "th_notify c = No_notify"
  shows "th_drive P c (Th_at i False p) w = map_option (apfst (map_outcome Got_timed))
      (case timer_at P i w of
         (Inl e, w) \<Rightarrow> Some (end_scope P (Return (Inl e), w))
       | (Inr f, w) \<Rightarrow> wait_while_with_timer_locked P f (th_waiting c) p (th_action c) (timed_wait m) w)"
    and "th_drive P c (Th_at i True p) w = map_option (apfst (map_outcome Got_timed))
      (case timer_at P i w of
         (Inl e, w) \<Rightarrow> Some (end_scope P (Return (Inl e), w))
       | (Inr f, w) \<Rightarrow> (case poll_timer_without_waiter P f w of
            (Poll_ready (Inl e), f, w) \<Rightarrow> Some (end_scope P (Return (Inl e), w))
          | (Poll_ready (Inr _), f, w) \<Rightarrow> Some (end_scope P (Return (Inr TimedOut), w))
          | (Poll_pending, f, w) \<Rightarrow>
              wait_while_with_timer_locked P f (th_waiting c) p (th_action c) (timed_wait m) w))"
proof -
  obtain y v where at: "timer_at P i w = (y, v)" by fastforce
  then have v: "held P v" using timer_calls_held(2) [OF assms(1) at] by simp
  then have hg: "holds_guard v" by (simp add: held_def)
  have first: "th_drive P c (Th_at i probe p) w = th_go P c (th_continue P c (Th_at i probe p) (Future_is y) (data P v)) v"
    for probe using at by (intro drive_exec) (auto simp: timer_at_def Let_def split: prod.splits)
  show "th_drive P c (Th_at i False p) w = map_option (apfst (map_outcome Got_timed))
      (case timer_at P i w of
         (Inl e, w) \<Rightarrow> Some (end_scope P (Return (Inl e), w))
       | (Inr f, w) \<Rightarrow> wait_while_with_timer_locked P f (th_waiting c) p (th_action c) (timed_wait m) w)"
    using hg assms(2) by (simp add: first at drive_leave drive_with_timer [OF v assms(2), of _ _ m] split: sum.split)
  have probe: "th_drive P c (Th_probe f p) v = map_option (apfst (map_outcome Got_timed))
      (case poll_timer_without_waiter P f v of
            (Poll_ready (Inl e), f, w) \<Rightarrow> Some (end_scope P (Return (Inl e), w))
          | (Poll_ready (Inr _), f, w) \<Rightarrow> Some (end_scope P (Return (Inr TimedOut), w))
          | (Poll_pending, f, w) \<Rightarrow>
              wait_while_with_timer_locked P f (th_waiting c) p (th_action c) (timed_wait m) w)" for f
  proof -
    obtain pr f' u where poll: "poll_future P Waker_noop f v = (pr, f', u)"
      by (cases "poll_future P Waker_noop f v")
    then have u: "held P u" using poll_future_spec(1) [OF poll] v by simp
    then have "holds_guard u" by (simp add: held_def)
    then show ?thesis
      using assms(2) by (subst drive_poll [OF poll])
        (simp_all add: th_polled_def poll_timer_without_waiter_def poll drive_leave
          drive_with_timer [OF u assms(2), of _ _ m] split: poll.split sum.split)
  qed
  show "th_drive P c (Th_at i True p) w = map_option (apfst (map_outcome Got_timed))
      (case timer_at P i w of
         (Inl e, w) \<Rightarrow> Some (end_scope P (Return (Inl e), w))
       | (Inr f, w) \<Rightarrow> (case poll_timer_without_waiter P f w of
            (Poll_ready (Inl e), f, w) \<Rightarrow> Some (end_scope P (Return (Inl e), w))
          | (Poll_ready (Inr _), f, w) \<Rightarrow> Some (end_scope P (Return (Inr TimedOut), w))
          | (Poll_pending, f, w) \<Rightarrow>
              wait_while_with_timer_locked P f (th_waiting c) p (th_action c) (timed_wait m) w))"
    using hg assms(2) by (simp add: first at drive_leave probe split: sum.split)
qed

lemma drive_with_deadline:
  assumes "idle P w" and "th_notify c = No_notify"
  shows "th_drive P c (Th_lock p (Deadline i)) w = map_option (apfst (map_outcome Got_timed))
    (wait_while_with_deadline P i (acquire_guard (lock_state P)) (th_waiting c) p (th_action c) (timed_wait m) w)"
  unfolding wait_while_with_deadline_def
proof (rule drive_entry_lock [OF assms(1)])
  fix v assume v: "held P v"
  show "th_go P c (th_continue P c (Th_lock p (Deadline i)) Done (data P v)) v =
      map_option (apfst (map_outcome Got_timed)) (case eval_predicate P (th_waiting c) p v of
             (Panic m, p) \<Rightarrow> Some (end_scope P (Panic m, v))
           | (Blocked, p) \<Rightarrow> Some (Blocked, v)
           | (Return blocking, p) \<Rightarrow>
               (if \<not> blocking
                then Some (end_scope P (apfst (map_outcome (\<lambda>r. Inr (Ready r))) (run_action P (th_action c) v)))
                else case timer_at P i v of
                  (Inl e, w) \<Rightarrow> Some (end_scope P (Return (Inl e), w))
                | (Inr future, w) \<Rightarrow>
                    (case poll_timer_without_waiter P future w of
                       (Poll_ready (Inl e), future, w) \<Rightarrow> Some (end_scope P (Return (Inl e), w))
                     | (Poll_ready (Inr _), future, w) \<Rightarrow>
                         Some (end_scope P (Return (Inr TimedOut), w))
                     | (Poll_pending, future, w) \<Rightarrow>
                         wait_while_with_timer_locked P future (th_waiting c) p (th_action c) (timed_wait m) w)))"
    using drive_enter_loop(2) [OF v assms(2), where m = m]
    by (simp add: drive_timed_check [OF v assms(2)] split: prod.split outcome.split)
qed simp

lemma drive_with_budget:
  assumes "idle P w" and "th_notify c = No_notify"
  shows "th_drive P c (Th_lock p (Budget t)) w = map_option (apfst (map_outcome Got_timed))
    (wait_while_for P t (acquire_guard (lock_state P)) (th_waiting c) p (th_action c) (timed_wait m) w)"
  unfolding wait_while_for_def
proof (rule drive_entry_lock [OF assms(1)])
  fix v assume v: "held P v"
  obtain now u where clock: "timer_now P v = (now, u)" by fastforce
  then have u: "held P u" using timer_calls_held(1) [OF v clock] by simp
  then have hg: "holds_guard u" by (simp add: held_def)
  have "th_go P c (th_continue P c (Th_lock p (Budget t)) Done (data P v)) v =
      th_go P c (th_continue P c (Th_now t p) (Now_is now) (data P u)) u"
    using clock drive_exec [of P c "Th_now t p" v "Now_is now" u] by (auto simp: timer_now_def Let_def)
  then show "th_go P c (th_continue P c (Th_lock p (Budget t)) Done (data P v)) v =
      map_option (apfst (map_outcome Got_timed)) (let (started_at, w) = timer_now P v in
           case eval_predicate P (th_waiting c) p w of
             (Panic m, p) \<Rightarrow> Some (end_scope P (Panic m, w))
           | (Blocked, p) \<Rightarrow> Some (Blocked, w)
           | (Return blocking, p) \<Rightarrow>
               (if \<not> blocking
                then Some (end_scope P (apfst (map_outcome (\<lambda>r. Inr (Ready r))) (run_action P (th_action c) w)))
                else if duration_is_zero t
                then Some (end_scope P (Return (Inr TimedOut), w))
                else case tm_checked_add (tm P) started_at t of
                       Inl e \<Rightarrow> Some (end_scope P (Return (Inl e), w))
                     | Inr deadline \<Rightarrow>
                         (case timer_at P deadline w of
                            (Inl e, w) \<Rightarrow> Some (end_scope P (Return (Inl e), w))
                          | (Inr future, w) \<Rightarrow>
                              wait_while_with_timer_locked P future (th_waiting c) p (th_action c) (timed_wait m) w)))"
    using drive_enter_loop(1) [OF u assms(2), where m = m] hg assms(2)
    by (simp add: clock drive_timed_check [OF u assms(2)] drive_leave split: prod.split outcome.split sum.split)
qed simp

text \<open>Running a call one step at a time is the call.\<close>

lemma drive_call:
  assumes "idle P w"
  shows "th_drive P c (th_start (th_entry c)) w = blocking_call P m c w"
proof (cases "th_entry c")
  case (Call_wait_while p)
  then show ?thesis
    using drive_entry_lock [OF assms, of c "Th_lock p Check" Got
        "wait_while_locked P (th_waiting c) p (th_action c) (notified m)"]
    by (simp add: blocking_call_def drive_wait_while [where m = m] th_notify_def)
next
  case (Call_wait_while_for t p)
  then show ?thesis
    using assms by (simp add: blocking_call_def drive_with_budget [where m = m] th_notify_def)
next
  case (Call_wait_while_with_deadline i p)
  then show ?thesis
    using assms by (simp add: blocking_call_def drive_with_deadline [where m = m] th_notify_def)
next
  case (Call_wait_while_with_total_timeout t p)
  obtain y v where t: "timer_deadline_after P t w = (y, v)" by fastforce
  then have "th_drive P c (Th_deadline t p) w =
      th_go P c (th_continue P c (Th_deadline t p) (Deadline_is y) (data P v)) v" and v: "idle P v"
    using idle_interfere [OF assms]
    by (auto simp: timer_deadline_after_def Let_def drive_exec [of P c "Th_deadline t p" w])
  then show ?thesis
    using Call_wait_while_with_total_timeout t
    by (simp add: blocking_call_def drive_with_deadline [OF v, where m = m] th_notify_def split: sum.split)
next
  case (Call_with_write n)
  obtain r v where acq: "acquire_guard (lock_state P) w = (r, v)" by fastforce
  have "th_drive P c Th_write w = (case acquire_guard (lock_state P) w of
       (Return _, v) \<Rightarrow> th_go P c (th_act c Got (data P v)) v | (_, v) \<Rightarrow> Some (Blocked, v))"
    by (simp add: drive_lock split: prod.split outcome.split)
  then show ?thesis
    using Call_with_write acquire_spec [OF assms acq] acq
    by (auto simp: blocking_call_def drive_write th_notify_def then_notify_def Let_def split: notify_kind.split)
next
  case Call_notify_one
  then show ?thesis
    by (simp add: blocking_call_def drive_select th_notify_def bwr_notify_one_def split: prod.split option.split)
next
  case Call_notify_all
  then show ?thesis
    by (simp add: blocking_call_def drive_select th_notify_def bwr_notify_all_def split: prod.split)
qed

end

end
