(* ===== verification/Blocking_System.thy ===== *)
theory Blocking_System
  imports Thread_Drive "HOL-Library.Multiset"
begin

text \<open>
  Any number of threads that make calls on one blocking monitor. The shared state is that of the monitor; every
  thread is at rest or at a program counter of a call, and one event is a call, one step of one thread, or something no
  thread of the program does: a spurious unpark, progress of the Timer, another user of the Timer.
\<close>

section \<open>The system\<close>

datatype ('t, 'p, 'r, 'i, 'f, 'e) th_slot =
    Resting "(('t, 'p, 'r, 'i) th_call \<times> ('r, 'e) th_result outcome) option"
  | Busy "('t, 'p, 'r, 'i) th_call" "('p, 'r, 'i, 'f, 'e) th_pc"
  | Hung "('t, 'p, 'r, 'i) th_call"

record ('m, 't, 'k, 'p, 'r, 'i, 'f, 'e) bsys =
  bs_state :: 'm
  bs_waiters :: "nat WaiterRegistry mutex"
  bs_arena :: "BlockingConditionWaiter list"
  bs_clock :: 'k
  bs_slots :: "('t, 'p, 'r, 'i, 'f, 'e) th_slot list"

definition bs_start :: "'m \<Rightarrow> 'k \<Rightarrow> nat \<Rightarrow> ('m, 't, 'k, 'p, 'r, 'i, 'f, 'e) bsys" where
  "bs_start m k n = \<lparr>bs_state = m, bs_waiters = BlockingWaiterRegistry_new, bs_arena = [],
     bs_clock = k, bs_slots = replicate n (Resting None)\<rparr>"

text \<open>The monitor as a step of one thread finds it, and the system after the step.\<close>

definition focus :: "('m, 't, 'k, 'p, 'r, 'i, 'f, 'e) bsys \<Rightarrow> ('m, 't, 'k) world" where
  "focus s = \<lparr>mon_state = bs_state s, mon_waiters = bs_waiters s, arena = bs_arena s, inner = None,
     in_flight = [], env_holds = False, env_regs = [], clock = bs_clock s, sched = []\<rparr>"

definition unfocus ::
  "('m, 't, 'k) world \<Rightarrow> ('t, 'p, 'r, 'i, 'f, 'e) th_slot list \<Rightarrow> ('m, 't, 'k, 'p, 'r, 'i, 'f, 'e) bsys"
where
  "unfocus w xs = \<lparr>bs_state = mon_state w, bs_waiters = mon_waiters w, bs_arena = arena w,
     bs_clock = clock w, bs_slots = xs\<rparr>"

definition slot_at :: "('m, 't, 'k, 'p, 'r, 'i, 'f, 'e) bsys \<Rightarrow> nat \<Rightarrow> ('t, 'p, 'r, 'i, 'f, 'e) th_slot" where
  "slot_at s i = (if i < length (bs_slots s) then bs_slots s ! i else Resting None)"

fun th_after ::
  "('t, 'p, 'r, 'i) th_call \<Rightarrow> (('p, 'r, 'i, 'f, 'e) th_pc, ('r, 'e) th_result) th_control \<Rightarrow>
   ('t, 'p, 'r, 'i, 'f, 'e) th_slot"
where
  "th_after c (Run pc) = Busy c pc"
| "th_after c (Finish r) = Resting (Some (c, r))"
| "th_after c Hang = Hung c"

datatype ('t, 'k, 'p, 'r, 'i) bs_event =
    Ev_call nat "('t, 'p, 'r, 'i) th_call"
  | Ev_turn nat
  | Ev_ambient "('t, 'k) env_action"

fun ambient :: "('t, 'k) env_action \<Rightarrow> bool" where
  "ambient EnvClearPoison = True"
| "ambient (EnvSpurious a) = True"
| "ambient EnvTick = True"
| "ambient (EnvTimer g) = True"
| "ambient _ = False"

fun bs_exec ::
  "('m, 't, 'k, 'i, 'f, 'e) platform \<Rightarrow> ('t, 'k, 'p, 'r, 'i) bs_event \<Rightarrow>
   ('m, 't, 'k, 'p, 'r, 'i, 'f, 'e) bsys \<Rightarrow> ('m, 't, 'k, 'p, 'r, 'i, 'f, 'e) bsys option"
where
  "bs_exec P (Ev_call i c) s =
     (if i < length (bs_slots s) then
        case bs_slots s ! i of
          Resting x \<Rightarrow> Some (s\<lparr>bs_slots := (bs_slots s)[i := Busy c (th_start (th_entry c))]\<rparr>)
        | _ \<Rightarrow> None
      else None)"
| "bs_exec P (Ev_turn i) s =
     (case slot_at s i of
        Busy c pc \<Rightarrow> map_option (\<lambda>(next, w). unfocus w ((bs_slots s)[i := th_after c next]))
          (th_step P c pc (focus s))
      | _ \<Rightarrow> None)"
| "bs_exec P (Ev_ambient a) s =
     (if ambient a then Some (unfocus (env_step P a (focus s)) (bs_slots s)) else None)"

inductive reaches ::
  "('m, 't, 'k, 'i, 'f, 'e) platform \<Rightarrow> ('m, 't, 'k, 'p, 'r, 'i, 'f, 'e) bsys \<Rightarrow>
   ('m, 't, 'k, 'p, 'r, 'i, 'f, 'e) bsys \<Rightarrow> bool"
  for P :: "('m, 't, 'k, 'i, 'f, 'e) platform" and s\<^sub>0 :: "('m, 't, 'k, 'p, 'r, 'i, 'f, 'e) bsys"
where
  start: "reaches P s\<^sub>0 s\<^sub>0"
| step: "reaches P s\<^sub>0 s \<Longrightarrow> bs_exec P ev s = Some s' \<Longrightarrow> reaches P s\<^sub>0 s'"

section \<open>What a thread owns\<close>

fun th_holds :: "('p, 'r, 'i, 'f, 'e) th_pc \<Rightarrow> bool" where
  "th_holds (Th_now t p) = True"
| "th_holds (Th_at i probe p) = True"
| "th_holds (Th_probe f p) = True"
| "th_holds (Th_poll f p) = True"
| "th_holds (Th_register x p) = True"
| "th_holds (Th_poll_registered g f p) = True"
| "th_holds (Th_drop_registration g r f p) = True"
| "th_holds (Th_release g x p) = True"
| "th_holds (Th_poll_again a f p) = True"
| "th_holds (Th_drop r) = True"
| "th_holds _ = False"

fun th_registration :: "('p, 'r, 'i, 'f, 'e) th_pc \<Rightarrow> BlockingWaiterRegistration option" where
  "th_registration (Th_poll_registered g f p) = Some g"
| "th_registration (Th_drop_registration g r f p) = Some g"
| "th_registration (Th_release g x p) = Some g"
| "th_registration (Th_wait g x p) = Some g"
| "th_registration (Th_parked g x p) = Some g"
| "th_registration (Th_unregister g x p) = Some g"
| "th_registration _ = None"

fun th_pending :: "('p, 'r, 'i, 'f, 'e) th_pc \<Rightarrow> nat list" where
  "th_pending (Th_wake as x) = as"
| "th_pending _ = []"

fun slot_holds :: "('t, 'p, 'r, 'i, 'f, 'e) th_slot \<Rightarrow> bool" where
  "slot_holds (Resting x) = False"
| "slot_holds (Busy c pc) = th_holds pc"
| "slot_holds (Hung c) = True"

fun slot_registration :: "('t, 'p, 'r, 'i, 'f, 'e) th_slot \<Rightarrow> BlockingWaiterRegistration option" where
  "slot_registration (Busy c pc) = th_registration pc"
| "slot_registration _ = None"

fun slot_pending :: "('t, 'p, 'r, 'i, 'f, 'e) th_slot \<Rightarrow> nat list" where
  "slot_pending (Busy c pc) = th_pending pc"
| "slot_pending _ = []"

text \<open>What one operation of a thread changes of it.\<close>

fun op_holds :: "('i, 'f) th_operation \<Rightarrow> bool \<Rightarrow> bool" where
  "op_holds Op_lock b = True"
| "op_holds (Op_drop panicking) b = False"
| "op_holds _ b = b"

fun op_registration ::
  "('i, 'f) th_operation \<Rightarrow> ('i, 'f, 'e) th_answer \<Rightarrow> BlockingWaiterRegistration option \<Rightarrow>
   BlockingWaiterRegistration option"
where
  "op_registration Op_register ans x = (case ans of Registration_is (Return g) \<Rightarrow> Some g | _ \<Rightarrow> x)"
| "op_registration (Op_unregister g) ans x = None"
| "op_registration _ ans x = x"

fun op_pending :: "('i, 'f) th_operation \<Rightarrow> ('i, 'f, 'e) th_answer \<Rightarrow> nat list \<Rightarrow> nat list" where
  "op_pending (Op_select all) ans bs = (case ans of Selected as \<Rightarrow> as | _ \<Rightarrow> bs)"
| "op_pending (Op_wake a) ans bs = tl bs"
| "op_pending _ ans bs = bs"

lemma th_act_owns:
  assumes "th_act c wrap d = (next, x)"
  shows "slot_holds (th_after c next)" "slot_registration (th_after c next) = None"
    "slot_pending (th_after c next) = []"
  using assms by (auto simp: th_act_def Let_def split: prod.splits outcome.splits)

lemma th_check_owns:
  assumes "th_check c p blocked wrap d = (next, x)"
    and "\<And>p. th_holds (blocked p)" "\<And>p. th_registration (blocked p) = None" "\<And>p. th_pending (blocked p) = []"
  shows "slot_holds (th_after c next)" "slot_registration (th_after c next) = None"
    "slot_pending (th_after c next) = []"
  using assms th_act_owns [of c wrap d "next" x]
  by (auto simp: th_check_def split: prod.splits outcome.splits if_splits)

lemma th_turn_owns:
  assumes "th_turn c r f p d = (next, x)"
  shows "slot_holds (th_after c next)" "slot_registration (th_after c next) = None"
    "slot_pending (th_after c next) = []"
  using assms by (auto simp: th_turn_def split: sum.splits dest: th_check_owns)

text \<open>The answers an operation can give.\<close>

fun op_answer :: "('i, 'f) th_operation \<Rightarrow> ('i, 'f, 'e) th_answer \<Rightarrow> bool" where
  "op_answer Op_register ans = (\<exists>r. ans = Registration_is r \<and> r \<noteq> Blocked)"
| "op_answer (Op_wait a) ans = (\<exists>b. ans = Signalled b)"
| "op_answer (Op_parked a) ans = (\<exists>b. ans = Signalled b)"
| "op_answer (Op_deadline_after t) ans = (\<exists>r. ans = Deadline_is r)"
| "op_answer Op_now ans = (\<exists>i. ans = Now_is i)"
| "op_answer (Op_at i) ans = (\<exists>r. ans = Future_is r)"
| "op_answer (Op_poll wk f) ans = (\<exists>r f'. ans = Polled r f')"
| "op_answer (Op_select all) ans = (\<exists>as. ans = Selected as)"
| "op_answer _ ans = True"

lemma bwr_register_not_blocked: "bwr_register w = (r, w') \<Longrightarrow> registry_inv (registry w) \<Longrightarrow> r \<noteq> Blocked"
  by (auto simp: bwr_register_cases split: if_splits)

lemma th_exec_answer:
  "th_exec P op w = Some (ans, w') \<Longrightarrow> registry_inv (registry w) \<Longrightarrow> op_answer op ans"
  by (cases op; cases "bwr_register w"; cases "bwr_take_one w"; cases "bwr_take_all w")
    (auto simp: wait_or_park_def Let_def dest: bwr_register_not_blocked split: prod.splits if_splits)

lemma th_polled_simps [simp]:
  "th_polled a b x (Polled (Poll_ready r) f) = a r f" "th_polled a b x (Polled Poll_pending f) = b f"
  by (simp_all add: th_polled_def)

definition owns ::
  "bool \<Rightarrow> BlockingWaiterRegistration option \<Rightarrow> nat list \<Rightarrow> ('t, 'p, 'r, 'i, 'f, 'e) th_slot \<Rightarrow> 't option \<Rightarrow> bool"
where
  "owns b r as sl x \<longleftrightarrow> slot_holds sl = b \<and> slot_registration sl = r \<and> slot_pending sl = as \<and> (x = None \<or> b)"

lemma owns_closures:
  "th_act c wrap d = (next, x) \<Longrightarrow> owns True None [] (th_after c next) x"
  "th_check c p blocked wrap d = (next, x) \<Longrightarrow>
     (\<And>p. owns True None [] (Busy c (blocked p)) (None :: 't option)) \<Longrightarrow> owns True None [] (th_after c next) x"
  "th_turn c r f p d = (next, x) \<Longrightarrow> owns True None [] (th_after c next) x"
  using th_act_owns th_check_owns [of c p blocked wrap d] th_turn_owns by (auto simp: owns_def)

text \<open>A step changes what its thread owns exactly as its operation says; it writes only under the guard.\<close>

lemma th_continue_owns:
  fixes P :: "('m, 't, 'k, 'i, 'f, 'e) platform" and c :: "('t, 'p, 'r, 'i) th_call"
  assumes "th_continue P c pc ans d = (next, x)" and "op_answer (th_op (th_notify c) pc) ans"
    and "\<And>r. pc = Th_drop r \<Longrightarrow> r \<noteq> Blocked"
  shows "owns (op_holds (th_op (th_notify c) pc) (th_holds pc))
    (op_registration (th_op (th_notify c) pc) ans (th_registration pc))
    (op_pending (th_op (th_notify c) pc) ans (th_pending pc)) (th_after c next) x"
proof (cases pc)
  case (Th_lock p after)
  then show ?thesis
    using assms(1) by (cases after) (auto simp: owns_def dest!: owns_closures(2))
next
  case (Th_now t p)
  then show ?thesis
    using assms(1,2) by (auto simp: owns_def split: sum.splits dest!: owns_closures(2))
next
  case (Th_register y p)
  then show ?thesis
    using assms(1,2) by (auto simp: owns_def split: outcome.splits option.splits)
next
  case (Th_poll f p)
  then show ?thesis
    using assms(1,2) by (auto simp: owns_def th_polled_def split: poll.splits dest!: owns_closures(3))
next
  case (Th_drop_registration g r f p)
  then show ?thesis using assms(1) by (auto dest: owns_closures(3))
next
  case (Th_poll_again a f p)
  then show ?thesis
    using assms(1,2) by (auto simp: th_polled_def split: poll.splits dest: owns_closures(3))
next
  case Th_write
  then show ?thesis using assms(1) by (auto dest: owns_closures(1))
next
  case (Th_drop r)
  then show ?thesis using assms(1,3) by (cases r) (auto simp: owns_def split: if_splits)
next
  case (Th_wake as y)
  then show ?thesis using assms(1) by (auto simp: owns_def split: if_splits)
qed (use assms(1,2) in \<open>auto simp: owns_def th_polled_def split: poll.splits sum.splits if_splits\<close>)

end
