(* ===== verification/System_Views.thy ===== *)
theory System_Views
  imports Blocking_System
begin

text \<open>
  What one thread sees of the system. A step of a thread reads only part of the shared state, so it gives the same
  answer in every world \<open>like\<close> the real one; it keeps the state the thread is in; and to every other thread it is a few
  steps of the environment of \<^verbatim>\<open>Monitor_World\<close>.
\<close>

section \<open>Views\<close>

text \<open>
  Two worlds that differ only in what the operations of one thread do not read: whose the guard is, what the
  others own, and the waiters other than \<open>A\<close>.
\<close>

definition like :: "nat set \<Rightarrow> ('m, 't, 'k) world \<Rightarrow> ('m, 't, 'k) world \<Rightarrow> bool" where
  "like A v w \<longleftrightarrow> mon_state v = mon_state w \<and> mon_waiters v = mon_waiters w \<and> clock v = clock w \<and>
     length (arena v) = length (arena w) \<and> (\<forall>a \<in> A. a < length (arena v) \<longrightarrow> arena v ! a = arena w ! a)"

lemma likeD:
  assumes "like A v w"
  shows "mon_state v = mon_state w" "mon_waiters v = mon_waiters w" "clock v = clock w"
    "length (arena v) = length (arena w)"
    "\<And>a. a \<in> A \<Longrightarrow> a < length (arena w) \<Longrightarrow> arena v ! a = arena w ! a"
  using assms by (simp_all add: like_def)

lemma like_mono: "like A v w \<Longrightarrow> B \<subseteq> A \<Longrightarrow> like B v w"
  by (auto simp: like_def)

fun op_cells :: "('i, 'f) th_operation \<Rightarrow> nat set" where
  "op_cells (Op_wait a) = {a}"
| "op_cells (Op_parked a) = {a}"
| "op_cells _ = {}"

lemma like_cell:
  "like A v w \<Longrightarrow> like A (v\<lparr>arena := (arena v)[a := f (arena v ! a)]\<rparr>) (w\<lparr>arena := (arena w)[a := f (arena w ! a)]\<rparr>)"
  by (cases "a < length (arena w)") (auto simp: like_def nth_list_update)

lemma like_register:
  assumes "like A v w"
  shows "fst (bwr_register v) = fst (bwr_register w)"
    and "like (insert (length (arena v)) A) (snd (bwr_register v)) (snd (bwr_register w))"
  using assms by (auto simp: like_def bwr_register_def Let_def nth_append split: prod.splits)

lemma like_insert: "like A v w \<Longrightarrow> length (arena v) \<le> n \<Longrightarrow> like (insert n A) v w"
  by (auto simp: like_def)

lemma like_wait_or_park:
  assumes "like A v w" and "a \<in> A" and "a < length (arena v)"
  shows "rel_prod (=) (like (insert (length (arena v)) A)) (wait_or_park a v) (wait_or_park a w)"
  using assms like_cell [OF assms(1), of a waiter_park]
  by (auto simp: wait_or_park_def likeD intro!: like_insert)

lemma th_exec_like:
  assumes "like A v w" and "op_cells op \<subseteq> A \<inter> {..<length (arena v)}"
  shows "rel_option (rel_prod (=) (like (insert (length (arena v)) A))) (th_exec P op v) (th_exec P op w)"
proof (cases op)
  case Op_register
  then show ?thesis
    using like_register [OF assms(1)] by (simp add: rel_prod_sel)
next
  case (Op_wait a)
  then show ?thesis
    using assms like_wait_or_park [OF assms(1), of a] by simp
next
  case (Op_parked a)
  then show ?thesis
    using assms like_wait_or_park [OF like_cell [OF assms(1), of a waiter_resume], of a]
    by (auto simp: likeD)
next
  case (Op_wake a)
  then show ?thesis
    using like_cell [OF assms(1), of a waiter_wake]
    by (auto simp: wake_waiter_def wake_cell_def intro: like_insert)
qed (use assms in \<open>auto simp: like_def Let_def rel_prod_sel bwr_unregister_def bwr_take_one_def bwr_take_all_def
      split: prod.split\<close>)

lemma th_step_like:
  assumes "like A v w" and "op_cells (th_op (th_notify c) pc) \<subseteq> A \<inter> {..<length (arena v)}"
  shows "rel_option (rel_prod (=) (like (insert (length (arena v)) A))) (th_step P c pc v) (th_step P c pc w)"
  using th_exec_like [OF assms, of P]
  by (cases "th_exec P (th_op (th_notify c) pc) v"; cases "th_exec P (th_op (th_notify c) pc) w")
    (auto simp: th_step_def like_def th_put_def Let_def split: prod.splits option.splits)

section \<open>The state of one thread\<close>

text \<open>A thread that holds the guard, or not, and owns the registration \<open>r\<close>, if any.\<close>

definition stance_inv ::
  "('m, 't, 'k, 'i, 'f, 'e) platform \<Rightarrow> bool \<Rightarrow> BlockingWaiterRegistration option \<Rightarrow> ('m, 't, 'k) world \<Rightarrow> bool"
where
  "stance_inv P b r v = (case r of
       None \<Rightarrow> if b then held P v else idle P v
     | Some g \<Rightarrow> enrolled P g v \<and> (inner v \<noteq> None \<longleftrightarrow> b))"

lemma stance_simps [simp]:
  "stance_inv P True None v = held P v" "stance_inv P False None v = idle P v"
  "stance_inv P b (Some g) v = (enrolled P g v \<and> (inner v \<noteq> None \<longleftrightarrow> b))"
  by (simp_all add: stance_inv_def)

fun pc_inv :: "('p, 'r, 'i, 'f, 'e) th_pc \<Rightarrow> ('m, 't, 'k) world \<Rightarrow> bool" where
  "pc_inv (Th_parked g x p) v = parked_on (waiter g) v"
| "pc_inv (Th_wake as x) v = (as \<noteq> [])"
| "pc_inv (Th_drop r) v = (r \<noteq> Blocked)"
| "pc_inv _ v = True"

definition th_inv ::
  "('m, 't, 'k, 'i, 'f, 'e) platform \<Rightarrow> ('p, 'r, 'i, 'f, 'e) th_pc \<Rightarrow> ('m, 't, 'k) world \<Rightarrow> bool"
where
  "th_inv P pc v \<longleftrightarrow> stance_inv P (th_holds pc) (th_registration pc) v \<and> pc_inv pc v"

fun slot_inv ::
  "('m, 't, 'k, 'i, 'f, 'e) platform \<Rightarrow> ('t, 'p, 'r, 'i, 'f, 'e) th_slot \<Rightarrow> ('m, 't, 'k) world \<Rightarrow> bool"
where
  "slot_inv P (Resting x) v = idle P v"
| "slot_inv P (Busy c pc) v = th_inv P pc v"
| "slot_inv P (Hung c) v = held P v"

lemma th_start_inv: "th_inv P (th_start e) v = idle P v"
  by (cases e) (simp_all add: th_inv_def)

lemma slot_inv_stance:
  "slot_inv P sl v \<longleftrightarrow> stance_inv P (slot_holds sl) (slot_registration sl) v \<and>
    (\<forall>c pc. sl = Busy c pc \<longrightarrow> pc_inv pc v)"
  by (cases sl) (simp_all add: th_inv_def)

text \<open>The program counters after the closures have run need nothing more of the world.\<close>

lemma closures_pc_inv:
  shows "th_act c wrap d = (next, x) \<Longrightarrow> next = Run pc \<Longrightarrow> pc_inv pc v"
    and "th_check c p blocked wrap d = (next, x) \<Longrightarrow> next = Run pc \<Longrightarrow> (\<And>p. pc_inv (blocked p) v) \<Longrightarrow> pc_inv pc v"
    and "th_turn c r f p d = (next, x) \<Longrightarrow> next = Run pc \<Longrightarrow> pc_inv pc v"
  by (auto simp: th_turn_def th_check_def th_act_def Let_def
      split: prod.splits outcome.splits if_splits sum.splits)

lemma th_continue_pc_inv:
  assumes "th_continue P c pc ans d = (Run pc', x)" and "op_answer (th_op (th_notify c) pc) ans"
    and "\<And>g. ans = Signalled False \<Longrightarrow> th_registration pc = Some g \<Longrightarrow> parked_on (waiter g) v"
  shows "pc_inv pc' v"
proof (cases pc)
  case (Th_lock p after)
  then show ?thesis
    using assms(1) by (cases after) (auto dest!: closures_pc_inv(2) [where v = v])
next
  case (Th_now t p)
  then show ?thesis
    using assms(1,2) by (auto dest!: closures_pc_inv(2) [where v = v] split: sum.splits)
qed (use assms in \<open>auto simp: th_polled_def split: poll.splits sum.splits outcome.splits option.splits if_splits
      dest: closures_pc_inv(1,3) [where v = v]\<close>)

lemma th_stepE:
  assumes "th_step P c pc v = Some (next, w)"
  obtains ans u x where "th_exec P (th_op (th_notify c) pc) v = Some (ans, u)"
    "th_continue P c pc ans (bk_deref (bk P) (mon_state u)) = (next, x)" "w = th_put P x u"
  using assms
  by (cases "th_exec P (th_op (th_notify c) pc) v") (auto simp: th_step_def Let_def split: prod.splits)

context state_backend
begin

lemma held_put: "held P v \<Longrightarrow> held P (th_put P x v)"
  by (cases x) (simp_all add: held_def world_inv_def lock_inv_def regs_within_def holds_guard_def)

lemma idle_locked:
  assumes "idle P v" and "bk_free (bk P) (mon_state v)" and "bk_lock (bk P) (mon_state v) = (g, m)"
  shows "held P (v\<lparr>mon_state := m, inner := Some g\<rparr>)"
  using assms lock_excludes [of "mon_state v"]
  by (auto simp: idle_def held_def world_inv_def lock_inv_def regs_within_def holds_guard_def)

lemma held_dropped:
  assumes "held P v" and "sched v = []"
  shows "idle P (v\<lparr>mon_state := bk_drop (bk P) b (mon_state v), inner := None\<rparr>)"
  using drop_guard_held(1) [OF assms(1), of b] drop_guard_eq [of v b] assms by (simp add: held_def)

lemma enrolled_dropped:
  assumes "enrolled P g v" and "inner v \<noteq> None" and "sched v = []"
  shows "enrolled P g (v\<lparr>mon_state := bk_drop (bk P) b (mon_state v), inner := None\<rparr>)"
  using drop_guard_enrolled(1) [OF assms(1), of b] drop_guard_eq [of v b] assms by (simp add: holds_guard_def)

lemma held_registered:
  assumes "held P v" and "sched v = []" and "bwr_register v = (r, w)"
  shows "(\<exists>g. r = Return g \<and> enrolled P g w \<and> inner w \<noteq> None) \<or> (\<exists>m. r = Panic m \<and> held P w)"
  using register_spec [OF assms(1), of r w] assms(2,3) by (auto simp: register_waiter_def holds_guard_def)

lemma enrolled_unregistered:
  assumes "enrolled P g v" and "sched v = []"
  shows "world_inv P (bwr_unregister (waiter_id g) v)" "regs_within {} (bwr_unregister (waiter_id g) v)"
    "inner (bwr_unregister (waiter_id g) v) = inner v"
  using registration_drop_spec [OF assms(1)] assms(2) by (simp_all add: registration_drop_def)

lemma wait_or_park_inv:
  assumes "enrolled P g v" and "inner v = None" and "wait_or_park (waiter g) v = (ans, w)"
  shows "enrolled P g w" "inner w = None" "ans = Signalled True \<or> ans = Signalled False \<and> parked_on (waiter g) w"
proof -
  have "waiter g < length (arena v)" using assms(1) by (simp add: enrolled_def attended_def)
  then show "enrolled P g w" "inner w = None"
    "ans = Signalled True \<or> ans = Signalled False \<and> parked_on (waiter g) w"
    using assms by (auto simp: wait_or_park_def enrolled_cell parked_on_def split: if_splits)
qed

text \<open>An operation moves the thread from one stance to the next.\<close>

lemma th_exec_stance:
  assumes "stance_inv P (th_holds pc) (th_registration pc) v" and "sched v = []"
    and ex: "th_exec P (th_op n pc) v = Some (ans, u)"
  shows "stance_inv P (op_holds (th_op n pc) (th_holds pc)) (op_registration (th_op n pc) ans (th_registration pc)) u"
proof (cases pc)
  case (Th_register y p)
  then obtain r where "bwr_register v = (r, u)" "ans = Registration_is r" "held P v"
    using assms by (cases "bwr_register v") auto
  then show ?thesis using held_registered [of v r u] assms(2) Th_register by auto
next
  case (Th_wait g y p)
  then show ?thesis using assms wait_or_park_inv(1,2) [of g v ans u] by simp
next
  case (Th_parked g y p)
  then show ?thesis
    using assms wait_or_park_inv(1,2) [of g "v\<lparr>arena := (arena v)[waiter g := waiter_resume (arena v ! waiter g)]\<rparr>" ans u]
    by (simp add: enrolled_cell split: if_splits)
next
  case (Th_select y)
  then show ?thesis
    using assms idle_take_one [of v] idle_take_all [of v]
    by (cases "bwr_take_one v"; cases "bwr_take_all v") (auto split: if_splits)
qed (use assms enrolled_unregistered [of _ v] enrolled_dropped [of _ v] held_dropped [of v] idle_locked [of v]
    idle_wake [of v] in \<open>auto simp: held_def [of P "bwr_unregister i w" for i w] idle_def [of P "bwr_unregister i w" for i w]
      holds_guard_def [of "bwr_unregister i w" for i w] Let_def split: if_splits prod.splits\<close>)

lemma th_exec_parked:
  assumes "stance_inv P (th_holds pc) (th_registration pc) v"
    and "th_exec P (th_op n pc) v = Some (Signalled False, u)" and "th_registration pc = Some g"
  shows "parked_on (waiter g) u"
  using assms wait_or_park_inv(3) [of g v "Signalled False" u]
    wait_or_park_inv(3) [of g "v\<lparr>arena := (arena v)[waiter g := waiter_resume (arena v ! waiter g)]\<rparr>" "Signalled False" u]
  by (cases pc) (auto simp: enrolled_cell Let_def split: if_splits prod.splits)

lemma stance_put: "stance_inv P b r v \<Longrightarrow> x = None \<or> b \<Longrightarrow> stance_inv P b r (th_put P x v)"
  by (cases x; cases r; cases b) (auto simp: held_put [of v "Some d" for d, simplified] enrolled_def world_inv_def lock_inv_def
      regs_within_def attended_def)

lemma stance_world: "stance_inv P b r v \<Longrightarrow> world_inv P v"
  by (auto simp: stance_inv_def held_def idle_def enrolled_def split: option.splits if_splits)

lemma th_step_inv:
  assumes "th_inv P pc v" and "sched v = []" and "th_step P c pc v = Some (next, w)"
  shows "slot_inv P (th_after c next) w"
proof -
  let ?op = "th_op (th_notify c) pc"
  obtain ans u x where ex: "th_exec P ?op v = Some (ans, u)"
    and co: "th_continue P c pc ans (bk_deref (bk P) (mon_state u)) = (next, x)" and w: "w = th_put P x u"
    using assms(3) by (rule th_stepE)
  have stance: "stance_inv P (th_holds pc) (th_registration pc) v" using assms(1) by (simp add: th_inv_def)
  then have ans: "op_answer ?op ans"
    using stance_world th_exec_answer [OF ex] by (auto simp: world_inv_def queue_inv_def)
  have "pc = Th_drop r \<Longrightarrow> r \<noteq> Blocked" for r using assms(1) by (auto simp: th_inv_def)
  then have "owns (op_holds ?op (th_holds pc)) (op_registration ?op ans (th_registration pc))
      (op_pending ?op ans (th_pending pc)) (th_after c next) x"
    by (rule th_continue_owns [OF co ans])
  then have "stance_inv P (slot_holds (th_after c next)) (slot_registration (th_after c next)) w"
    using th_exec_stance [OF stance assms(2) ex] by (auto simp: owns_def w intro: stance_put)
  moreover have "pc_inv pc' w" if "th_after c next = Busy c' pc'" for c' pc'
  proof (rule th_continue_pc_inv [OF _ ans])
    show "th_continue P c pc ans (bk_deref (bk P) (mon_state u)) = (Run pc', x)"
      using co that by (cases "next") auto
    show "parked_on (waiter g) w" if "ans = Signalled False" "th_registration pc = Some g" for g
      using th_exec_parked [OF stance _ that(2)] ex that(1)
      by (auto simp: w parked_on_def th_put_def split: option.splits)
  qed
  ultimately show ?thesis by (simp add: slot_inv_stance)
qed

end

section \<open>The steps of one thread as the others see them\<close>

fun op_acts :: "('k, 'i, 'f, 'e) timer_ops \<Rightarrow> ('i, 'f) th_operation \<Rightarrow> ('t, 'k) env_action list" where
  "op_acts T Op_lock = [EnvLock]"
| "op_acts T (Op_drop panicking) = [EnvUnlock panicking]"
| "op_acts T Op_register = [EnvRegister]"
| "op_acts T (Op_unregister g) = [EnvUnregister (waiter_id g)]"
| "op_acts T (Op_at i) = [EnvTimer (\<lambda>k. snd (tm_at T i k))]"
| "op_acts T (Op_poll wk f) = [EnvTimer (\<lambda>k. snd (snd (tm_poll T wk f k)))]"
| "op_acts T (Op_select all) = [if all then EnvTakeAll else EnvTakeOne]"
| "op_acts T (Op_wake a) = [EnvWake a]"
| "op_acts T _ = []"

definition step_acts :: "('k, 'i, 'f, 'e) timer_ops \<Rightarrow> ('i, 'f) th_operation \<Rightarrow> 't option \<Rightarrow> ('t, 'k) env_action list" where
  "step_acts T op x = op_acts T op @ (case x of None \<Rightarrow> [] | Some d \<Rightarrow> [EnvWrite (\<lambda>_. d)])"

fun op_regs :: "('i, 'f) th_operation \<Rightarrow> ('i, 'f, 'e) th_answer \<Rightarrow> u64 set \<Rightarrow> u64 set" where
  "op_regs Op_register ans R = (case ans of Registration_is (Return g) \<Rightarrow> insert (waiter_id g) R | _ \<Rightarrow> R)"
| "op_regs (Op_unregister g) ans R = R - {waiter_id g}"
| "op_regs _ ans R = R"

fun op_flight :: "('i, 'f) th_operation \<Rightarrow> ('i, 'f, 'e) th_answer \<Rightarrow> nat multiset \<Rightarrow> nat multiset" where
  "op_flight (Op_select all) ans M = (case ans of Selected as \<Rightarrow> M + mset as | _ \<Rightarrow> M)"
| "op_flight (Op_wake a) ans M = M - {#a#}"
| "op_flight _ ans M = M"

text \<open>The other threads may make this operation in the world \<open>v\<close>.\<close>

fun op_allowed :: "('i, 'f) th_operation \<Rightarrow> ('m, 't, 'k) world \<Rightarrow> bool" where
  "op_allowed (Op_drop panicking) v = env_holds v"
| "op_allowed (Op_unregister g) v = (waiter_id g \<in> set (env_regs v))"
| "op_allowed (Op_wake a) v = (a \<in> set (in_flight v))"
| "op_allowed _ v = True"

lemma timer_calls [simp]:
  "timer_call T (\<lambda>k. snd (tm_at T i k))" "timer_call T (\<lambda>k. snd (snd (tm_poll T wk f k)))"
  by (auto simp: timer_call_def)

lemma like_other_cell: "like A v w \<Longrightarrow> a \<notin> A \<Longrightarrow> like A v (w\<lparr>arena := (arena w)[a := c]\<rparr>)"
  by (simp add: like_def) (metis nth_list_update_neq)

lemma like_wait_or_park_other:
  "wait_or_park a w = (ans, w') \<Longrightarrow> like A v w \<Longrightarrow> a \<notin> A \<Longrightarrow> like A v w'"
  by (auto simp: wait_or_park_def like_other_cell split: if_splits)

lemma env_run_simps [simp]: "env_run P [] v = v" "env_run P (a # as) v = env_run P as (env_step P a v)"
  by (simp_all add: env_run_def)

lemma env_run_append: "env_run P (as @ bs) v = env_run P bs (env_run P as v)"
  by (simp add: env_run_def)

definition viewed ::
  "nat set \<Rightarrow> bool \<Rightarrow> u64 set \<Rightarrow> nat multiset \<Rightarrow> ('m, 't, 'k) world \<Rightarrow> ('m, 't, 'k) world \<Rightarrow> bool"
where
  "viewed A b R M w v \<longleftrightarrow> like A v w \<and> env_holds v = b \<and> set (env_regs v) = R \<and> mset (in_flight v) = M"

lemma op_acts_viewed:
  assumes "th_exec P op w = Some (ans, w')" and "like A v w" and "A \<inter> op_cells op = {}"
    and "op_allowed op v" and "registry_inv (registry v)"
  shows "viewed A (op_holds op (env_holds v)) (op_regs op ans (set (env_regs v)))
    (op_flight op ans (mset (in_flight v))) w' (env_run P (op_acts (tm P) op) v)"
proof (cases op)
  case Op_register
  obtain r w1 r' v1 where reg: "bwr_register w = (r, w1)" "bwr_register v = (r', v1)" by fastforce
  then have "r' = r" and l: "like A v1 w1"
    using like_register [OF assms(2)] by (auto intro: like_mono)
  moreover have "env_holds v1 = env_holds v" "env_regs v1 = env_regs v" "in_flight v1 = in_flight v"
    using reg(2) by (auto simp: bwr_register_def Let_def split: prod.splits)
  ultimately show ?thesis
    using assms(1) Op_register reg by (cases r) (auto simp: viewed_def like_def)
next
  case (Op_parked a)
  then show ?thesis
    using assms by (auto simp: viewed_def like_other_cell dest!: like_wait_or_park_other [where v = v] split: if_splits)
next
  case (Op_wait a)
  then show ?thesis
    using assms by (auto simp: viewed_def dest: like_wait_or_park_other)
next
  case (Op_wake a)
  then show ?thesis
    using assms like_cell [OF assms(2), of a waiter_wake]
    by (auto simp: viewed_def wake_waiter_def wake_cell_def like_def)
next
  case (Op_unregister g)
  then show ?thesis
    using assms by (auto simp: viewed_def like_def bwr_unregister_eq)
next
  case (Op_select all)
  then show ?thesis
    using assms by (auto simp: viewed_def like_def bwr_take_one_eq bwr_take_all_eq split: if_splits list.splits)
qed (use assms in \<open>auto simp: viewed_def like_def Let_def split: if_splits prod.splits\<close>)

lemma step_acts_viewed:
  fixes P :: "('m, 't, 'k, 'i, 'f, 'e) platform"
  assumes "th_step P c pc w = Some (next, w')" and "like A v w" and "A \<inter> op_cells (th_op (th_notify c) pc) = {}"
    and "op_allowed (th_op (th_notify c) pc) v" and "registry_inv (registry v)"
    and "th_holds pc \<Longrightarrow> env_holds v" and "\<And>r. pc = Th_drop r \<Longrightarrow> r \<noteq> Blocked"
  obtains ans :: "('i, 'f, 'e) th_answer" and acts where "op_answer (th_op (th_notify c) pc) ans"
    "viewed A (op_holds (th_op (th_notify c) pc) (env_holds v)) (op_regs (th_op (th_notify c) pc) ans (set (env_regs v)))
      (op_flight (th_op (th_notify c) pc) ans (mset (in_flight v))) w' (env_run P acts v)"
    "slot_holds (th_after c next) = op_holds (th_op (th_notify c) pc) (th_holds pc)"
    "slot_registration (th_after c next) = op_registration (th_op (th_notify c) pc) ans (th_registration pc)"
    "slot_pending (th_after c next) = op_pending (th_op (th_notify c) pc) ans (th_pending pc)"
proof -
  let ?op = "th_op (th_notify c) pc"
  obtain ans u x where ex: "th_exec P ?op w = Some (ans, u)"
    and co: "th_continue P c pc ans (bk_deref (bk P) (mon_state u)) = (next, x)" and w': "w' = th_put P x u"
    using assms(1) by (rule th_stepE)
  have ans: "op_answer ?op ans"
    using th_exec_answer [OF ex] assms(2,5) by (simp add: like_def)
  have ow: "owns (op_holds ?op (th_holds pc)) (op_registration ?op ans (th_registration pc))
      (op_pending ?op ans (th_pending pc)) (th_after c next) x"
    by (rule th_continue_owns [OF co ans]) (use assms(7) in blast)
  note vi = op_acts_viewed [OF ex assms(2-5)]
  have "viewed A (op_holds ?op (env_holds v)) (op_regs ?op ans (set (env_regs v)))
      (op_flight ?op ans (mset (in_flight v))) w' (env_run P (step_acts (tm P) ?op x) v)"
  proof (cases x)
    case None
    then show ?thesis using vi by (simp add: step_acts_def w')
  next
    case (Some d)
    then have "op_holds ?op (env_holds v)"
      using ow assms(6) by (cases ?op) (auto simp: owns_def Some)
    then show ?thesis
      using vi Some by (auto simp: viewed_def like_def step_acts_def env_run_append w')
  qed
  then show ?thesis by (rule that [OF ans]) (use ow in \<open>simp_all add: owns_def\<close>)
qed

end
