(* ===== verification/System_Invariant.thy ===== *)
theory System_Invariant
  imports System_Views
begin

text \<open>
  The invariant of the system: every thread has a world of its own in which the other threads are the environment,
  which satisfies the invariant of its program counter, and which its call alone reaches against some schedule.
\<close>

section \<open>The system invariant\<close>

abbreviation own_cells :: "('t, 'p, 'r, 'i, 'f, 'e) th_slot \<Rightarrow> nat set" where
  "own_cells sl \<equiv> waiter ` set_option (slot_registration sl)"

definition others_hold :: "('m, 't, 'k, 'p, 'r, 'i, 'f, 'e) bsys \<Rightarrow> nat \<Rightarrow> bool" where
  "others_hold s i \<longleftrightarrow> (\<exists>j. j \<noteq> i \<and> slot_holds (slot_at s j))"

definition others_regs :: "('m, 't, 'k, 'p, 'r, 'i, 'f, 'e) bsys \<Rightarrow> nat \<Rightarrow> u64 set" where
  "others_regs s i = (\<Union>j \<in> - {i}. waiter_id ` set_option (slot_registration (slot_at s j)))"

definition others_flight :: "('m, 't, 'k, 'p, 'r, 'i, 'f, 'e) bsys \<Rightarrow> nat \<Rightarrow> nat multiset" where
  "others_flight s i = (\<Sum>j \<in> {..<length (bs_slots s)} - {i}. mset (slot_pending (slot_at s j)))"

text \<open>A world of thread \<open>i\<close> alone that is the system to it: the other threads are its environment.\<close>

definition seen :: "nat \<Rightarrow> ('m, 't, 'k, 'p, 'r, 'i, 'f, 'e) bsys \<Rightarrow> ('m, 't, 'k) world \<Rightarrow> bool" where
  "seen i s v \<longleftrightarrow> sched v = [] \<and>
     viewed (own_cells (slot_at s i)) (others_hold s i) (others_regs s i) (others_flight s i) (focus s) v"

text \<open>What the thread has past is a run of its call alone against some schedule.\<close>

fun lone_run ::
  "('m, 't, 'k, 'i, 'f, 'e) platform \<Rightarrow> ('t, 'p, 'r, 'i, 'f, 'e) th_slot \<Rightarrow> ('m, 't, 'k) world \<Rightarrow> bool"
where
  "lone_run P (Resting x) v = (\<forall>c r. x = Some (c, r) \<longrightarrow>
     (\<exists>w u acts. idle P w \<and> th_drive P c (th_start (th_entry c)) w = Some (r, u) \<and> v = env_run P acts u))"
| "lone_run P (Busy c pc) v =
     (\<exists>w u acts past. idle P w \<and> v = env_run P acts u \<and>
        (\<forall>rest. th_drive P c (th_start (th_entry c)) (w\<lparr>sched := past @ rest\<rparr>) = th_drive P c pc (u\<lparr>sched := rest\<rparr>)))"
| "lone_run P (Hung c) v =
     (\<exists>w u acts. idle P w \<and> th_drive P c (th_start (th_entry c)) w = Some (Blocked, u) \<and> v = env_run P acts u)"

definition thread_ok ::
  "('m, 't, 'k, 'i, 'f, 'e) platform \<Rightarrow> ('m, 't, 'k, 'p, 'r, 'i, 'f, 'e) bsys \<Rightarrow> nat \<Rightarrow> bool"
where
  "thread_ok P s i \<longleftrightarrow> (\<exists>v. seen i s v \<and> slot_inv P (slot_at s i) v \<and> lone_run P (slot_at s i) v)"

definition cells_apart :: "('m, 't, 'k, 'p, 'r, 'i, 'f, 'e) bsys \<Rightarrow> bool" where
  "cells_apart s \<longleftrightarrow> (\<forall>i j. i \<noteq> j \<longrightarrow> own_cells (slot_at s i) \<inter> own_cells (slot_at s j) = {})"

definition bs_ok ::
  "('m, 't, 'k, 'i, 'f, 'e) platform \<Rightarrow> ('m, 't, 'k, 'p, 'r, 'i, 'f, 'e) bsys \<Rightarrow> bool"
where
  "bs_ok P s \<longleftrightarrow> (\<forall>i. thread_ok P s i) \<and> cells_apart s"

lemma lone_run_env: "lone_run P sl v \<Longrightarrow> lone_run P sl (env_run P acts v)"
  by (cases sl) (fastforce simp: env_run_append [symmetric])+

lemma env_step_resched: "env_step P a (w\<lparr>sched := sc\<rparr>) = (env_step P a w)\<lparr>sched := sc\<rparr>"
  by (cases a)
    (auto simp: bwr_register_def bwr_take_one_def bwr_take_all_def bwr_unregister_def
      wake_waiter_def wake_waiters_eq Let_def split: outcome.splits option.splits prod.splits)

lemma env_run_resched: "env_run P as (w\<lparr>sched := sc\<rparr>) = (env_run P as w)\<lparr>sched := sc\<rparr>"
  by (induction as arbitrary: w) (simp_all add: env_step_resched)

lemma th_exec_resched:
  "th_exec P op (w\<lparr>sched := sc\<rparr>) = map_option (apsnd (sched_update (\<lambda>_. sc))) (th_exec P op w)"
  by (cases op)
    (auto simp: wait_or_park_def bwr_register_def bwr_take_one_def bwr_take_all_def bwr_unregister_def
      wake_waiter_def Let_def split: prod.splits)

lemma th_step_resched:
  "th_step P c pc w = Some (next, w') \<Longrightarrow> th_step P c pc (w\<lparr>sched := sc\<rparr>) = Some (next, w'\<lparr>sched := sc\<rparr>)"
  by (elim th_stepE) (simp add: th_step_def th_exec_resched th_put_def split: option.splits)

lemma lone_run_step:
  assumes "lone_run P (Busy c pc) v" and "th_step P c pc v = Some (next, v')"
  shows "lone_run P (th_after c next) v'"
proof -
  obtain w u acts past where w: "idle P w" and v: "v = env_run P acts u"
    and run: "\<And>rest. th_drive P c (th_start (th_entry c)) (w\<lparr>sched := past @ rest\<rparr>) = th_drive P c pc (u\<lparr>sched := rest\<rparr>)"
    using assms(1) by auto
  have idle: "idle P (w\<lparr>sched := sc\<rparr>)" for sc
    using w by (simp add: idle_def world_inv_def lock_inv_def regs_within_def)
  have step: "th_drive P c (th_start (th_entry c)) (w\<lparr>sched := (past @ [acts]) @ rest\<rparr>) =
      (case next of Run pc' \<Rightarrow> th_drive P c pc' (v'\<lparr>sched := rest\<rparr>)
       | Finish r \<Rightarrow> Some (r, v'\<lparr>sched := rest\<rparr>) | Hang \<Rightarrow> Some (Blocked, v'\<lparr>sched := rest\<rparr>))" for rest
  proof -
    have "interfere P (u\<lparr>sched := acts # rest\<rparr>) = v\<lparr>sched := rest\<rparr>"
      by (simp add: interfere_def v env_run_resched)
    then show ?thesis
      using run [of "acts # rest"] th_step_resched [OF assms(2), of rest]
      by (simp add: th_drive.simps [of P c pc])
  qed
  have over: "\<exists>w. idle P w \<and> (\<exists>u. th_drive P c (th_start (th_entry c)) w = Some (r, u) \<and> (\<exists>acts. v' = env_run P acts u))"
    if "th_drive P c (th_start (th_entry c)) (w\<lparr>sched := sc\<rparr>) = Some (r, v')" for r sc
    using that idle [of sc] env_run_simps(1) [of P v', symmetric] by blast
  show ?thesis
  proof (cases "next")
    case (Run pc')
    then have "\<forall>rest. th_drive P c (th_start (th_entry c)) (w\<lparr>sched := (past @ [acts]) @ rest\<rparr>) =
        th_drive P c pc' (v'\<lparr>sched := rest\<rparr>)" using step by simp
    then show ?thesis
      using w Run env_run_simps(1) [of P v'] by (simp only: th_after.simps lone_run.simps) metis
  next
    case (Finish r)
    then show ?thesis
      using step [of "sched v'"] over by simp
  next
    case Hang
    then show ?thesis
      using step [of "sched v'"] over by simp
  qed
qed

lemma focus_unfocus [simp]: "like A v (focus (unfocus w xs)) = like A v w"
  by (simp add: like_def focus_def unfocus_def)

lemma slot_at_Busy: "slot_at s j = Busy c pc \<Longrightarrow> j < length (bs_slots s)"
  by (simp add: slot_at_def split: if_splits)

lemma slot_at_unfocus:
  assumes "j < length (bs_slots s)"
  shows "slot_at (unfocus w ((bs_slots s)[j := sl])) k = (if k = j then sl else slot_at s k)"
  using assms by (auto simp: slot_at_def unfocus_def)

lemma viewed_focus [simp]: "viewed A b R M (focus (unfocus w xs)) v = viewed A b R M w v"
  by (simp add: viewed_def)

text \<open>A program counter and the operation it makes.\<close>

lemma th_op_owns:
  shows "op_cells (th_op n pc) \<subseteq> waiter ` set_option (th_registration pc)"
    and "th_op n pc = Op_unregister g \<Longrightarrow> th_registration pc = Some g"
    and "th_op n pc = Op_register \<Longrightarrow> th_registration pc = None"
    and "th_op n pc = Op_drop b \<Longrightarrow> th_holds pc"
    and "th_op n pc = Op_wake a \<Longrightarrow> \<exists>as x. pc = Th_wake as x \<and> a = hd as"
    and "th_op n pc = Op_select all \<Longrightarrow> th_pending pc = []"
  by (cases pc; simp)+

lemma th_exec_registered:
  assumes "th_exec P Op_register w = Some (Registration_is (Return g), w')"
  shows "waiter g = length (arena w)"
  using assms by (cases "fst (bwr_register w)")
    (auto simp: bwr_register_def Let_def split: prod.splits)

lemma th_step_cells:
  assumes "th_step P c pc v = Some (next, v')" and "registry_inv (registry v)"
    and "\<And>r. pc = Th_drop r \<Longrightarrow> r \<noteq> Blocked"
  shows "own_cells (th_after c next) \<subseteq> insert (length (arena v)) (own_cells (Busy c pc))"
proof -
  let ?op = "th_op (th_notify c) pc"
  obtain ans u x where ex: "th_exec P ?op v = Some (ans, u)"
    and co: "th_continue P c pc ans (bk_deref (bk P) (mon_state u)) = (next, x)"
    using assms(1) by (rule th_stepE)
  have "owns (op_holds ?op (th_holds pc)) (op_registration ?op ans (th_registration pc))
      (op_pending ?op ans (th_pending pc)) (th_after c next) x"
    by (rule th_continue_owns [OF co th_exec_answer [OF ex assms(2)]]) (use assms(3) in blast)
  then have reg: "slot_registration (th_after c next) = op_registration ?op ans (th_registration pc)"
    by (simp add: owns_def)
  show ?thesis
  proof (cases "?op = Op_register \<and> (\<exists>g. ans = Registration_is (Return g))")
    case True
    then show ?thesis using th_exec_registered [of P v] ex reg by auto
  next
    case False
    then have "op_registration ?op ans (th_registration pc) \<in> {None, th_registration pc}"
      by (cases ?op) (auto split: th_answer.split outcome.split)
    then show ?thesis using reg by auto
  qed
qed

lemma th_step_frame:
  assumes "th_step P c pc v = Some (next, v')"
  shows "env_holds v' = env_holds v" "env_regs v' = env_regs v" "in_flight v' = in_flight v" "sched v' = sched v"
proof -
  have "env_holds u = env_holds v \<and> env_regs u = env_regs v \<and> in_flight u = in_flight v \<and> sched u = sched v"
    if "th_exec P op v = Some (ans, u)" for op ans u
    using that by (cases op; cases "bwr_register v"; cases "bwr_take_one v"; cases "bwr_take_all v")
      (auto simp: wait_or_park_def bwr_register_def bwr_take_one_def bwr_take_all_def bwr_unregister_def
        wake_waiter_def Let_def split: if_splits prod.splits)
  then show "env_holds v' = env_holds v" "env_regs v' = env_regs v" "in_flight v' = in_flight v" "sched v' = sched v"
    using assms by (auto elim!: th_stepE simp: th_put_def split: option.splits)
qed

lemma others_update:
  assumes "j < length (bs_slots s)" and "i \<noteq> j" and s'_def: "s' = unfocus w ((bs_slots s)[j := sl])"
  shows "others_hold s' j = others_hold s j" "others_regs s' j = others_regs s j"
    "others_flight s' j = others_flight s j"
    and "others_hold s' i = (slot_holds sl \<or> (\<exists>k. k \<noteq> i \<and> k \<noteq> j \<and> slot_holds (slot_at s k)))"
    and "others_regs s' i = waiter_id ` set_option (slot_registration sl) \<union>
      (\<Union>k \<in> - {i, j}. waiter_id ` set_option (slot_registration (slot_at s k)))"
    and "others_flight s' i = mset (slot_pending sl) +
      (\<Sum>k \<in> {..<length (bs_slots s)} - {i, j}. mset (slot_pending (slot_at s k)))"
proof -
  note at = slot_at_unfocus [OF assms(1), of w sl, folded s'_def]
  have len: "length (bs_slots s') = length (bs_slots s)" by (simp add: s'_def unfocus_def)
  show "others_hold s' j = others_hold s j" "others_regs s' j = others_regs s j"
    "others_flight s' j = others_flight s j"
    by (auto simp: others_hold_def others_regs_def others_flight_def at len intro!: sum.cong)
  show "others_hold s' i = (slot_holds sl \<or> (\<exists>k. k \<noteq> i \<and> k \<noteq> j \<and> slot_holds (slot_at s k)))"
    using assms(2) by (auto simp: others_hold_def at)
  show "others_regs s' i = waiter_id ` set_option (slot_registration sl) \<union>
      (\<Union>k \<in> - {i, j}. waiter_id ` set_option (slot_registration (slot_at s k)))"
    using assms(2) by (auto simp: others_regs_def at split: if_splits)
  have "{..<length (bs_slots s)} - {i} = insert j ({..<length (bs_slots s)} - {i, j})"
    using assms(1,2) by auto
  then show "others_flight s' i = mset (slot_pending sl) +
      (\<Sum>k \<in> {..<length (bs_slots s)} - {i, j}. mset (slot_pending (slot_at s k)))"
    by (simp add: others_flight_def len at)
qed

lemma others_split:
  assumes "j < length (bs_slots s)" and "i \<noteq> j"
  shows "others_hold s i = (slot_holds (slot_at s j) \<or> (\<exists>k. k \<noteq> i \<and> k \<noteq> j \<and> slot_holds (slot_at s k)))"
    and "others_regs s i = waiter_id ` set_option (slot_registration (slot_at s j)) \<union>
      (\<Union>k \<in> - {i, j}. waiter_id ` set_option (slot_registration (slot_at s k)))"
    and "others_flight s i = mset (slot_pending (slot_at s j)) +
      (\<Sum>k \<in> {..<length (bs_slots s)} - {i, j}. mset (slot_pending (slot_at s k)))"
proof -
  have same: "slot_at (unfocus w ((bs_slots s)[j := slot_at s j])) k = slot_at s k" for w k
    using assms(1) by (auto simp: slot_at_unfocus)
  have len: "length (bs_slots (unfocus w ((bs_slots s)[j := slot_at s j]))) = length (bs_slots s)" for w
    by (simp add: unfocus_def)
  note u = others_update(4-6) [OF assms refl, of "focus s" "slot_at s j", unfolded others_hold_def others_regs_def
      others_flight_def same len]
  show "others_hold s i = (slot_holds (slot_at s j) \<or> (\<exists>k. k \<noteq> i \<and> k \<noteq> j \<and> slot_holds (slot_at s k)))"
    "others_regs s i = waiter_id ` set_option (slot_registration (slot_at s j)) \<union>
      (\<Union>k \<in> - {i, j}. waiter_id ` set_option (slot_registration (slot_at s k)))"
    "others_flight s i = mset (slot_pending (slot_at s j)) +
      (\<Sum>k \<in> {..<length (bs_slots s)} - {i, j}. mset (slot_pending (slot_at s k)))"
    using u unfolding others_hold_def others_regs_def others_flight_def by blast+
qed

context state_backend
begin

lemma stanceD:
  assumes "stance_inv P b r v"
  shows "(inner v \<noteq> None) = b" and "r = Some g \<Longrightarrow> attended g v"
  using assms
  by (auto simp: stance_inv_def idle_def held_def holds_guard_def enrolled_def split: option.splits if_splits)

lemma slot_invD:
  assumes "slot_inv P sl v"
  shows "world_inv P v" and "(inner v \<noteq> None) = slot_holds sl"
    and "slot_registration sl = Some g \<Longrightarrow> attended g v"
    and "sl = Busy c (Th_drop r) \<Longrightarrow> r \<noteq> Blocked" and "sl = Busy c (Th_wake as x) \<Longrightarrow> as \<noteq> []"
proof -
  have st: "stance_inv P (slot_holds sl) (slot_registration sl) v"
    and pc: "\<And>c pc. sl = Busy c pc \<Longrightarrow> pc_inv pc v"
    using assms by (simp_all add: slot_inv_stance)
  show "world_inv P v" using st by (rule stance_world)
  show "(inner v \<noteq> None) = slot_holds sl" using st by (rule stanceD)
  show "attended g v" if "slot_registration sl = Some g" using st that by (rule stanceD)
  show "r \<noteq> Blocked" if "sl = Busy c (Th_drop r)" using pc [OF that] by simp
  show "as \<noteq> []" if "sl = Busy c (Th_wake as x)" using pc [OF that] by simp
qed

lemma registry_slot_inv: "slot_inv P sl v \<Longrightarrow> registry_inv (registry v)"
  using slot_invD(1) [of sl v] by (simp add: world_inv_def queue_inv_def)

lemma stance_env_step:
  assumes "stance_inv P b r v"
  shows "stance_inv P b r (env_step P a v)"
proof (cases r)
  case None
  then show ?thesis
    using assms env_stableD(1) [OF stable_regs [of "{}"], of v a]
    by (cases b) (simp_all add: idle_def held_def holds_guard_def)
next
  case (Some g)
  then show ?thesis
    using assms env_stableD(1) [OF stable_attended [of "{waiter_id g}" g], of v a] by (simp add: enrolled_def)
qed

lemma pc_inv_env_step: "pc_inv pc v \<Longrightarrow> pc_inv pc (env_step P a v)"
  by (cases pc) (simp_all add: env_step_parked_on)

lemma slot_inv_env_step: "slot_inv P sl v \<Longrightarrow> slot_inv P sl (env_step P a v)"
  by (simp add: slot_inv_stance stance_env_step pc_inv_env_step)

lemma slot_inv_env: "slot_inv P sl v \<Longrightarrow> slot_inv P sl (env_run P acts v)"
  by (induction acts arbitrary: v) (simp_all add: slot_inv_env_step)

text \<open>From the views: at most one thread holds the guard, and no two own the same registration.\<close>

lemma thread_okE:
  assumes "thread_ok P s i"
  obtains v where "seen i s v" "slot_inv P (slot_at s i) v" "lone_run P (slot_at s i) v"
  using assms by (auto simp: thread_ok_def)

lemma ok_excludes:
  assumes "thread_ok P s j" and "slot_holds (slot_at s j)"
  shows "\<not> others_hold s j"
proof -
  obtain v where v: "seen j s v" "slot_inv P (slot_at s j) v" using assms(1) by (rule thread_okE)
  show ?thesis
    using v(1) slot_invD(1,2) [OF v(2)] assms(2) by (auto simp: seen_def viewed_def world_inv_def lock_inv_def)
qed

lemma ok_registration:
  assumes "thread_ok P s j" and "slot_registration (slot_at s j) = Some g"
  shows "waiter_id g \<notin> others_regs s j" and "waiter g < length (bs_arena s)"
proof -
  obtain v where v: "seen j s v" "slot_inv P (slot_at s j) v" using assms(1) by (rule thread_okE)
  show "waiter_id g \<notin> others_regs s j" "waiter g < length (bs_arena s)"
    using v(1) slot_invD(3) [OF v(2) assms(2)] by (auto simp: seen_def viewed_def attended_def like_def focus_def)
qed

lemma th_op_allowed:
  assumes "th_holds pc \<Longrightarrow> env_holds v" and "\<And>g. th_registration pc = Some g \<Longrightarrow> waiter_id g \<in> set (env_regs v)"
    and "set (th_pending pc) \<subseteq> set (in_flight v)" and "\<And>as x. pc = Th_wake as x \<Longrightarrow> as \<noteq> []"
  shows "op_allowed (th_op n pc) v"
  using assms by (cases pc) auto

lemma op_regs_owned:
  assumes "\<And>g. th_registration pc = Some g \<Longrightarrow> waiter_id g \<notin> R"
  shows "op_regs (th_op n pc) ans (waiter_id ` set_option (th_registration pc) \<union> R) =
    waiter_id ` set_option (op_registration (th_op n pc) ans (th_registration pc)) \<union> R"
proof (cases pc)
  case (Th_register x p)
  then show ?thesis by (auto split: th_answer.split outcome.split)
qed (use assms in auto)

lemma op_flight_owned:
  assumes "op_answer (th_op n pc) ans" and "\<And>as x. pc = Th_wake as x \<Longrightarrow> as \<noteq> []"
  shows "op_flight (th_op n pc) ans (mset (th_pending pc) + M) = mset (op_pending (th_op n pc) ans (th_pending pc)) + M"
proof (cases pc)
  case (Th_wake as x)
  then show ?thesis using assms(2) by (cases as) auto
qed (use assms in auto)

lemma turn_own:
  assumes "thread_ok P s j" and "slot_at s j = Busy c pc" and "th_step P c pc (focus s) = Some (next, w)"
  shows "thread_ok P (unfocus w ((bs_slots s)[j := th_after c next])) j"
proof -
  let ?s = "unfocus w ((bs_slots s)[j := th_after c next])"
  note len = slot_at_Busy [OF assms(2)]
  obtain v where v: "seen j s v" "slot_inv P (Busy c pc) v" "lone_run P (Busy c pc) v"
    using assms(1,2) thread_okE by metis
  let ?A = "own_cells (Busy c pc)"
  have like: "like ?A v (focus s)" using v(1) assms(2) by (simp add: seen_def viewed_def)
  have "?A \<subseteq> {..<length (arena v)}" using slot_invD(3) [OF v(2)] by (auto simp: attended_def)
  then have "rel_option (rel_prod (=) (like (insert (length (arena v)) ?A))) (th_step P c pc v) (th_step P c pc (focus s))"
    using th_op_owns(1) by (intro th_step_like [OF like]) fastforce
  then obtain v' where step: "th_step P c pc v = Some (next, v')" and
    like': "like (insert (length (arena v)) ?A) v' w" using assms(3) by (auto simp: option_rel_Some2)
  have "own_cells (th_after c next) \<subseteq> insert (length (arena v)) ?A"
    using slot_invD(4) [OF v(2)] by (intro th_step_cells [OF step registry_slot_inv [OF v(2)]]) auto
  then have "like (own_cells (th_after c next)) v' w" using like' like_mono by blast
  then have "seen j ?s v'"
    using v(1) th_step_frame [OF step] others_update(1-3) [OF len _ refl, of "Suc j" w "th_after c next"]
    by (simp add: seen_def slot_at_unfocus [OF len]) (simp add: viewed_def)
  moreover have "slot_inv P (th_after c next) v'"
    using v(1,2) step by (intro th_step_inv) (simp_all add: seen_def)
  moreover have "lone_run P (th_after c next) v'" using v(3) step by (rule lone_run_step)
  ultimately show ?thesis by (auto simp: thread_ok_def slot_at_unfocus [OF len])
qed

lemma turn_other:
  assumes "bs_ok P s" and "slot_at s j = Busy c pc" and "th_step P c pc (focus s) = Some (next, w)" and "i \<noteq> j"
  shows "thread_ok P (unfocus w ((bs_slots s)[j := th_after c next])) i"
proof -
  let ?s = "unfocus w ((bs_slots s)[j := th_after c next])"
  let ?op = "th_op (th_notify c) pc" and ?A = "own_cells (slot_at s i)"
  note len = slot_at_Busy [OF assms(2)]
  have ok: "thread_ok P s i" "thread_ok P s j" using assms(1) by (simp_all add: bs_ok_def)
  obtain v where v: "seen i s v" "slot_inv P (slot_at s i) v" "lone_run P (slot_at s i) v"
    using ok(1) by (rule thread_okE)
  obtain u where u: "slot_inv P (Busy c pc) u" using ok(2) assms(2) by (auto simp: thread_ok_def)
  note split = others_split [OF len assms(4), unfolded assms(2) slot_holds.simps slot_registration.simps slot_pending.simps]
  have like: "like ?A v (focus s)" and env: "env_holds v = others_hold s i" "set (env_regs v) = others_regs s i"
    "mset (in_flight v) = others_flight s i" using v(1) by (simp_all add: seen_def viewed_def)
  have apart: "?A \<inter> op_cells ?op = {}"
    using assms(1,2,4) th_op_owns(1) [of "th_notify c" pc] unfolding bs_ok_def cells_apart_def by fastforce
  have allowed: "op_allowed ?op v"
  proof (rule th_op_allowed)
    have "set (in_flight v) = set_mset (others_flight s i)" by (simp flip: env)
    then show "set (th_pending pc) \<subseteq> set (in_flight v)" by (simp add: split)
  qed (use slot_invD(5) [OF u] env split in auto)
  obtain ans :: "('i, 'f, 'e) th_answer" and acts where ans: "op_answer ?op ans"
    and view: "viewed ?A (op_holds ?op (env_holds v)) (op_regs ?op ans (set (env_regs v)))
      (op_flight ?op ans (mset (in_flight v))) w (env_run P acts v)"
    and own: "slot_holds (th_after c next) = op_holds ?op (th_holds pc)"
      "slot_registration (th_after c next) = op_registration ?op ans (th_registration pc)"
      "slot_pending (th_after c next) = op_pending ?op ans (th_pending pc)"
  proof (rule step_acts_viewed [OF assms(3) like apart allowed registry_slot_inv [OF v(2)]])
    show "env_holds v" if "th_holds pc" using that env split by simp
    show "r \<noteq> Blocked" if "pc = Th_drop r" for r using that slot_invD(4) [OF u] by blast
  qed
  note upd = others_update(4-6) [OF len assms(4) refl, of w "th_after c next", unfolded own]
  have "op_holds ?op (env_holds v) = others_hold ?s i"
    using th_op_owns(4) [of "th_notify c" pc] ok_excludes [OF ok(2)] assms(2)
    unfolding upd env split by (cases ?op) (auto simp: others_hold_def)
  moreover have "op_regs ?op ans (set (env_regs v)) = others_regs ?s i"
    using ok_registration(1) [OF ok(2)] assms(2) unfolding upd env split
    by (intro op_regs_owned) (fastforce simp: others_regs_def)
  moreover have "op_flight ?op ans (mset (in_flight v)) = others_flight ?s i"
    using slot_invD(5) [OF u] unfolding upd env split by (intro op_flight_owned [OF ans]) auto
  ultimately have "seen i ?s (env_run P acts v)"
    using view v(1) assms(4) by (simp add: seen_def slot_at_unfocus [OF len])
  then show ?thesis
    using slot_inv_env [OF v(2), of acts] lone_run_env [OF v(3), of acts] assms(4)
    by (auto simp: thread_ok_def slot_at_unfocus [OF len])
qed

end

lemma like_ambient: "like A v w \<Longrightarrow> ambient a \<Longrightarrow> like A (env_step P a v) (env_step P a w)"
proof (cases a)
  case (EnvSpurious b)
  then show "like A v w \<Longrightarrow> ?thesis"
    using like_cell [of A v w b "\<lambda>c. c\<lparr>bcw_changed := condvar_notify_one (bcw_changed c)\<rparr>"] by simp
next
  case EnvTick
  have wakes: "like A (v\<lparr>arena := fold wake_cell as (arena v)\<rparr>) (w\<lparr>arena := fold wake_cell as (arena w)\<rparr>)"
    if "like A v w" for as v w using that
  proof (induction as arbitrary: v w)
    case (Cons b as)
    then show ?case
      using Cons.IH [OF like_cell [OF Cons.prems, of b waiter_wake]] by (simp add: wake_cell_def)
  qed simp
  assume l: "like A v w"
  obtain k as where tick: "tm_tick (tm P) (clock w) = (k, as)" by fastforce
  have "like A (v\<lparr>clock := k\<rparr>) (w\<lparr>clock := k\<rparr>)" using l by (simp add: like_def)
  from wakes [OF this, of as] show ?thesis
    using EnvTick tick likeD(3) [OF l] by (simp add: wake_waiters_eq)
qed (auto simp: like_def)

lemma ambient_frame:
  "ambient a \<Longrightarrow> env_holds (env_step P a v) = env_holds v \<and> env_regs (env_step P a v) = env_regs v \<and>
    in_flight (env_step P a v) = in_flight v"
  by (cases a) (auto simp: wake_waiters_eq split: prod.splits)

lemma same_slots:
  assumes "\<And>k. slot_holds (slot_at s' k) = slot_holds (slot_at s k)"
    and "\<And>k. slot_registration (slot_at s' k) = slot_registration (slot_at s k)"
    and "\<And>k. slot_pending (slot_at s' k) = slot_pending (slot_at s k)"
    and "length (bs_slots s') = length (bs_slots s)"
  shows "others_hold s' = others_hold s" "others_regs s' = others_regs s" "others_flight s' = others_flight s"
    "cells_apart s' = cells_apart s"
  using assms by (auto simp: fun_eq_iff others_hold_def others_regs_def others_flight_def cells_apart_def)

lemma disjoint_insertI: "A \<subseteq> insert n B \<Longrightarrow> n \<notin> C \<Longrightarrow> B \<inter> C = {} \<Longrightarrow> A \<inter> C = {}"
  by blast

context state_backend
begin

lemma ambient_ok:
  assumes "bs_ok P s" and "ambient a"
  shows "bs_ok P (unfocus (env_step P a (focus s)) (bs_slots s))"
proof -
  let ?s = "unfocus (env_step P a (focus s)) (bs_slots s)"
  have at: "slot_at ?s = slot_at s" and len: "length (bs_slots ?s) = length (bs_slots s)"
    by (simp_all add: fun_eq_iff slot_at_def unfocus_def)
  note same = same_slots [of ?s s, unfolded at, OF refl refl refl len]
  have "thread_ok P ?s i" for i
  proof -
    obtain v where v: "seen i s v" "slot_inv P (slot_at s i) v" "lone_run P (slot_at s i) v"
      using assms(1) thread_okE unfolding bs_ok_def by metis
    have "seen i ?s (env_step P a v)"
      using v(1) like_ambient [OF _ assms(2), of "own_cells (slot_at s i)" v "focus s" P]
      by (simp add: seen_def at same) (simp add: viewed_def ambient_frame [OF assms(2)])
    then show ?thesis
      using slot_inv_env_step [OF v(2), of a] lone_run_env [OF v(3), of "[a]"] by (auto simp: thread_ok_def at)
  qed
  then show ?thesis using assms(1) by (simp add: bs_ok_def same)
qed

lemma call_ok:
  assumes "bs_ok P s" and "i < length (bs_slots s)" and "bs_slots s ! i = Resting x"
  shows "bs_ok P (s\<lparr>bs_slots := (bs_slots s)[i := Busy c (th_start (th_entry c))]\<rparr>)"
proof -
  let ?s = "s\<lparr>bs_slots := (bs_slots s)[i := Busy c (th_start (th_entry c))]\<rparr>"
  have at: "slot_at ?s k = (if k = i then Busy c (th_start (th_entry c)) else slot_at s k)" for k
    using assms(2) by (auto simp: slot_at_def)
  have rest: "slot_at s i = Resting x" using assms(2,3) by (simp add: slot_at_def)
  have start: "th_holds (th_start e) = False" "th_registration (th_start e) = None" "th_pending (th_start e) = []"
    for e :: "('p, 'i) th_entry" by (cases e; simp)+
  have same: "others_hold ?s = others_hold s" "others_regs ?s = others_regs s" "others_flight ?s = others_flight s"
    "cells_apart ?s = cells_apart s"
    by (rule same_slots; simp add: at rest start)+
  have focus: "focus ?s = focus s" by (simp add: focus_def)
  have "thread_ok P ?s k" for k
  proof -
    obtain v where v: "seen k s v" "slot_inv P (slot_at s k) v" "lone_run P (slot_at s k) v"
      using assms(1) thread_okE unfolding bs_ok_def by metis
    have "seen k ?s v" using v(1) by (cases "k = i") (simp_all add: seen_def same focus at rest start)
    moreover have "slot_inv P (slot_at ?s k) v" using v(2) by (cases "k = i") (simp_all add: at rest th_start_inv)
    moreover have "lone_run P (slot_at ?s k) v"
    proof (cases "k = i")
      case True
      then have "idle P v" using v(2) rest by simp
      then have "lone_run P (Busy c (th_start (th_entry c))) v"
        unfolding lone_run.simps by (intro exI [of _ v] exI [of _ "[]"]) simp
      then show ?thesis using True by (simp add: at)
    qed (use v(3) in \<open>simp add: at\<close>)
    ultimately show ?thesis by (auto simp: thread_ok_def)
  qed
  then show ?thesis using assms(1) by (simp add: bs_ok_def same)
qed

lemma turn_ok:
  assumes "bs_ok P s" and "slot_at s j = Busy c pc" and "th_step P c pc (focus s) = Some (next, w)"
  shows "bs_ok P (unfocus w ((bs_slots s)[j := th_after c next]))"
proof -
  let ?s = "unfocus w ((bs_slots s)[j := th_after c next])"
  have ok: "thread_ok P s i" for i using assms(1) by (simp add: bs_ok_def)
  have "thread_ok P ?s i" for i
    using turn_own [OF ok assms(2,3)] turn_other [OF assms] by (cases "i = j") auto
  moreover have "cells_apart ?s"
  proof -
    obtain v where v: "seen j s v" "slot_inv P (Busy c pc) v" using ok [of j] assms(2) thread_okE by metis
    have "registry_inv (registry (focus s))" and len: "length (arena (focus s)) = length (bs_arena s)"
      using registry_slot_inv [OF v(2)] v(1) by (simp_all add: seen_def viewed_def like_def focus_def)
    then have new: "own_cells (th_after c next) \<subseteq> insert (length (bs_arena s)) (own_cells (slot_at s j))"
      using th_step_cells [OF assms(3)] slot_invD(4) [OF v(2)] unfolding assms(2) len by blast
    have "length (bs_arena s) \<notin> own_cells (slot_at s i)" for i
      using ok_registration(2) [OF ok [of i]] by fastforce
    then have "i \<noteq> j \<Longrightarrow> own_cells (th_after c next) \<inter> own_cells (slot_at s i) = {}" for i
      using assms(1) by (intro disjoint_insertI [OF new]) (simp_all add: bs_ok_def cells_apart_def)
    then show ?thesis
      using assms(1) unfolding bs_ok_def cells_apart_def
      by (simp add: slot_at_unfocus [OF slot_at_Busy [OF assms(2)]] Int_commute)
  qed
  ultimately show ?thesis by (simp add: bs_ok_def)
qed

lemma bs_exec_ok: "bs_ok P s \<Longrightarrow> bs_exec P ev s = Some s' \<Longrightarrow> bs_ok P s'"
  by (cases ev) (auto simp: call_ok turn_ok ambient_ok split: if_splits th_slot.splits)

lemma bs_start_ok:
  assumes "bk_free (bk P) m" and s: "s = bs_start m k n"
  shows "bs_ok P s"
proof -
  have at: "slot_at s i = Resting None" for i by (simp add: s slot_at_def bs_start_def)
  have "seen i s (focus s)" for i
    by (simp add: seen_def viewed_def like_def at others_hold_def others_regs_def others_flight_def)
      (simp add: focus_def)
  moreover have "idle P (focus s)"
    using assms(1)
    by (simp add: idle_def world_inv_def lock_inv_def queue_inv_def regs_within_def focus_def s bs_start_def
        BlockingWaiterRegistry_new_def WaiterRegistry_new_def mutex_new_def registry_inv_def)
  ultimately show ?thesis by (auto simp: bs_ok_def thread_ok_def at cells_apart_def)
qed

lemma reaches_ok: "reaches P (bs_start m k n) s \<Longrightarrow> bk_free (bk P) m \<Longrightarrow> bs_ok P s"
  by (induction rule: reaches.induct) (auto intro: bs_start_ok bs_exec_ok)

end

end
