(* ===== verification/System_Spec.thy ===== *)
theory System_Spec
  imports System_Invariant Std_Notify_Spec
begin

text \<open>
  What holds of every state that threads calling one standard monitor can reach, and of every result they get.
\<close>

section \<open>Consequences of the invariant\<close>

context state_backend
begin

lemma bs_excludes:
  assumes "bs_ok P s" and "slot_holds (slot_at s i)" and "slot_holds (slot_at s j)"
  shows "i = j"
  using ok_excludes [of s i] assms by (auto simp: bs_ok_def others_hold_def)

text \<open>The view of a thread that takes no part: the monitor is taken exactly when a thread holds it, and every entry of the
  registry belongs to a thread.\<close>

lemma bs_observer:
  assumes "bs_ok P s"
  shows "bk_free (bk P) (bs_state s) \<longleftrightarrow> (\<forall>i. \<not> slot_holds (slot_at s i))"
    and "e \<in> set (waiters (mx_data (bs_waiters s))) \<Longrightarrow>
      \<exists>i g. slot_registration (slot_at s i) = Some g \<and> waiter_id g = fst e"
proof -
  let ?n = "length (bs_slots s)"
  have rest: "slot_at s ?n = Resting None" by (simp add: slot_at_def)
  obtain v where v: "seen ?n s v" "slot_inv P (slot_at s ?n) v"
    using assms thread_okE unfolding bs_ok_def by metis
  have shared: "mon_state v = bs_state s" "mon_waiters v = bs_waiters s"
    using v(1) by (simp_all add: seen_def viewed_def like_def focus_def)
  have idle: "idle P v" using v(2) rest by simp
  have "env_holds v = (\<exists>i. slot_holds (slot_at s i))"
    using v(1) rest by (auto simp: seen_def viewed_def others_hold_def) (metis slot_holds.simps(1))
  then show "bk_free (bk P) (bs_state s) \<longleftrightarrow> (\<forall>i. \<not> slot_holds (slot_at s i))"
    using idle by (auto simp: idle_def world_inv_def lock_inv_def simp flip: shared)
  assume "e \<in> set (waiters (mx_data (bs_waiters s)))"
  then have "fst e \<in> set (env_regs v)"
    using idle shared by (auto simp: idle_def regs_within_def)
  then show "\<exists>i g. slot_registration (slot_at s i) = Some g \<and> waiter_id g = fst e"
    using v(1) unfolding seen_def viewed_def others_regs_def by fastforce
qed

lemma bs_attended:
  assumes "bs_ok P s" and "slot_registration (slot_at s i) = Some g"
  shows "(waiter_id g, waiter g) \<in> set (waiters (mx_data (bs_waiters s))) \<or>
    (\<exists>j. j \<noteq> i \<and> waiter g \<in> set (slot_pending (slot_at s j))) \<or> is_signalled (bs_arena s ! waiter g)"
proof -
  obtain v where v: "seen i s v" "slot_inv P (slot_at s i) v"
    using assms thread_okE unfolding bs_ok_def by metis
  have att: "attended g v" using slot_invD(3) [OF v(2) assms(2)] .
  have shared: "mon_waiters v = bs_waiters s" and cell: "arena v ! waiter g = bs_arena s ! waiter g"
    using v(1) assms(2) att by (auto simp: seen_def viewed_def like_def focus_def attended_def)
  have "set (in_flight v) = set_mset (others_flight s i)"
    using v(1) by (simp add: seen_def viewed_def flip: set_mset_mset)
  then have "waiter g \<in> set (in_flight v) \<Longrightarrow> \<exists>j. j \<noteq> i \<and> waiter g \<in> set (slot_pending (slot_at s j))"
    by (auto simp: others_flight_def set_mset_sum)
  then show ?thesis using att shared cell by (auto simp: attended_def)
qed

lemma th_step_None:
  "th_step P c pc w = None \<longleftrightarrow>
    (th_op (th_notify c) pc = Op_lock \<and> \<not> bk_free (bk P) (mon_state w)) \<or>
    (\<exists>g x p. pc = Th_parked g x p \<and> \<not> waiter_woken (arena w ! waiter g))"
  by (cases pc) (auto simp: th_step_def Let_def split: prod.splits)

text \<open>When no thread can move, every unfinished call is parked on a registration nobody has selected.\<close>

lemma bs_stuck:
  assumes ok: "bs_ok P s" and stuck: "\<And>j. bs_exec P (Ev_turn j) s = None"
    and closures: "\<And>j c. slot_at s j \<noteq> Hung c" and busy: "slot_at s i = Busy c pc"
  shows "\<exists>g x p. pc = Th_parked g x p \<and> (waiter_id g, waiter g) \<in> set (waiters (mx_data (bs_waiters s))) \<and>
    \<not> is_signalled (bs_arena s ! waiter g)"
proof -
  have halted: "th_step P c' pc' (focus s) = None" if "slot_at s j = Busy c' pc'" for j c' pc'
    using stuck [of j] that by simp
  have free: "bk_free (bk P) (bs_state s)"
    unfolding bs_observer(1) [OF ok]
  proof (intro allI notI)
    fix j assume "slot_holds (slot_at s j)"
    then obtain c' pc' where "slot_at s j = Busy c' pc'" "th_holds pc'"
      using closures [of j] by (cases "slot_at s j") auto
    then show False using halted [of j c' pc'] by (cases pc') (auto simp: th_step_None)
  qed
  then obtain g x p where pc: "pc = Th_parked g x p" and asleep: "\<not> waiter_woken (bs_arena s ! waiter g)"
    using halted [OF busy] by (auto simp: th_step_None focus_def)
  have reg: "slot_registration (slot_at s i) = Some g" by (simp add: busy pc)
  obtain v where v: "seen i s v" "slot_inv P (slot_at s i) v"
    using ok thread_okE unfolding bs_ok_def by metis
  have "parked_on (waiter g) v" using v(2) by (simp add: busy pc th_inv_def)
  then have "\<not> is_signalled (bs_arena s ! waiter g)"
    using v(1) asleep reg by (auto simp: seen_def viewed_def like_def focus_def parked_on_def)
  moreover have "\<not> (\<exists>j. j \<noteq> i \<and> waiter g \<in> set (slot_pending (slot_at s j)))"
  proof
    assume "\<exists>j. j \<noteq> i \<and> waiter g \<in> set (slot_pending (slot_at s j))"
    then obtain j c' pc' where "slot_at s j = Busy c' pc'" "th_pending pc' \<noteq> []"
      by (metis empty_iff list.set(1) slot_pending.elims)
    then show False using halted [of j c' pc'] by (cases pc') (auto simp: th_step_None)
  qed
  ultimately show ?thesis using bs_attended [OF ok reg] pc by blast
qed

text \<open>A result is the result of the call alone, against some schedule of the others.\<close>

lemma bs_adequate:
  assumes "bs_ok P s" and "slot_at s i = Resting (Some (c, r))"
  shows "\<exists>w w'. idle P w \<and> blocking_call P m c w = Some (r, w')"
proof -
  obtain v where v: "lone_run P (slot_at s i) v"
    using assms thread_okE unfolding bs_ok_def by metis
  then obtain w u where w: "idle P w" and run: "th_drive P c (th_start (th_entry c)) w = Some (r, u)"
    using assms(2) by auto
  then show ?thesis using drive_call [OF w, of c m] by auto
qed

end

section \<open>The protected value\<close>

text \<open>A step writes nothing, or what the call's action makes of the value.\<close>

lemma th_written:
  shows "th_act c wrap d = (next, Some d') \<Longrightarrow> d' = snd (th_action c d)"
    and "th_check c p blocked wrap d = (next, Some d') \<Longrightarrow> d' = snd (th_action c d)"
    and "th_turn c r f p d = (next, Some d') \<Longrightarrow> d' = snd (th_action c d)"
  by (auto simp: th_turn_def th_check_def th_act_def Let_def split: prod.splits outcome.splits if_splits sum.splits)

lemma th_continue_written: "th_continue P c pc ans d = (next, Some d') \<Longrightarrow> d' = snd (th_action c d)"
  by (cases pc)
    (auto simp: th_polled_def dest: th_written split: after_lock.splits th_answer.splits poll.splits outcome.splits sum.splits
      option.splits if_splits)

context state_backend
begin

lemma th_exec_deref: "th_exec P op w = Some (ans, w') \<Longrightarrow> data P w' = data P w"
proof (cases op)
  case Op_lock
  assume "th_exec P op w = Some (ans, w')"
  then show ?thesis
    using lock_keeps [of "mon_state w"] by (cases "bk_lock (bk P) (mon_state w)") (auto simp: Op_lock split: if_splits)
qed (cases "bwr_register w"; cases "bwr_take_one w"; cases "bwr_take_all w";
    auto simp: wait_or_park_def bwr_register_def bwr_take_one_def bwr_take_all_def bwr_unregister_def
      wake_waiter_def Let_def split: if_splits prod.splits)+

lemma th_step_value:
  assumes "th_step P c pc w = Some (next, w')"
  shows "data P w' \<in> {data P w, snd (th_action c (data P w))}"
proof -
  obtain ans u x where ex: "th_exec P (th_op (th_notify c) pc) w = Some (ans, u)"
    and co: "th_continue P c pc ans (bk_deref (bk P) (mon_state u)) = (next, x)" and w': "w' = th_put P x u"
    using assms by (rule th_stepE)
  have keep: "data P u = data P w" using ex by (rule th_exec_deref)
  show ?thesis
  proof (cases x)
    case (Some d)
    then have "d = snd (th_action c (data P w))" using th_continue_written co keep by metis
    then show ?thesis using Some by (simp add: w')
  qed (simp add: w' keep)
qed

lemma ambient_value: "ambient a \<Longrightarrow> data P (env_step P a w) = data P w"
  by (cases a) (auto simp: wake_waiters_eq split: prod.splits)

end

section \<open>Runs\<close>

fun bs_run ::
  "('m, 't, 'k, 'i, 'f, 'e) platform \<Rightarrow> ('t, 'k, 'p, 'r, 'i) bs_event list \<Rightarrow>
   ('m, 't, 'k, 'p, 'r, 'i, 'f, 'e) bsys \<Rightarrow> ('m, 't, 'k, 'p, 'r, 'i, 'f, 'e) bsys option"
where
  "bs_run P [] s = Some s"
| "bs_run P (ev # evs) s = (case bs_exec P ev s of None \<Rightarrow> None | Some s' \<Rightarrow> bs_run P evs s')"

lemma bs_run_reaches: "reaches P s\<^sub>0 s \<Longrightarrow> bs_run P evs s = Some s' \<Longrightarrow> reaches P s\<^sub>0 s'"
  by (induction evs arbitrary: s) (auto split: option.splits intro: reaches.step)

text \<open>The calls that a run makes keep \<open>Inv\<close>: so do those the threads are in.\<close>

definition keeps :: "('t \<Rightarrow> bool) \<Rightarrow> ('t, 'p, 'r, 'i) th_call \<Rightarrow> bool" where
  "keeps Inv c \<longleftrightarrow> (\<forall>d. Inv d \<longrightarrow> Inv (snd (th_action c d)))"

declare keeps_def [code del]

definition busy_keep :: "('t \<Rightarrow> bool) \<Rightarrow> ('m, 't, 'k, 'p, 'r, 'i, 'f, 'e) bsys \<Rightarrow> bool" where
  "busy_keep Inv s \<longleftrightarrow> (\<forall>i c pc. slot_at s i = Busy c pc \<longrightarrow> keeps Inv c)"

context state_backend
begin

lemma bs_exec_value:
  assumes "bs_exec P ev s = Some s'" and "busy_keep Inv s" and "Inv (bk_deref (bk P) (bs_state s))"
    and "\<And>i c. ev = Ev_call i c \<Longrightarrow> keeps Inv c"
  shows "busy_keep Inv s' \<and> Inv (bk_deref (bk P) (bs_state s'))"
proof (cases ev)
  case (Ev_call i c)
  then have "s' = s\<lparr>bs_slots := (bs_slots s)[i := Busy c (th_start (th_entry c))]\<rparr>" and "i < length (bs_slots s)"
    using assms(1) by (auto split: if_splits th_slot.splits)
  then show ?thesis
    using assms(2-) Ev_call by (auto simp: busy_keep_def slot_at_def nth_list_update split: if_splits)
next
  case (Ev_turn i)
  then obtain c pc "next" w where busy: "slot_at s i = Busy c pc" and step: "th_step P c pc (focus s) = Some (next, w)"
    and s': "s' = unfocus w ((bs_slots s)[i := th_after c next])"
    using assms(1) by (auto split: th_slot.splits)
  have "keeps Inv c" using assms(2) busy by (auto simp: busy_keep_def)
  moreover have "bk_deref (bk P) (bs_state s') \<in> {bk_deref (bk P) (bs_state s), snd (th_action c (bk_deref (bk P) (bs_state s)))}"
    using th_step_value [OF step] by (simp add: s' unfocus_def focus_def)
  ultimately have "Inv (bk_deref (bk P) (bs_state s'))" using assms(3) by (auto simp: keeps_def)
  moreover have "busy_keep Inv s'"
    using assms(2) \<open>keeps Inv c\<close> unfolding s' busy_keep_def slot_at_unfocus [OF slot_at_Busy [OF busy]]
    by (cases "next") auto
  ultimately show ?thesis by blast
next
  case (Ev_ambient a)
  then have s': "s' = unfocus (env_step P a (focus s)) (bs_slots s)" and "ambient a"
    using assms(1) by (auto split: if_splits)
  then have "bk_deref (bk P) (bs_state s') = bk_deref (bk P) (bs_state s)"
    using ambient_value [of a "focus s"] by (simp add: unfocus_def) (simp add: focus_def)
  moreover have "slot_at s' i = slot_at s i" for i by (simp add: s' slot_at_def unfocus_def)
  ultimately show ?thesis using assms(2,3) by (simp add: busy_keep_def)
qed

lemma bs_run_value:
  assumes "bs_run P evs s = Some s'" and "busy_keep Inv s" and "Inv (bk_deref (bk P) (bs_state s))"
    and "\<And>i c. Ev_call i c \<in> set evs \<Longrightarrow> keeps Inv c"
  shows "Inv (bk_deref (bk P) (bs_state s'))"
  using assms
proof (induction evs arbitrary: s)
  case (Cons ev evs)
  then obtain s\<^sub>1 where step: "bs_exec P ev s = Some s\<^sub>1" and run: "bs_run P evs s\<^sub>1 = Some s'"
    by (auto split: option.splits)
  have "busy_keep Inv s\<^sub>1 \<and> Inv (bk_deref (bk P) (bs_state s\<^sub>1))"
    using Cons.prems by (intro bs_exec_value [OF step]) auto
  then show ?case using Cons.IH [OF run] Cons.prems(4) by auto
qed simp

end

section \<open>Threads on a standard monitor\<close>

text \<open>The operations of \<^verbatim>\<open>StdMonitor\<close> that the threads call, with their results in one type.\<close>

definition std_call_result ::
  "('k, 'i, 'f, 'e) timer_ops \<Rightarrow> ('t, 'p, 'r, 'i) th_call \<Rightarrow> ('t, 'k) std_world \<Rightarrow>
   (('r, 'e) th_result outcome \<times> ('t, 'k) std_world) option"
where
  "std_call_result T c w =
     (let waiting = th_waiting c; f = th_action c; timed = map_option (apfst (map_outcome Got_timed))
      in case th_entry c of
           Call_wait_while p \<Rightarrow> map_option (apfst (map_outcome Got)) (std_wait_while T waiting p f w)
         | Call_wait_while_for t p \<Rightarrow> timed (std_wait_while_for T t waiting p f w)
         | Call_wait_while_with_deadline i p \<Rightarrow> timed (std_wait_while_with_deadline T i waiting p f w)
         | Call_wait_while_with_total_timeout t p \<Rightarrow> timed (std_wait_while_with_total_timeout T t waiting p f w)
         | Call_with_write n \<Rightarrow> Some (apfst (map_outcome Got) (case n of
               No_notify \<Rightarrow> std_with_write T f w
             | Notify_first \<Rightarrow> std_with_write_notify_one T f w
             | Notify_every \<Rightarrow> std_with_write_notify_all T f w))
         | Call_notify_one \<Rightarrow> Some (apfst (map_outcome (\<lambda>_. Got_nothing)) (std_notify_one T w))
         | Call_notify_all \<Rightarrow> Some (apfst (map_outcome (\<lambda>_. Got_nothing)) (std_notify_all T w)))"

lemma blocking_call_std: "blocking_call (std_platform T) std_slot_message c w = std_call_result T c w"
proof -
  have lock: "acquire_guard (lock_state (std_platform T)) = std_lock T" by (simp add: fun_eq_iff std_lock_def)
  have wait: "wait_for_notification (std_platform T) std_slot_message (lock_state (std_platform T)) = std_guard_wait T"
    "wait_with_timer (std_platform T) std_slot_message (lock_state (std_platform T)) = std_guard_wait_with_timer T"
    by (simp_all add: fun_eq_iff std_guard_wait_def std_guard_wait_with_timer_def)
  have notify: "bwr_notify_one (std_platform T) = std_notify_one T" "bwr_notify_all (std_platform T) = std_notify_all T"
    by (simp_all add: fun_eq_iff std_notify_one_def std_notify_all_def)
  have deadline: "wait_while_with_deadline (std_platform T) i (std_lock T) waiting p f (std_guard_wait_with_timer T) v =
      std_wait_while_with_deadline T i waiting p f v" for i waiting p f v
    by (simp add: std_wait_while_with_deadline_def)
  have "then_notify (std_notify_one T) (std_with_write T f w) = std_with_write_notify_one T f w"
    "then_notify (std_notify_all T) (std_with_write T f w) = std_with_write_notify_all T f w" for f
    using std.write_then_notify [where T = T and m = std_slot_message and f = f and w = w and notify = "std_notify_one T"]
      std.write_then_notify [where T = T and m = std_slot_message and f = f and w = w and notify = "std_notify_all T"]
    by (simp_all add: std_with_write_notify_one_def std_with_write_notify_all_def std_guard_notify_one_def
        std_guard_notify_all_def std_with_write_def then_notify_def)
  note writes = this [unfolded std_with_write_def]
  show ?thesis
    unfolding blocking_call_def std_call_result_def Let_def lock wait notify deadline writes
      std_wait_while_def std_wait_while_for_def std_wait_while_with_total_timeout_def std_with_write_def
    by (intro th_entry.case_cong refl) (simp split: prod.split sum.split)
qed

definition std_reaches ::
  "('k, 'i, 'f, 'e) timer_ops \<Rightarrow> ('t, 'k, 'i, 'f, 'e) StdMonitor \<Rightarrow> 'k \<Rightarrow> nat \<Rightarrow>
   ('t mutex, 't, 'k, 'p, 'r, 'i, 'f, 'e) bsys \<Rightarrow> bool"
where
  "std_reaches T m k n s \<longleftrightarrow> reaches (std_platform T) (bs_start (sm_state m) k n) s"

text \<open>Two threads on a monitor with value 0: one waits until it is positive and takes it, the other adds one, up
  to three, and notifies everybody.\<close>

definition demo_taker :: "(nat, unit, nat, nat) th_call" where
  "demo_taker = \<lparr>th_entry = Call_wait_while (), th_waiting = demo_empty, th_action = demo_take\<rparr>"

definition demo_giver :: "(nat, unit, nat, nat) th_call" where
  "demo_giver = \<lparr>th_entry = Call_with_write Notify_every, th_waiting = demo_empty,
     th_action = (\<lambda>d. (Return 0, min 3 (d + 1)))\<rparr>"

definition demo_system ::
  "(nat, manual_clock, unit, nat, nat) bs_event list \<Rightarrow> (nat mutex, nat, manual_clock, unit, nat, nat, nat, string) bsys"
where
  "demo_system evs = the (bs_run (std_platform manual_timer) evs
     (bs_start (sm_state (std_with_timer 0 manual_timer)) manual_start 2))"

definition demo_parks :: "(nat, manual_clock, unit, nat, nat) bs_event list" where
  "demo_parks = Ev_call 0 demo_taker # replicate 4 (Ev_turn 0)"

definition demo_wakes :: "(nat, manual_clock, unit, nat, nat) bs_event list" where
  "demo_wakes = demo_parks @ Ev_call 1 demo_giver # replicate 4 (Ev_turn 1) @ replicate 4 (Ev_turn 0)"

lemma demo_reaches:
  assumes "bs_run (std_platform manual_timer) evs
    (bs_start (sm_state (std_with_timer 0 manual_timer)) manual_start 2) \<noteq> None"
  shows "std_reaches manual_timer (std_with_timer 0 manual_timer) manual_start 2 (demo_system evs)"
  using assms unfolding std_reaches_def demo_system_def by (auto intro: bs_run_reaches reaches.start)

lemma std_reaches_ok: "std_reaches T (std_with_timer d T) k n s \<Longrightarrow> bs_ok (std_platform T) s"
  unfolding std_reaches_def by (erule std.reaches_ok) (simp add: std_with_timer_def mutex_new_def)

lemma demo_sys_parked:
  "std_reaches manual_timer (std_with_timer 0 manual_timer) manual_start 2 (demo_system demo_parks)"
  "slot_registration (slot_at (demo_system demo_parks) 0) = Some \<lparr>waiter_id = 1, waiter = 0\<rparr>"
  "bs_exec (std_platform manual_timer) (Ev_turn j) (demo_system demo_parks) = None"
  "slot_at (demo_system demo_parks) j \<noteq> Hung c"
  "mx_locked (bs_state (demo_system demo_parks)) = False"
proof -
  have "\<not> Option.is_none (bs_run (std_platform manual_timer) demo_parks
      (bs_start (sm_state (std_with_timer 0 manual_timer)) manual_start 2) ::
        (nat mutex, nat, manual_clock, unit, nat, nat, nat, string) bsys option)" by code_simp
  then show "std_reaches manual_timer (std_with_timer 0 manual_timer) manual_start 2 (demo_system demo_parks)"
    by (intro demo_reaches) (simp add: Option.is_none_def)
  show "slot_registration (slot_at (demo_system demo_parks) 0) = Some \<lparr>waiter_id = 1, waiter = 0\<rparr>" by code_simp
  have len: "length (bs_slots (demo_system demo_parks)) = 2" by code_simp
  have one: "case slot_at (demo_system demo_parks) 1 of Resting x \<Rightarrow> True | _ \<Rightarrow> False" by code_simp
  have two: "slot_at (demo_system demo_parks) j = Resting None" if "2 \<le> j" using that len by (simp add: slot_at_def)
  have zero: "Option.is_none (bs_exec (std_platform manual_timer) (Ev_turn 0) (demo_system demo_parks))"
    "case slot_at (demo_system demo_parks) 0 of Busy c pc \<Rightarrow> True | _ \<Rightarrow> False" by code_simp+
  consider "j = 0" | "j = 1" | "2 \<le> j" by linarith
  then show "bs_exec (std_platform manual_timer) (Ev_turn j) (demo_system demo_parks) = None"
    and "slot_at (demo_system demo_parks) j \<noteq> Hung c"
    by (cases; use zero one two in \<open>auto simp: Option.is_none_def split: th_slot.splits\<close>)+
  show "mx_locked (bs_state (demo_system demo_parks)) = False" by code_simp
qed

lemma demo_sys_woken:
  "std_reaches manual_timer (std_with_timer 0 manual_timer) manual_start 2 (demo_system demo_wakes)"
  "\<exists>x. slot_at (demo_system demo_wakes) i = Resting x"
  "\<exists>c. slot_at (demo_system demo_wakes) 0 = Resting (Some (c, Return (Got 1)))"
proof -
  have "\<not> Option.is_none (bs_run (std_platform manual_timer) demo_wakes
      (bs_start (sm_state (std_with_timer 0 manual_timer)) manual_start 2) ::
        (nat mutex, nat, manual_clock, unit, nat, nat, nat, string) bsys option)" by code_simp
  then show "std_reaches manual_timer (std_with_timer 0 manual_timer) manual_start 2 (demo_system demo_wakes)"
    by (intro demo_reaches) (simp add: Option.is_none_def)
  have len: "length (bs_slots (demo_system demo_wakes)) = 2" by code_simp
  have "case slot_at (demo_system demo_wakes) 1 of Resting x \<Rightarrow> True | _ \<Rightarrow> False" by code_simp
  moreover have "case slot_at (demo_system demo_wakes) 0 of
      Resting (Some (c, r)) \<Rightarrow> r = Return (Got 1) | _ \<Rightarrow> False" by code_simp
  moreover have "slot_at (demo_system demo_wakes) i = Resting None" if "2 \<le> i" using that len by (simp add: slot_at_def)
  moreover consider "i = 0" | "i = 1" | "2 \<le> i" by linarith
  ultimately show "\<exists>x. slot_at (demo_system demo_wakes) i = Resting x"
    and "\<exists>c. slot_at (demo_system demo_wakes) 0 = Resting (Some (c, Return (Got 1)))"
    by (auto split: th_slot.splits option.splits prod.splits)
qed

text \<open>C9: however many threads call the monitor, in whatever order they run: the state mutex is locked exactly while one
  of them has the guard, and never two of them have it.\<close>

theorem std_threads_exclusive:
  assumes "std_reaches T (std_with_timer d T) k n s"
  shows "(mx_locked (bs_state s) \<longleftrightarrow> (\<exists>i. slot_holds (slot_at s i))) \<and>
    (\<forall>i j. slot_holds (slot_at s i) \<and> slot_holds (slot_at s j) \<longrightarrow> i = j)"
  using std.bs_observer(1) [OF std_reaches_ok [OF assms]] std.bs_excludes [OF std_reaches_ok [OF assms]]
  by auto

theorem std_threads_exclusive_witness:
  "\<not> mx_locked (bs_state (demo_system demo_parks)) \<and> \<not> slot_holds (slot_at (demo_system demo_parks) 0)"
  using std_threads_exclusive [OF demo_sys_parked(1)] demo_sys_parked(5) by blast

text \<open>C2: no wake-up is lost, for any thread at any moment: a thread that has registered and not yet cancelled is still in the
  registry, or another thread has selected it and is about to signal it, or its latch is set.\<close>

theorem std_threads_no_lost_wakeup:
  assumes "std_reaches T (std_with_timer d T) k n s" and "slot_registration (slot_at s i) = Some g"
  shows "(waiter_id g, waiter g) \<in> set (waiters (mx_data (bs_waiters s))) \<or>
    (\<exists>j. j \<noteq> i \<and> waiter g \<in> set (slot_pending (slot_at s j))) \<or> is_signalled (bs_arena s ! waiter g)"
  using std.bs_attended [OF std_reaches_ok [OF assms(1)] assms(2)] .

theorem std_threads_no_lost_wakeup_witness:
  "(1, 0) \<in> set (waiters (mx_data (bs_waiters (demo_system demo_parks)))) \<or>
   (\<exists>j. j \<noteq> 0 \<and> 0 \<in> set (slot_pending (slot_at (demo_system demo_parks) j))) \<or>
   is_signalled (bs_arena (demo_system demo_parks) ! 0)"
  using std_threads_no_lost_wakeup [OF demo_sys_parked(1,2)] by simp

text \<open>C11: when every call has ended, by returning or by a panic, the monitor is unlocked and no registration is left.\<close>

theorem std_threads_nothing_left:
  assumes "std_reaches T (std_with_timer d T) k n s" and "\<And>i. \<exists>x. slot_at s i = Resting x"
  shows "\<not> mx_locked (bs_state s) \<and> waiters (mx_data (bs_waiters s)) = []"
proof -
  note ok = std_reaches_ok [OF assms(1)]
  have rest: "\<not> slot_holds (slot_at s i)" "slot_registration (slot_at s i) = None" for i
    using assms(2) [of i] by auto
  have "set (waiters (mx_data (bs_waiters s))) = {}"
    using std.bs_observer(2) [OF ok] rest(2) by fastforce
  then show ?thesis using std.bs_observer(1) [OF ok] rest(1) by auto
qed

theorem std_threads_nothing_left_witness:
  "\<not> mx_locked (bs_state (demo_system demo_wakes)) \<and> waiters (mx_data (bs_waiters (demo_system demo_wakes))) = []"
  using std_threads_nothing_left [OF demo_sys_woken(1,2)] .

text \<open>C8: the threads cannot deadlock on the monitor itself. If no thread can make a step, and none is inside a closure that
  never returns, then every call that has not ended is parked on its own waiter, is still registered, and nobody has
  signalled it: it waits for a notification that no thread has begun.\<close>

theorem std_threads_stuck:
  assumes "std_reaches T (std_with_timer d T) k n s"
    and "\<And>j. bs_exec (std_platform T) (Ev_turn j) s = None" and "\<And>j c. slot_at s j \<noteq> Hung c"
    and "slot_at s i = Busy c pc"
  shows "\<exists>g x p. pc = Th_parked g x p \<and> (waiter_id g, waiter g) \<in> set (waiters (mx_data (bs_waiters s))) \<and>
    \<not> is_signalled (bs_arena s ! waiter g)"
  using std.bs_stuck [OF std_reaches_ok [OF assms(1)] assms(2-)] .

theorem std_threads_stuck_witness:
  "\<exists>c g x p. slot_at (demo_system demo_parks) 0 = Busy c (Th_parked g x p) \<and>
     (waiter_id g, waiter g) \<in> set (waiters (mx_data (bs_waiters (demo_system demo_parks))))"
proof -
  obtain c pc where "slot_at (demo_system demo_parks) 0 = Busy c pc"
    using demo_sys_parked(2) by (metis option.distinct(1) slot_registration.elims)
  then show ?thesis
    using std_threads_stuck [OF demo_sys_parked(1,3,4)] by blast
qed





lemma std_threads_wait_while:
  assumes "std_reaches T (std_with_timer d T) k n s" and "slot_at s i = Resting (Some (c, Return y))"
    and "th_entry c = Call_wait_while p"
  shows "\<exists>x d'. y = Got x \<and> acted (th_waiting c) p (th_action c) (Return x) d'"
proof -
  obtain w w' where w: "idle (std_platform T) w" and run: "std_call_result T c w = Some (Return y, w')"
    using std.bs_adequate [OF std_reaches_ok [OF assms(1)] assms(2), of std_slot_message]
    unfolding blocking_call_std by blast
  obtain r where "std_wait_while T (th_waiting c) p (th_action c) w = Some (r, w')" and y: "map_outcome Got r = Return y"
    using run assms(3) by (auto simp: std_call_result_def)
  then show ?thesis
    using std_wait_while_spec [OF w, of "th_waiting c" p "th_action c"]
    by (cases r) (auto simp: wait_post_def)
qed

end
