(* ===== verification/Spec2Isabelle.thy ===== *)
theory Spec2Isabelle
  imports Std_Notify_Spec Parking_Lot_Spec Lock_Properties Async_Lock_Spec Tokio_Timing Tokio_Liveness
    Tokio_Termination Bounded_Queue_Spec Lock_Traits_Spec Loom_Registry Default_Timer System_Spec
begin

text \<open>
  Verification of \<^verbatim>\<open>qubit-lock\<close> (\<^verbatim>\<open>src/src/\<close>): locks behind a common closure interface, and
  monitors, that is, protected state with condition waiting, notification and timeouts.

  \<^bold>\<open>The program.\<close> A blocking monitor is a state mutex, a registry of waiters and a Timer. A thread
  that has to wait registers a waiter while it still holds the state mutex, releases the mutex,
  parks on the waiter's private latch, cancels the registration and reacquires the mutex
  (\<^verbatim>\<open>monitor/internal/blocking_monitor_guard_wait.rs\<close>). The predicate loops of
  \<^verbatim>\<open>monitor/internal/blocking_condition_wait.rs\<close> repeat that until the caller's predicate lets
  them run the caller's action. A notification takes waiters out of the registry, oldest first, and
  sets their latches (\<^verbatim>\<open>blocking_waiter_registry.rs\<close>, \<^verbatim>\<open>waiter_registry.rs\<close>); a Timer future is
  polled with a Waker that sets the same latch (\<^verbatim>\<open>blocking_condition_waiter.rs\<close>). \<^verbatim>\<open>StdMonitor\<close>
  and \<^verbatim>\<open>ParkingLotMonitor\<close> put these parts together over two mutexes; the traits \<^verbatim>\<open>Notifier\<close>,
  \<^verbatim>\<open>ConditionWaiter\<close>, \<^verbatim>\<open>TimeoutConditionWaiter\<close> and \<^verbatim>\<open>Monitor\<close> add provided methods. \<^verbatim>\<open>TokioMonitor\<close>
  does the same for asynchronous tasks: a wait registers a waiter with a private \<^verbatim>\<open>Notify\<close> under the
  state mutex, drops the guard and awaits the signal, or the signal and a Timer future; dropping the
  future cancels the wait. The
  locks of \<^verbatim>\<open>lock/\<close> give closure and guard access to \<^verbatim>\<open>Mutex\<close> and \<^verbatim>\<open>RwLock\<close>. The case study
  \<^verbatim>\<open>src/examples/bounded_queue.rs\<close> is a closable bounded queue on top of a monitor.

  \<^bold>\<open>The model.\<close> Definitions keep the names of the source where possible and the order of its
  statements; a struct is a record, an enum a datatype, \<^verbatim>\<open>u64\<close> is a 64-bit word.
  \<^item> \<open>Lock_Prelude\<close>: checked arithmetic, the outcome of a call (a value, a panic, or still blocked),
    and \<^verbatim>\<open>BTreeMap\<close> as a sorted list of entries.
  \<^item> \<open>Std_Sync\<close>: \<^verbatim>\<open>std::sync\<close> Mutex, RwLock and Condvar with the poison marker, \<^verbatim>\<open>Duration\<close>, and
    \<^verbatim>\<open>internal/sync.rs\<close>.
  \<^item> \<open>Waiter_Registry\<close>: \<^verbatim>\<open>internal/waiter_registry.rs\<close>, with the locale \<open>waiter_queue\<close> as its
    interface and a FIFO queue as its abstract specification.
  \<^item> \<open>Blocking_Waiter\<close>, \<open>Monitor_World\<close>: the latched waiter, the blocking registry and
    registration, the steps of the calling thread and of other threads.
  \<^item> \<open>Wait_Results\<close>, \<open>Blocking_Wait\<close>: the result types, one suspension of a guard, the predicate
    loops.
  \<^item> \<open>Std_Monitor\<close>, \<open>Parking_Lot_Monitor\<close>, \<open>Monitor_Traits\<close>: every method of the two monitors, of
    their guards and of the traits, through \<^verbatim>\<open>Arc\<close> as well.
  \<^item> \<open>Sync_Locks\<close>: every method of \<^verbatim>\<open>DataLock\<close>, \<^verbatim>\<open>Lock\<close>, \<^verbatim>\<open>ReadWriteLock\<close> and of the
    adapters, for the standard and the parking_lot primitives, references and \<^verbatim>\<open>Arc\<close>.
  \<^item> \<open>Tokio_Sync\<close>, \<open>Async_Locks\<close>: every method of \<^verbatim>\<open>AsyncDataLock\<close>, \<^verbatim>\<open>AsyncLock\<close>,
    \<^verbatim>\<open>AsyncReadWriteLock\<close> and their adapters as a future, a state that is polled and may be dropped
    at its await, over the primitives of \<^verbatim>\<open>tokio::sync\<close>.
  \<^item> \<open>Lock_Traits\<close>: the guard traits as records of their methods, the implementations as such records,
    and the adapters that \<^verbatim>\<open>read_lock()\<close> and \<^verbatim>\<open>write_lock()\<close> hand out.
  \<^item> \<open>Default_Timer\<close>: the process-wide Timer of \<^verbatim>\<open>internal/default_timer.rs\<close>. \<open>Loom_Registry\<close>: the
    registry behind a \<^verbatim>\<open>loom\<close> mutex (\<^verbatim>\<open>test_util/loom/\<close>), with the registry itself as its specification.
  \<^item> \<open>Bounded_Queue\<close>: \<^verbatim>\<open>push\<close>, \<^verbatim>\<open>pop\<close>, \<^verbatim>\<open>pop_for\<close> and \<^verbatim>\<open>close\<close> of the case study, generic in the
    monitor as in the code, and on the parking_lot monitor.
  \<^item> \<open>Thread_Machine\<close>: the calls of a blocking monitor as threads that make one operation on the shared
    state at a time (\<open>th_op\<close>, \<open>th_exec\<close>) and then run the code up to the next one (\<open>th_continue\<close>), at the
    program counters \<open>th_pc\<close>. \<open>Blocking_System\<close>: any number of such threads on one monitor (\<open>bs_exec\<close>,
    \<open>bs_run\<close>, the reachable states \<open>reaches\<close>).
  \<^item> \<open>Tokio_Monitor\<close>, \<open>Tokio_Timed\<close>, \<open>Async_Monitor_Traits\<close>: \<^verbatim>\<open>monitor/tokio_monitor.rs\<close> with its waiter
    and registration, and the asynchronous traits. A method is a program counter (\<open>wait_pc\<close>,
    \<open>deadline_pc\<close>, \<open>for_pc\<close> and so on) and a step function that executes one statement; \<open>Pend\<close> is an
    await that suspends, and each future has its destructor (\<open>wait_drop\<close>, \<open>loop_drop\<close> and so on).
  \<^item> \<open>Tokio_Effects\<close>, \<open>Tokio_Futures\<close>, \<open>Tokio_System\<close>: what a step may do to the shared monitor
    (\<open>tok_effect\<close>), that every method's steps are such effects (the locale \<open>tokio_future\<close>), and any
    number of tasks on one monitor as the relation \<open>sys_step\<close> with the reachable states
    \<open>tok_reachable\<close>; \<open>sys_run\<close> computes the state a schedule leads to. \<open>Tokio_Demo\<close> is a platform to
    run it on.

  \<^bold>\<open>Concurrency.\<close> A \<open>world\<close> is what one thread and the shared state of one monitor make up, together
  with a schedule: for each point where the thread can be interrupted, the steps other threads make
  there. They lock and unlock the monitor, write the state, clear the poison marker, register,
  cancel, select, wake, unpark spuriously, call into the Timer and let it tick. Selecting waiters and
  waking them are separate steps, as in the code. A theorem for all worlds holds for all interleavings. A
  schedule is finite: a call that is \<open>Blocked\<close> is one that cannot go on after the others have
  stopped, and a loop that would spin is a call with no outcome at all (\<open>None\<close>), which is what the
  termination theorems exclude. That such a schedule is all there is to the company of other threads is
  proved: in a system of threads that all run the code, each thread has a world of this kind in which
  the steps of the others are the environment, and each result it gets is that of its call alone
  against some schedule. For the Tokio monitor all tasks are modelled: a step of the system
  spawns a call, polls one, executes one statement of a polled one, drops a suspended one, or lets the
  Timer tick. Statements of different tasks interleave freely, so several worker threads are covered.
  Wakers of the executor are not modelled: any suspended task may be polled at any time, which
  includes every poll a Waker can cause.

  \<^bold>\<open>Rely.\<close> What other threads write is constrained, where a theorem needs it, by \<open>writes_within S\<close>: each
  of their writes is a sequence of steps of \<open>S\<close>. For the queue \<open>S\<close> is \<open>queue_step\<close>, the puts, takes and
  closes of the case study, so its theorems hold for any number of threads that use the queue.

  \<^bold>\<open>Parameters.\<close> The Timer of the \<^verbatim>\<open>qubit_clock\<close> crate is the record \<open>timer_ops\<close>; \<open>honest_timer\<close>
  states the documented behaviour the timing theorems need and \<open>Manual_Timer\<close> is an instance. A
  Timer invokes Wakers through its own progress only, not inside a poll. The mutex and
  reader-writer lock of \<^verbatim>\<open>parking_lot\<close> are the records \<open>raw_mutex_ops\<close> and \<open>raw_rwlock_ops\<close>
  with the contracts \<open>raw_mutex\<close> and \<open>raw_rwlock\<close> (\<open>Raw_Locks\<close>), and those of \<^verbatim>\<open>tokio\<close> are
  \<open>tokio_mutex_ops\<close> and \<open>tokio_rwlock_ops\<close> with the contracts \<open>tokio_mutex\<close> and \<open>tokio_rwlock\<close>;
  \<^verbatim>\<open>Notify\<close> is \<open>notify_ops\<close> with the contract \<open>notify_latch\<close>, and \<open>uncontended_mutex\<close> adds that a free
  mutex nobody is queued for grants at once. The mutex of \<^verbatim>\<open>loom\<close> is \<open>poison_mutex_ops\<close> with the contract
  \<open>poison_mutex\<close>. The standard primitives meet them all. The caller's closures are arbitrary functions that may keep state, panic or never return.

  \<^bold>\<open>What is shown.\<close>
  \<^item> \<open>Waiter_Registry\<close>: the registry refines a FIFO queue, selects in registration order and never
    reuses an identifier.
  \<^item> \<open>Monitor_Backend\<close>, \<open>Blocking_Wait_Spec\<close>, \<open>Wait_Loops_Spec\<close>, \<open>Monitor_Ops_Spec\<close>: the contract of
    a state mutex (\<open>state_backend\<close>), the invariants every step of another thread keeps, the contract
    of one suspension (\<open>guard_suspension\<close>, \<open>timed_suspension\<close>), and the specification of every
    operation against it. Both monitors instantiate it.
  \<^item> \<open>Std_Monitor_Spec\<close>, \<open>Std_Timed_Spec\<close>, \<open>Std_Guard_Spec\<close>, \<open>Std_Notify_Spec\<close>, \<open>Deadline_Spec\<close>,
    \<open>Parking_Lot_Spec\<close>: the guarantees of the two monitors. Waits reach an outcome; a value means the
    predicate was satisfied on the state the action saw; a blocked wait has not been notified; no
    spurious return; no early timeout; panics are traced to their origin; notifications reach
    exactly the selected waiters; the inherent methods agree with the trait methods.
  \<^item> \<open>Monitor_Regions\<close>, \<open>Region_Spec\<close>: what each step of a call and of the others does to the protected
    value, and from that that the calls of the blocking monitors are conditional critical regions and
    keep every invariant of the value.
  \<^item> \<open>Thread_Drive\<close>: a call run one step at a time is the call as a whole. \<open>System_Views\<close>,
    \<open>System_Invariant\<close>: every thread's view of the system satisfies the invariant of its program counter,
    and the steps of one thread are environment steps to the others. \<open>System_Spec\<close>: for any number of
    threads on a standard monitor, exclusion, no lost wake-up, no deadlock on the monitor itself, nothing
    left behind, invariants of the value, and every result a result of the call alone.
  \<^item> \<open>Bounded_Queue_Spec\<close>: the monitor as a client sees it (the locales \<open>region_client\<close> and
    \<open>timed_client\<close>, which both monitors meet), and the queue on it: first in, first out; no item lost; the
    capacity never exceeded; after \<^verbatim>\<open>close\<close> nobody waits and nothing is put in.
  \<^item> \<open>Lock_Traits_Spec\<close>: attempts agree with blocking acquisitions, and the modes marked
    \<^verbatim>\<open>ExclusiveLock\<close> exclude every competing guard.
  \<^item> \<open>Data_Lock_Spec\<close>, \<open>Lock_Properties\<close>: the contract of \<^verbatim>\<open>DataLock\<close> as a locale, its four
    implementations, poisoning, sharing and exclusion, and closure access as guard access.
  \<^item> \<open>Async_Lock_Spec\<close>: a poll of an asynchronous lock is all or nothing, and a cancelled one is invisible.
  \<^item> \<open>Tokio_Safety\<close>: in every reachable state the guard is held by at most one task and across no
    await, no wake-up is lost, cancelling removes exactly the call's own registration, and at rest
    nothing is left behind. \<open>Tokio_Regions\<close>: the monitor refines conditional critical regions, and the
    result of every call means what it says. \<open>Tokio_Timing\<close>: no early timeout. \<open>Tokio_Liveness\<close>: a
    notifying write hands its value over to the oldest waiter. \<open>Tokio_Termination\<close>: every poll
    returns to the executor within a bound given by a rank of the program counter.

  \<^bold>\<open>Not modelled.\<close> The \<^verbatim>\<open>main\<close> functions of the examples, the inline tests, the benches and the loom
  variants of \<^verbatim>\<open>internal/sync.rs\<close> are programs that exercise the library, not part of it. The
  destructor of a Timer future has no effect on the monitor and is omitted. A \<^verbatim>\<open>Notify\<close> serves one
  waiter, so the queue inside it is not modelled. Running out of memory (in \<^verbatim>\<open>VecDeque::push_back\<close>,
  \<^verbatim>\<open>Arc::new\<close> and so on) is not modelled. The threads of \<open>Blocking_System\<close> make the closure-based calls;
  a thread that keeps a monitor guard across statements of its own is modelled as one thread with the
  others as its environment.
\<close>

end
